(* ===== verification/Prelude.thy ===== *)
theory Prelude
  imports Main "HOL-Library.AList" "HOL-Library.Char_ord" "HOL-Library.List_Lexorder"
    "HOL-Library.Product_Lexorder" "HOL-Library.Multiset" "HOL-Library.Signed_Division"
begin

text \<open>
  The vocabulary shared by the component theories: Go's fixed-width arithmetic, time values,
  errors, maps, slices and loops over slices, with the generic lemmas about them.

  \<^item> An unsigned counter is a \<open>nat\<close> whose increment wraps (\<open>u64\<close>, \<open>u32\<close>); a signed value is an
    \<open>int\<close> wrapped by \<open>i64\<close>. Division truncates towards zero (\<open>sdiv\<close>, \<open>smod\<close>).
  \<^item> \<open>time.Time\<close> is the number of nanoseconds since the zero time (1 January of year 1), which is
    how \<open>Truncate\<close> and \<open>IsZero\<close> count; \<open>Unix\<close> shifts a Unix time into that scale.
  \<^item> An \<open>error\<close> value is named by its variable, its errno or its message; a runtime panic is the error \<open>Panic\<close>.
  \<^item> A map is an association list with distinct keys. The order of the list stands for the order
    in which a \<open>range\<close> loop happens to visit it, so a statement about every list is a statement
    about every iteration order. A nil map and an empty map are the same list, except where the
    code tests for nil and the model has an \<open>option\<close>.
\<close>

named_theorems go_simps \<open>rewrite rules for the elementary Go operations\<close>

section \<open>Fixed-width integers\<close>

definition u32 :: "nat \<Rightarrow> nat" where
  "u32 n = n mod 2 ^ 32"

definition u64 :: "nat \<Rightarrow> nat" where
  "u64 n = n mod 2 ^ 64"

definition i64 :: "int \<Rightarrow> int" where
  "i64 x = (x + 2 ^ 63) mod 2 ^ 64 - 2 ^ 63"

definition i32 :: "int \<Rightarrow> int" where
  "i32 x = (x + 2 ^ 31) mod 2 ^ 32 - 2 ^ 31"

definition i8 :: "int \<Rightarrow> int" where
  "i8 x = (x + 2 ^ 7) mod 2 ^ 8 - 2 ^ 7"

abbreviation (input) maxU64 :: nat where
  "maxU64 \<equiv> 18446744073709551615"

lemma u64_id [simp]: "n < 18446744073709551616 \<Longrightarrow> u64 n = n"
  by (simp add: u64_def)

lemma u32_id [simp]: "n < 4294967296 \<Longrightarrow> u32 n = n"
  by (simp add: u32_def)

lemma u64_less: "u64 n < 18446744073709551616"
  by (simp add: u64_def)

lemma u32_less: "u32 n < 4294967296"
  by (simp add: u32_def)

lemma i64_id [simp]: "- 9223372036854775808 \<le> x \<Longrightarrow> x < 9223372036854775808 \<Longrightarrow> i64 x = x"
  by (simp add: i64_def)

lemma i32_id [simp]: "- 2147483648 \<le> x \<Longrightarrow> x < 2147483648 \<Longrightarrow> i32 x = x"
  by (simp add: i32_def)

lemma i8_id [simp]: "- 128 \<le> x \<Longrightarrow> x < 128 \<Longrightarrow> i8 x = x"
  by (simp add: i8_def)

section \<open>Errors\<close>

datatype err =
    Err string      \<comment> \<open>a sentinel of \<open>meta/errors.go\<close>, by its variable's name\<close>
  | Errno string    \<comment> \<open>an \<open>errno.NewError\<close>, by the name of its code\<close>
  | Errorf string   \<comment> \<open>a formatted error, by its fixed part\<close>
  | Panic string    \<comment> \<open>a runtime panic (nil dereference, index out of range, assert)\<close>

abbreviation (input) index_panic :: err where
  "index_panic \<equiv> Panic ''index out of range''"

abbreviation (input) nil_panic :: err where
  "nil_panic \<equiv> Panic ''nil pointer dereference''"

section \<open>Time\<close>

type_synonym time = int
type_synonym duration = int

definition unixToInternal :: int where
  "unixToInternal = 62135596800 * 1000000000"

definition Unix0 :: "int \<Rightarrow> time" where
  "Unix0 ns = ns + unixToInternal"

definition UnixNano :: "time \<Rightarrow> int" where
  "UnixNano t = i64 (t - unixToInternal)"

definition IsZero :: "time \<Rightarrow> bool" where
  "IsZero t \<longleftrightarrow> t = 0"

definition Truncate :: "time \<Rightarrow> duration \<Rightarrow> time" where
  "Truncate t d = (if d \<le> 0 then t else t - t mod d)"

abbreviation (input) Hour :: duration where
  "Hour \<equiv> 3600000000000"

lemma Truncate_le: "Truncate t d \<le> t"
  by (simp add: Truncate_def)

lemma Truncate_gt: "0 < d \<Longrightarrow> t < Truncate t d + d"
  by (simp add: Truncate_def pos_mod_bound)

lemma Truncate_dvd: "0 < d \<Longrightarrow> d dvd Truncate t d"
  by (simp add: Truncate_def dvd_minus_mod)

lemma UnixNano_Unix0:
  "- 9223372036854775808 \<le> x \<Longrightarrow> x < 9223372036854775808 \<Longrightarrow> UnixNano (Unix0 x) = x"
  by (simp add: UnixNano_def Unix0_def)

section \<open>Maps\<close>

type_synonym ('k, 'v) gomap = "('k \<times> 'v) list"

definition mwf :: "('k, 'v) gomap \<Rightarrow> bool" where
  "mwf m \<longleftrightarrow> distinct (map fst m)"

text \<open>Writing through the pointer stored under a key: nothing happens when the key is absent.\<close>

definition mmodify :: "'k \<Rightarrow> ('v \<Rightarrow> 'v) \<Rightarrow> ('k, 'v) gomap \<Rightarrow> ('k, 'v) gomap" where
  "mmodify k f m = map (\<lambda>(k', v). (k', if k' = k then f v else v)) m"

text \<open>Visiting every value of a map of pointers and updating it in place.\<close>

definition mmap :: "('v \<Rightarrow> 'w) \<Rightarrow> ('k, 'v) gomap \<Rightarrow> ('k, 'w) gomap" where
  "mmap f m = map (\<lambda>(k, v). (k, f v)) m"

lemma mwf_update [simp]: "mwf m \<Longrightarrow> mwf (AList.update k v m)"
  by (simp add: mwf_def distinct_update)

lemma mwf_delete [simp]: "mwf m \<Longrightarrow> mwf (AList.delete k m)"
  by (simp add: mwf_def distinct_delete)

lemma mwf_Nil [simp]: "mwf []"
  by (simp add: mwf_def)

lemma map_fst_mmodify [simp]: "map fst (mmodify k f m) = map fst m"
  by (induction m) (auto simp: mmodify_def)

lemma map_fst_mmap [simp]: "map fst (mmap f m) = map fst m"
  by (induction m) (auto simp: mmap_def)

lemma mwf_mmodify [simp]: "mwf (mmodify k f m) = mwf m"
  by (simp add: mwf_def)

lemma mwf_mmap [simp]: "mwf (mmap f m) = mwf m"
  by (simp add: mwf_def)

lemma map_of_mmodify [simp]:
  "map_of (mmodify k f m) k' = (if k' = k then map_option f (map_of m k') else map_of m k')"
  by (induction m) (auto simp: mmodify_def)

lemma map_of_mmap [simp]: "map_of (mmap f m) k = map_option f (map_of m k)"
  by (induction m) (auto simp: mmap_def)

lemma map_of_AList_update [simp]:
  "map_of (AList.update k v m) k' = (if k' = k then Some v else map_of m k')"
  by (simp add: update_conv')

lemma map_of_AList_delete [simp]:
  "map_of (AList.delete k m) k' = (if k' = k then None else map_of m k')"
  by (simp add: delete_conv')

lemma length_AList_delete_less:
  "map_of m k \<noteq> None \<Longrightarrow> length (AList.delete k m) < length m"
proof (induction m)
  case (Cons p m)
  have "length (AList.delete k m) \<le> length m"
    by (simp add: AList.delete_eq)
  with Cons show ?case by (cases p) auto
qed simp

lemma mwf_map_of: "mwf m \<Longrightarrow> (k, v) \<in> set m \<Longrightarrow> map_of m k = Some v"
  by (simp add: mwf_def)

lemma update_fresh: "k \<notin> fst ` set m \<Longrightarrow> AList.update k v m = m @ [(k, v)]"
  by (induction m) auto

lemma keys_update [simp]: "fst ` set (AList.update k v m) = insert k (fst ` set m)"
  by (induction m) auto

lemma keys_mmodify [simp]: "fst ` set (mmodify k f m) = fst ` set m"
  by (force simp: mmodify_def)

lemma mmodify_append: "mmodify k f (m @ m') = mmodify k f m @ mmodify k f m'"
  by (simp add: mmodify_def)

lemma mmodify_absent: "k \<notin> fst ` set m \<Longrightarrow> mmodify k f m = m"
  by (force simp: mmodify_def intro: map_idI)

lemma update_eq_mmodify:
  "mwf m \<Longrightarrow> map_of m k = Some v \<Longrightarrow> AList.update k (f v) m = mmodify k f m"
proof (induction m)
  case (Cons p m)
  then show ?case
    using mmodify_absent [of k m f] by (cases p) (auto simp: mwf_def mmodify_def)
qed simp

lemma set_mmodify: "set (mmodify k f m) \<subseteq> set m \<union> {(k, f v) | v. (k, v) \<in> set m}"
  by (induction m) (auto simp: mmodify_def)

lemma sort_key_map_fst:
  assumes "\<And>p. fst (f p) = fst p"
  shows "sort_key fst (map f m) = map f (sort_key fst m)"
proof -
  have "insort_key fst (f x) (map f xs) = map f (insort_key fst x xs)" for x xs
    using assms by (induction xs) auto
  then show ?thesis by (induction m) auto
qed

lemma sort_key_fst_unique:
  assumes "mwf m" "set l = set m" "sorted_wrt (<) (map fst l)"
  shows "sort_key fst m = (l :: ('k :: linorder \<times> 'v) list)"
proof (rule map_sorted_distinct_set_unique [where f = fst])
  show "inj_on fst (set (sort_key fst m) \<union> set l)"
    using assms(1,2) by (simp add: mwf_def distinct_map)
  show "distinct (map fst (sort_key fst m))"
    using assms(1) by (simp add: mwf_def distinct_map)
qed (use assms strict_sorted_iff in auto)

lemma map_of_sort_key: "mwf m \<Longrightarrow> map_of (sort_key fst m) = map_of m"
  by (rule map_of_inject_set [THEN iffD2]) (auto simp: mwf_def distinct_map)

lemma strict_sorted_sort_key: "mwf m \<Longrightarrow> sorted_wrt (<) (map fst (sort_key fst m))"
  by (simp add: mwf_def distinct_map strict_sorted_iff)

section \<open>Loops over slices\<close>

text \<open>
  \<open>updFirst p f xs\<close> is a loop that updates the first element with \<open>p\<close> and breaks;
  \<open>delFirst p xs\<close> removes it, \<open>append(xs[:i], xs[i+1:]...)\<close>.
\<close>

fun updFirst :: "('a \<Rightarrow> bool) \<Rightarrow> ('a \<Rightarrow> 'a) \<Rightarrow> 'a list \<Rightarrow> 'a list" where
  "updFirst p f [] = []"
| "updFirst p f (x # xs) = (if p x then f x # xs else x # updFirst p f xs)"

fun delFirst :: "('a \<Rightarrow> bool) \<Rightarrow> 'a list \<Rightarrow> 'a list" where
  "delFirst p [] = []"
| "delFirst p (x # xs) = (if p x then xs else x # delFirst p xs)"

text \<open>The last element with \<open>p\<close>: a loop from \<open>len - 1\<close> down to 0.\<close>

definition findLast :: "('a \<Rightarrow> bool) \<Rightarrow> 'a list \<Rightarrow> 'a option" where
  "findLast p xs = find p (rev xs)"

lemma length_updFirst [simp]: "length (updFirst p f xs) = length xs"
  by (induction xs) auto

lemma updFirst_id: "\<forall>x \<in> set xs. \<not> p x \<Longrightarrow> updFirst p f xs = xs"
  by (induction xs) auto

lemma map_updFirst:
  "(\<And>x. p x \<Longrightarrow> g (f x) = g x) \<Longrightarrow> map g (updFirst p f xs) = map g xs"
  by (induction xs) auto

lemma set_updFirst: "set (updFirst p f xs) \<subseteq> set xs \<union> f ` set xs"
  by (induction xs) auto

lemma set_delFirst: "set (delFirst p xs) \<subseteq> set xs"
  by (induction xs) auto

lemma distinct_map_delFirst: "distinct (map g xs) \<Longrightarrow> distinct (map g (delFirst p xs))"
proof (induction xs)
  case (Cons x xs)
  have "g x \<notin> g ` set (delFirst p xs)"
    using Cons.prems set_delFirst [of p xs] by auto
  with Cons show ?case by auto
qed simp

lemma find_Some_iff_bex: "(\<exists>x. find p xs = Some x) \<longleftrightarrow> (\<exists>x \<in> set xs. p x)"
  by (induction xs) auto

lemma find_SomeD: "find p xs = Some x \<Longrightarrow> x \<in> set xs \<and> p x"
  by (induction xs) (auto split: if_splits)

lemma find_None_iff_ball: "find p xs = None \<longleftrightarrow> (\<forall>x \<in> set xs. \<not> p x)"
  by (induction xs) auto

lemma findLast_SomeD: "findLast p xs = Some x \<Longrightarrow> x \<in> set xs \<and> p x"
  unfolding findLast_def using find_SomeD by fastforce

lemma findLast_None_iff: "findLast p xs = None \<longleftrightarrow> (\<forall>x \<in> set xs. \<not> p x)"
  by (simp add: findLast_def find_None_iff_ball)

text \<open>A loop over a slice whose body changes a state and may return an error, which ends the loop.\<close>

fun loopE :: "('a \<Rightarrow> 's \<Rightarrow> 's \<times> err option) \<Rightarrow> 'a list \<Rightarrow> 's \<Rightarrow> 's \<times> err option" where
  "loopE f [] s = (s, None)"
| "loopE f (x # xs) s = (case f x s of (s', None) \<Rightarrow> loopE f xs s' | (s', Some e) \<Rightarrow> (s', Some e))"

lemma loopE_inv:
  assumes "\<And>x s. x \<in> set xs \<Longrightarrow> P s \<Longrightarrow> P (fst (f x s))" "P s"
  shows "P (fst (loopE f xs s))"
  using assms
proof (induction xs arbitrary: s)
  case (Cons x xs)
  then have "P (fst (f x s))" by simp
  with Cons show ?case by (cases "f x s"; cases "snd (f x s)") auto
qed simp

lemma loopE_append:
  "loopE f (xs @ ys) s = (case loopE f xs s of (s', None) \<Rightarrow> loopE f ys s' | r \<Rightarrow> r)"
  by (induction xs arbitrary: s) (auto split: prod.splits option.splits)

lemma loopE_ok:
  assumes "\<And>x s. x \<in> set xs \<Longrightarrow> P s \<Longrightarrow> snd (f x s) = None \<and> P (fst (f x s))" "P s"
  shows "snd (loopE f xs s) = None \<and> P (fst (loopE f xs s))"
  using assms
proof (induction xs arbitrary: s)
  case (Cons x xs)
  then have "snd (f x s) = None" "P (fst (f x s))" by auto
  with Cons show ?case by (cases "f x s") auto
qed simp

section \<open>Binary search\<close>

text \<open>\<open>sort.Search(n, f)\<close>: the loop keeps \<open>f (i - 1) = false\<close> and \<open>f j = true\<close>.\<close>

function searchLoop :: "(nat \<Rightarrow> bool) \<Rightarrow> nat \<Rightarrow> nat \<Rightarrow> nat" where
  "searchLoop f i j =
     (if i < j then
        let h = (i + j) div 2 in
        if \<not> f h then searchLoop f (h + 1) j else searchLoop f i h
      else i)"
  by pat_completeness auto
termination
  by (relation "measure (\<lambda>(f, i, j). j - i)") auto

declare searchLoop.simps [simp del]

definition sortSearch :: "nat \<Rightarrow> (nat \<Rightarrow> bool) \<Rightarrow> nat" where
  "sortSearch n f = searchLoop f 0 n"

definition upclosed :: "nat \<Rightarrow> (nat \<Rightarrow> bool) \<Rightarrow> bool" where
  "upclosed n f \<longleftrightarrow> (\<forall>a b. a \<le> b \<longrightarrow> b < n \<longrightarrow> f a \<longrightarrow> f b)"

definition searchInv :: "nat \<Rightarrow> (nat \<Rightarrow> bool) \<Rightarrow> nat \<Rightarrow> nat \<Rightarrow> bool" where
  "searchInv n f i j \<longleftrightarrow> i \<le> j \<and> j \<le> n \<and> (\<forall>k < i. \<not> f k) \<and> (\<forall>k. j \<le> k \<and> k < n \<longrightarrow> f k)"

lemma searchInv_left:
  "upclosed n f \<Longrightarrow> searchInv n f i j \<Longrightarrow> i \<le> h \<Longrightarrow> h < j \<Longrightarrow> f h \<Longrightarrow> searchInv n f i h"
  unfolding searchInv_def upclosed_def by (meson le_trans less_imp_le)

lemma searchInv_right:
  assumes "upclosed n f" "searchInv n f i j" "h < j" "\<not> f h"
  shows "searchInv n f (h + 1) j"
proof -
  have "h < n" using assms(2,3) unfolding searchInv_def by simp
  then have "\<not> f k" if "k < h + 1" for k
    using assms(1,4) that unfolding upclosed_def by (metis Suc_eq_plus1 less_Suc_eq_le)
  then show ?thesis using assms(2,3) unfolding searchInv_def by simp
qed

lemma searchLoop_correct:
  "upclosed n f \<Longrightarrow> searchInv n f i j \<Longrightarrow> searchInv n f (searchLoop f i j) (searchLoop f i j)"
proof (induction f i j rule: searchLoop.induct)
  case (1 f i j)
  define h where "h = (i + j) div 2"
  have step: "searchLoop f i j =
      (if i < j then if \<not> f h then searchLoop f (h + 1) j else searchLoop f i h else i)"
    unfolding h_def by (subst searchLoop.simps) (simp add: Let_def)
  consider "\<not> i < j" | "i < j" "f h" | "i < j" "\<not> f h" by blast
  then show ?case
  proof cases
    case 1
    then have "searchLoop f i j = i" by (simp only: step) simp
    moreover have "i = j" using 1 "1.prems"(2) by (simp add: searchInv_def)
    ultimately show ?thesis using "1.prems"(2) by simp
  next
    case 2
    then have "i \<le> h" "h < j" by (auto simp: h_def)
    then have "searchInv n f i h" using searchInv_left "1.prems" 2 by blast
    then show ?thesis using "1.IH"(2) [OF 2(1) h_def] 2 "1.prems"(1) by (simp only: step) simp
  next
    case 3
    then have "h < j" by (auto simp: h_def)
    then have "searchInv n f (h + 1) j" using searchInv_right "1.prems" 3 by blast
    then show ?thesis using "1.IH"(1) [OF 3(1) h_def] 3 "1.prems"(1) by (simp only: step) simp
  qed
qed

lemma sortSearch_inv: "upclosed n f \<Longrightarrow> searchInv n f (sortSearch n f) (sortSearch n f)"
  unfolding sortSearch_def by (rule searchLoop_correct) (auto simp: searchInv_def)

lemma sortSearch_le: "upclosed n f \<Longrightarrow> sortSearch n f \<le> n"
  using sortSearch_inv unfolding searchInv_def by blast

lemma sortSearch_before: "upclosed n f \<Longrightarrow> k < sortSearch n f \<Longrightarrow> \<not> f k"
  using sortSearch_inv unfolding searchInv_def by blast

lemma sortSearch_from: "upclosed n f \<Longrightarrow> sortSearch n f \<le> k \<Longrightarrow> k < n \<Longrightarrow> f k"
  using sortSearch_inv unfolding searchInv_def by blast

section \<open>Interfaces\<close>

text \<open>
  A pair of a marshal and an unmarshal function, with the values \<open>ok\<close> that survive the trip.
  The combinators for slices, optional pointers and maps are proved once.
\<close>

locale marshalling =
  fixes marshal :: "'a \<Rightarrow> 'p"
    and unmarshal :: "'p \<Rightarrow> 'a"
    and ok :: "'a \<Rightarrow> bool"
  assumes roundtrip: "ok x \<Longrightarrow> unmarshal (marshal x) = x"
begin

lemma list_roundtrip [simp]: "list_all ok xs \<Longrightarrow> map unmarshal (map marshal xs) = xs"
  by (induction xs) (auto simp: roundtrip)

lemma list_roundtrip_o [simp]: "list_all ok xs \<Longrightarrow> map (unmarshal \<circ> marshal) xs = xs"
  by (induction xs) (auto simp: roundtrip)

lemma option_roundtrip [simp]:
  "pred_option ok x \<Longrightarrow> map_option unmarshal (map_option marshal x) = x"
  by (cases x) (auto simp: roundtrip)

lemma mmap_roundtrip [simp]:
  "list_all (ok \<circ> snd) m \<Longrightarrow> mmap unmarshal (mmap marshal m) = m"
  by (induction m) (auto simp: mmap_def roundtrip)

lemma inj_on_marshal: "inj_on marshal {x. ok x}"
  by (metis inj_onI mem_Collect_eq roundtrip)

end

text \<open>
  A machine that executes commands one after the other and keeps an invariant, as the replicated state
  machine does when it replays its log. The invariant may depend on the number of commands executed so
  far: 64 bit counters are fresh only as long as fewer than \<open>limit\<close> commands have run.
  A command may be restricted by a precondition on the state it is executed in.
\<close>

fun allowed :: "('cmd \<Rightarrow> 's \<Rightarrow> 's) \<Rightarrow> ('s \<Rightarrow> 'cmd \<Rightarrow> bool) \<Rightarrow> 'cmd list \<Rightarrow> 's \<Rightarrow> bool" where
  "allowed exec pre [] s \<longleftrightarrow> True"
| "allowed exec pre (c # cs) s \<longleftrightarrow> pre s c \<and> allowed exec pre cs (exec c s)"

lemma allowed_always [simp]: "allowed exec (\<lambda>_ _. True) cs s"
  by (induction cs arbitrary: s) auto

lemma allowed_take: "allowed exec pre cs s \<Longrightarrow> allowed exec pre (take k cs) s"
  by (induction cs arbitrary: k s) (auto simp: take_Cons split: nat.split)

locale invariant_system =
  fixes exec :: "'cmd \<Rightarrow> 's \<Rightarrow> 's"
    and inv :: "nat \<Rightarrow> 's \<Rightarrow> bool"
    and pre :: "'s \<Rightarrow> 'cmd \<Rightarrow> bool"
    and limit :: nat
  assumes exec_inv: "inv n s \<Longrightarrow> pre s c \<Longrightarrow> n < limit \<Longrightarrow> inv (Suc n) (exec c s)"
begin

lemma run_inv: "inv n s \<Longrightarrow> allowed exec pre cs s \<Longrightarrow> n + length cs \<le> limit \<Longrightarrow> inv (n + length cs) (fold exec cs s)"
proof (induction cs arbitrary: s n)
  case (Cons c cs)
  then show ?case using exec_inv [of n s c] Cons.IH [of "Suc n" "exec c s"] by simp
qed simp

lemma run_prefix_inv:
  "inv n s \<Longrightarrow> allowed exec pre cs s \<Longrightarrow> n + length cs \<le> limit \<Longrightarrow> inv (n + length (take k cs)) (fold exec (take k cs) s)"
  by (rule run_inv) (auto intro: allowed_take)

end

end
