(* ===== verification/MetaTypes.thy ===== *)
theory MetaTypes
  imports Prelude
begin

text \<open>
  The metadata of the cluster, \<open>src/lib/util/lifted/influx/meta\<close>: one record per Go struct, with the
  fields of the struct under a prefix that names it (\<open>sg_EndTime\<close> is \<open>ShardGroupInfo.EndTime\<close>), up
  to \<open>Data\<close>, the whole state that the meta servers replicate. Pointers that the code tests for nil
  are options. Locks, caches of names and the SQLite handle are left out. The commands kept in
  the operation log carry a payload of type \<open>'c\<close>, the encoded protobuf extension.
\<close>

section \<open>Enumerations\<close>

text \<open>\<open>serf.MemberStatus\<close>, \<open>PtStatus\<close>, \<open>RGStatus\<close>, \<open>Role\<close>, tiers and engine types are numbers on the
  wire and in memory; their names are abbreviations.\<close>

abbreviation (input) StatusNone :: int where "StatusNone \<equiv> 0"
abbreviation (input) StatusAlive :: int where "StatusAlive \<equiv> 1"
abbreviation (input) StatusLeaving :: int where "StatusLeaving \<equiv> 2"
abbreviation (input) StatusLeft :: int where "StatusLeft \<equiv> 3"
abbreviation (input) StatusFailed :: int where "StatusFailed \<equiv> 4"

abbreviation (input) Online :: nat where "Online \<equiv> 0"
abbreviation (input) PrepareOffload :: nat where "PrepareOffload \<equiv> 1"
abbreviation (input) PrepareAssign :: nat where "PrepareAssign \<equiv> 2"
abbreviation (input) Offline :: nat where "Offline \<equiv> 3"

abbreviation (input) Health :: nat where "Health \<equiv> 0"
abbreviation (input) SubHealth :: nat where "SubHealth \<equiv> 1"
abbreviation (input) UnFull :: nat where "UnFull \<equiv> 2"

abbreviation (input) Master :: nat where "Master \<equiv> 0"
abbreviation (input) Slave :: nat where "Slave \<equiv> 1"
abbreviation (input) Catcher :: nat where "Catcher \<equiv> 2"

abbreviation (input) TierBegin :: nat where "TierBegin \<equiv> 0"
abbreviation (input) Hot :: nat where "Hot \<equiv> 1"
abbreviation (input) Warm :: nat where "Warm \<equiv> 2"
abbreviation (input) Cold :: nat where "Cold \<equiv> 3"
abbreviation (input) Moving :: nat where "Moving \<equiv> 4"

abbreviation (input) TSSTORE :: nat where "TSSTORE \<equiv> 0"
abbreviation (input) COLUMNSTORE :: nat where "COLUMNSTORE \<equiv> 1"
abbreviation (input) ENGINETYPEEND :: nat where "ENGINETYPEEND \<equiv> 2"

abbreviation (input) Normal :: nat where "Normal \<equiv> 0"
abbreviation (input) Segregating :: nat where "Segregating \<equiv> 1"
abbreviation (input) Segregated :: nat where "Segregated \<equiv> 2"

abbreviation (input) HASH :: string where "HASH \<equiv> ''hash''"
abbreviation (input) RANGE :: string where "RANGE \<equiv> ''range''"

datatype HaPolicy = WriteAvailableFirst | SharedStorage | Replication

datatype RepDisPolicy = NodeHard | AzHard

section \<open>Nodes and partitions\<close>

record NodeInfo =
  ni_ID :: nat
  ni_Host :: string
  ni_RPCAddr :: string
  ni_TCPHost :: string
  ni_Status :: int
  ni_LTime :: nat
  ni_GossipAddr :: string
  ni_SegregateStatus :: nat
  ni_Role :: string

record DataNode = NodeInfo +
  dn_ConnID :: nat
  dn_AliveConnID :: nat
  dn_Index :: nat
  dn_Az :: string

record PtInfo =
  pt_Owner :: nat
  pt_Status :: nat
  pt_PtId :: nat
  pt_Ver :: nat
  pt_RGID :: nat

record Peer =
  pe_ID :: nat
  pe_PtRole :: nat

record ReplicaGroup =
  rg_ID :: nat
  rg_MasterPtID :: nat
  rg_Peers :: "Peer list"
  rg_Status :: nat
  rg_Term :: nat

section \<open>Shards and indexes\<close>

record ShardInfo =
  sh_ID :: nat
  sh_Owners :: "nat list"
  sh_Min :: string
  sh_Max :: string
  sh_Tier :: nat
  sh_IndexID :: nat
  sh_DownSampleID :: nat
  sh_DownSampleLevel :: int
  sh_ReadOnly :: bool
  sh_MarkDelete :: bool

record ShardGroupInfo =
  sg_ID :: nat
  sg_StartTime :: time
  sg_EndTime :: time
  sg_DeletedAt :: time
  sg_Shards :: "ShardInfo list"
  sg_TruncatedAt :: time
  sg_EngineType :: nat
  sg_Version :: nat

record IndexInfo =
  ii_ID :: nat
  ii_Owners :: "nat list"
  ii_MarkDelete :: bool

record IndexGroupInfo =
  ig_ID :: nat
  ig_StartTime :: time
  ig_EndTime :: time
  ig_Indexes :: "IndexInfo list"
  ig_DeletedAt :: time
  ig_EngineType :: nat

section \<open>Measurements\<close>

record ShardKeyInfo =
  ski_ShardKey :: "string list"
  ski_Type :: string
  ski_ShardGroup :: nat

record SchemaVal =
  sv_Typ :: int
  sv_EndTime :: int

record IndexOption =
  io_Tokens :: string
  io_Tokenizers :: string
  io_TimeClusterDuration :: duration

record IndexRelation =
  ir_Rid :: nat
  ir_Oids :: "nat list"
  ir_IndexNames :: "string list"
  ir_IndexList :: "string list list"
  ir_IndexOptions :: "IndexOption list list"

record ColStoreInfo =
  cs_PrimaryKey :: "string list"
  cs_SortKey :: "string list"
  cs_PropertyKey :: "string list"
  cs_PropertyValue :: "string list"
  cs_TimeClusterDuration :: duration
  cs_CompactionType :: int

record Options =
  opt_CaseInSensitive :: bool
  opt_AppendMeta :: bool
  opt_WriteThreshold :: int
  opt_ReadThreshold :: int
  opt_StorageCapacity :: int
  opt_SplitChar :: string
  opt_TagsSplit :: string
  opt_Ttl :: int

record ObsOptions =
  obs_Enabled :: bool
  obs_BucketName :: string
  obs_Endpoint :: string
  obs_Ak :: string
  obs_Sk :: string
  obs_BasePath :: string

record MeasurementInfo =
  ms_Name :: string
  ms_originName :: string
  ms_ShardKeys :: "ShardKeyInfo list"
  ms_ShardIdexes :: "(nat, nat list) gomap option"
  ms_InitNumOfShards :: int
  ms_Schema :: "(string, SchemaVal) gomap"
  ms_IndexRelation :: IndexRelation
  ms_ColStoreInfo :: "ColStoreInfo option"
  ms_MarkDeleted :: bool
  ms_EngineType :: nat
  ms_Options :: "Options option"
  ms_ObsOptions :: "ObsOptions option"
  ms_tagKeysTotal :: int
  ms_ID :: nat

record MeasurementVer =
  mv_NameWithVersion :: string
  mv_Version :: nat

section \<open>Retention policies and databases\<close>

record SubscriptionInfo =
  sub_Name :: string
  sub_Mode :: string
  sub_Destinations :: "string list"

record DownSamplePolicy =
  dsp_SampleInterval :: duration
  dsp_TimeInterval :: duration
  dsp_WaterMark :: duration

record DownSampleOperators =
  dso_AggOps :: "string list"
  dso_DataType :: int

record DownSamplePolicyInfo =
  dpi_TaskID :: nat
  dpi_Calls :: "DownSampleOperators list"
  dpi_DownSamplePolicies :: "DownSamplePolicy list"
  dpi_Duration :: duration

record RetentionPolicyInfo =
  rp_Name :: string
  rp_ReplicaN :: int
  rp_Duration :: duration
  rp_ShardGroupDuration :: duration
  rp_HotDuration :: duration
  rp_WarmDuration :: duration
  rp_IndexGroupDuration :: duration
  rp_IndexGroups :: "IndexGroupInfo list"
  rp_Measurements :: "(string, MeasurementInfo) gomap"
  rp_MstVersions :: "(string, MeasurementVer) gomap"
  rp_ShardGroups :: "ShardGroupInfo list"
  rp_Subscriptions :: "SubscriptionInfo list"
  rp_DownSamplePolicyInfo :: "DownSamplePolicyInfo option"
  rp_MarkDeleted :: bool

record ContinuousQueryInfo =
  cq_Name :: string
  cq_Query :: string
  cq_LastRunTime :: time

record DatabaseInfo =
  db_Name :: string
  db_DefaultRetentionPolicy :: string
  db_RetentionPolicies :: "(string, RetentionPolicyInfo) gomap"
  db_MarkDeleted :: bool
  db_ShardKey :: ShardKeyInfo
  db_EnableTagArray :: bool
  db_ReplicaN :: int
  db_ContinuousQueries :: "(string, ContinuousQueryInfo) gomap"
  db_Options :: "ObsOptions option"

section \<open>Streams, users, migration events\<close>

record StreamMeasurementInfo =
  smi_Name :: string
  smi_Database :: string
  smi_RetentionPolicy :: string

record StreamCall =
  sc_Call :: string
  sc_Field :: string
  sc_Alias :: string

record StreamInfo =
  st_Name :: string
  st_ID :: nat
  st_SrcMst :: StreamMeasurementInfo
  st_DesMst :: StreamMeasurementInfo
  st_Interval :: duration
  st_Dims :: "string list"
  st_Calls :: "StreamCall list"
  st_Delay :: duration

record UserInfo =
  u_Name :: string
  u_Hash :: string
  u_Admin :: bool
  u_Rwuser :: bool
  u_Privileges :: "(string, int) gomap"

record ShardIdentifier =
  si_ShardID :: nat
  si_ShardGroupID :: nat
  si_Policy :: string
  si_OwnerDb :: string
  si_OwnerPt :: nat
  si_ShardType :: string
  si_DownSampleLevel :: int
  si_DownSampleID :: nat
  si_ReadOnly :: bool
  si_EngineType :: nat

record DurationDescriptor =
  dd_Tier :: nat
  dd_TierDuration :: duration
  dd_Duration :: duration

record ShardDurationInfo =
  sdi_Ident :: ShardIdentifier
  sdi_DurationInfo :: DurationDescriptor

record DatabaseBriefInfo =
  dbi_Name :: string
  dbi_EnableTagArray :: bool
  dbi_Replicas :: int

record DbPtInfo =
  dp_Db :: string
  dp_Pti :: PtInfo
  dp_Shards :: "(nat, ShardDurationInfo) gomap"
  dp_DBBriefInfo :: DatabaseBriefInfo

record MigrateEventInfo =
  me_eventId :: string
  me_eventType :: int
  me_opId :: nat
  me_pt :: DbPtInfo
  me_currState :: int
  me_preState :: int
  me_src :: nat
  me_dest :: nat
  me_aliveConnId :: nat

section \<open>The whole state\<close>

text \<open>A command of the replicated log: its type (a number of \<open>meta.proto\<close>) and its payload.\<close>

datatype 'c Command = Command (cmd_type: nat) (cmd_payload: 'c)

record 'c Op =
  op_com :: "'c Command"
  op_nextOpIndex :: nat
  op_cacheBytes :: string

record 'c Data =
  Term :: nat
  Index :: nat
  ClusterID :: nat
  ClusterPtNum :: nat
  PtNumPerNode :: nat
  NumOfShards :: int
  MetaNodes :: "NodeInfo list"
  DataNodes :: "DataNode list"
  SqlNodes :: "DataNode list"
  PtView :: "(string, PtInfo list) gomap"
  ReplicaGroups :: "(string, ReplicaGroup list) gomap"
  Databases :: "(string, DatabaseInfo) gomap"
  Streams :: "(string, StreamInfo) gomap"
  Users :: "UserInfo list"
  MigrateEvents :: "(string, MigrateEventInfo) gomap"
  QueryIDInit :: "(string, nat) gomap"
  AdminUserExists :: bool
  TakeOverEnabled :: bool
  BalancerEnabled :: bool
  ExpandShardsEnable :: bool
  MaxNodeID :: nat
  MaxShardGroupID :: nat
  MaxShardID :: nat
  MaxMstID :: nat
  MaxIndexGroupID :: nat
  MaxIndexID :: nat
  MaxEventOpId :: nat
  MaxDownSampleID :: nat
  MaxStreamID :: nat
  MaxConnID :: nat
  MaxSubscriptionID :: nat
  MaxCQChangeID :: nat
  OpsMap :: "(nat, 'c Op) gomap option"
  OpsMapMinIndex :: nat
  OpsMapMaxIndex :: nat
  OpsToMarshalIndex :: nat

text \<open>The zero value \<open>&Data{}\<close>.\<close>

definition zeroData :: "'c Data" where
  "zeroData =
     \<lparr>Term = 0, Index = 0, ClusterID = 0, ClusterPtNum = 0, PtNumPerNode = 0, NumOfShards = 0,
      MetaNodes = [], DataNodes = [], SqlNodes = [], PtView = [], ReplicaGroups = [], Databases = [],
      Streams = [], Users = [], MigrateEvents = [], QueryIDInit = [], AdminUserExists = False,
      TakeOverEnabled = False, BalancerEnabled = False, ExpandShardsEnable = False, MaxNodeID = 0,
      MaxShardGroupID = 0, MaxShardID = 0, MaxMstID = 0, MaxIndexGroupID = 0, MaxIndexID = 0,
      MaxEventOpId = 0, MaxDownSampleID = 0, MaxStreamID = 0, MaxConnID = 0, MaxSubscriptionID = 0,
      MaxCQChangeID = 0, OpsMap = None, OpsMapMinIndex = 0, OpsMapMaxIndex = 0, OpsToMarshalIndex = 0\<rparr>"

text \<open>
  What the code reads from its configuration and from packages outside the repository: the high
  availability policy, the replica distribution policy, the schema-cleaning and log-keeper switches,
  the largest time of the InfluxDB models package, the xxhash function of the shard keys and the
  pseudo-random permutations of \<open>rand.Perm\<close> (a seed and a length).
\<close>

record Env =
  env_haPolicy :: HaPolicy
  env_repDisPolicy :: RepDisPolicy
  env_SchemaCleanEn :: bool
  env_logKeeper :: bool
  env_MaxNanoTime :: int
  env_HashID :: "string \<Rightarrow> nat"
  env_Perm :: "nat \<Rightarrow> nat \<Rightarrow> nat list"

end
