(* ===== verification/MetaOps.thy ===== *)
theory MetaOps
  imports MetaTypes
begin

text \<open>
  The operation log of \<open>meta/data.go\<close>: the replicated commands that clients need are kept in
  \<open>Data.OpsMap\<close>, a map from raft index to command in which every entry names its successor
  (\<open>nextOpIndex\<close>, 0 at the end), together with the smallest and the largest index and the first
  entry whose encoding is not cached. The theory models the operations on it, shows that they
  keep the linked structure, and that \<open>GetOps\<close> hands a client exactly the commands it lacks.
  \<open>proto.Marshal\<close> is the parameter \<open>pm\<close> (None: the encoder returns an error).
\<close>

section \<open>Operations\<close>

definition OPMAPLIMITCAP :: nat where
  "OPMAPLIMITCAP = 30"

definition SetOps :: "'c Data option \<Rightarrow> 'c Data \<Rightarrow> 'c Data" where
  "SetOps o' data =
     (case o' of
        None \<Rightarrow> data
      | Some d \<Rightarrow> data\<lparr>OpsMap := OpsMap d, OpsMapMinIndex := OpsMapMinIndex d,
                   OpsMapMaxIndex := OpsMapMaxIndex d, OpsToMarshalIndex := OpsToMarshalIndex d\<rparr>)"

definition minAliveStep :: "DataNode \<Rightarrow> nat \<Rightarrow> nat" where
  "minAliveStep n ret = (if dn_Index n < ret \<and> ni_Status n = StatusAlive then dn_Index n else ret)"

definition GetMinAliveNodeTmpIndex :: "'c Data \<Rightarrow> nat" where
  "GetMinAliveNodeTmpIndex data = fold minAliveStep (DataNodes data) (fold minAliveStep (SqlNodes data) maxU64)"

text \<open>The loop of \<open>ClearOpsMapV2\<close>: the remaining map and the last \<open>next\<close>; None is a nil dereference.\<close>

function clearLoop ::
  "(nat, 'c Op) gomap \<Rightarrow> nat \<Rightarrow> nat \<Rightarrow> nat \<Rightarrow> ((nat, 'c Op) gomap \<times> nat) option" where
  "clearLoop m start next mn =
     (if start < mn \<and> start \<noteq> 0 then
        case map_of m start of
          None \<Rightarrow> None
        | Some tmpOp \<Rightarrow> clearLoop (AList.delete start m) (op_nextOpIndex tmpOp) (op_nextOpIndex tmpOp) mn
      else Some (m, next))"
  by pat_completeness auto
termination
  by (relation "measure (\<lambda>(m, start, next, mn). length m)") (auto intro: length_AList_delete_less)

declare clearLoop.simps [simp del]

definition ClearOpsMapV2 :: "nat \<Rightarrow> 'c Data \<Rightarrow> 'c Data \<times> err option" where
  "ClearOpsMapV2 minAlive data =
     (case OpsMap data of
        None \<Rightarrow> (data, None)
      | Some m \<Rightarrow>
          if length m \<le> OPMAPLIMITCAP then (data, None)
          else if minAlive = maxU64 \<or> OpsMapMinIndex data \<ge> minAlive then (data, None)
          else case clearLoop m (OpsMapMinIndex data) 0 minAlive of
                 None \<Rightarrow> (data, Some nil_panic)
               | Some (m', next) \<Rightarrow>
                   if next = 0 then
                     (data\<lparr>OpsMap := Some m', OpsMapMinIndex := maxU64, OpsMapMaxIndex := 0,
                        OpsToMarshalIndex := 0\<rparr>, None)
                   else
                     (data\<lparr>OpsMap := Some m', OpsMapMinIndex := next,
                        OpsToMarshalIndex :=
                          (if OpsToMarshalIndex data < next then next else OpsToMarshalIndex data)\<rparr>, None))"

text \<open>
  The loop of \<open>UpdateOpsMapCacheBytes\<close> from index \<open>i\<close>. It follows the \<open>nextOpIndex\<close> links, which a
  damaged map could close into a cycle, so it is a partial function: None means it never ends.
\<close>

partial_function (option) cacheLoop ::
  "('c Command \<Rightarrow> string option) \<Rightarrow> nat \<Rightarrow> (nat, 'c Op) gomap \<Rightarrow> nat \<Rightarrow> nat
     \<Rightarrow> ((nat, 'c Op) gomap \<times> nat \<times> err option) option" where
  "cacheLoop pm mx m tm i =
     (if i \<le> mx then
        case map_of m i of
          None \<Rightarrow> Some (m, tm, Some (Errno ''OpsMapInValid''))
        | Some tmpOp \<Rightarrow>
            (case pm (op_com tmpOp) of
               None \<Rightarrow> Some (AList.update i (tmpOp\<lparr>op_cacheBytes := []\<rparr>) m, tm, Some (Errno ''OpMarshalErr''))
             | Some b \<Rightarrow>
                 (let m' = AList.update i (tmpOp\<lparr>op_cacheBytes := b\<rparr>) m; i' = op_nextOpIndex tmpOp in
                  if i' = 0 then Some (m', i', None) else cacheLoop pm mx m' i' i'))
      else Some (m, tm, None))"

definition UpdateOpsMapCacheBytes ::
  "('c Command \<Rightarrow> string option) \<Rightarrow> 'c Data \<Rightarrow> ('c Data \<times> err option) option" where
  "UpdateOpsMapCacheBytes pm data =
     (case OpsMap data of
        None \<Rightarrow> Some (data, None)
      | Some m \<Rightarrow>
          if m = [] \<or> OpsToMarshalIndex data = 0 then Some (data, None)
          else map_option (\<lambda>(m', tm, e). (data\<lparr>OpsMap := Some m', OpsToMarshalIndex := tm\<rparr>, e))
                 (cacheLoop pm (OpsMapMaxIndex data) m (OpsToMarshalIndex data) (OpsToMarshalIndex data)))"

text \<open>The command types of \<open>commandUseForClient\<close>, by their numbers in \<open>meta.proto\<close>.\<close>

definition commandUseForClient :: "nat list" where
  "commandUseForClient =
     [3, 4, 5, 6, 7, 8, 9, 10, 21, 22, 13, 14, 15, 16, 18, 17, 24, 27, 29, 25, 96, 28, 31, 39, 49, 52,
      53, 50, 57, 58, 59, 62, 63, 64, 97, 67, 69, 70, 72, 74, 77, 78, 81, 82, 85, 86, 88, 90, 92, 93,
      94, 101]"

datatype GetOpsState = AllClear | NoClear

definition GetNextOp ::
  "('c Command \<Rightarrow> string option) \<Rightarrow> (nat, 'c Op) gomap \<Rightarrow> nat \<Rightarrow> err + (string \<times> nat)" where
  "GetNextOp pm m index =
     (case map_of m index of
        Some op \<Rightarrow>
          if op_cacheBytes op \<noteq> [] then Inr (op_cacheBytes op, op_nextOpIndex op)
          else (case pm (op_com op) of
                  None \<Rightarrow> Inl (Errno ''OpMarshalErr'')
                | Some str \<Rightarrow> Inr (str, op_nextOpIndex op))
      | None \<Rightarrow> Inl (Errno ''OpsMapInValid''))"

partial_function (option) GetOpsFromStartOp ::
  "('c Command \<Rightarrow> string option) \<Rightarrow> (nat, 'c Op) gomap \<Rightarrow> nat \<Rightarrow> string list
     \<Rightarrow> (string list \<times> GetOpsState) option" where
  "GetOpsFromStartOp pm m startOpIndex ops =
     (if startOpIndex \<noteq> 0 then
        case GetNextOp pm m startOpIndex of
          Inl e \<Rightarrow> Some ([], AllClear)
        | Inr (opStr, next) \<Rightarrow> GetOpsFromStartOp pm m next (ops @ [opStr])
      else Some (ops, NoClear))"

text \<open>
  The search for the first entry after \<open>oldIndex\<close>. The result is the entry's encoding and
  successor, or \<open>Inl True\<close> for the return on an encoding error and \<open>Inl False\<close> for a loop that
  ends without an entry.
\<close>

partial_function (option) findStartOp ::
  "('c Command \<Rightarrow> string option) \<Rightarrow> (nat, 'c Op) gomap \<Rightarrow> nat \<Rightarrow> nat \<Rightarrow> (bool + (string \<times> nat)) option" where
  "findStartOp pm m mx i =
     (if i \<le> mx then
        case GetNextOp pm m i of
          Inr r \<Rightarrow> Some (Inr r)
        | Inl e \<Rightarrow> if e = Errno ''OpMarshalErr'' then Some (Inl True)
                   else findStartOp pm m mx (u64 (i + 1))
      else Some (Inl False))"

definition GetOps ::
  "('c Command \<Rightarrow> string option) \<Rightarrow> nat \<Rightarrow> 'c Data \<Rightarrow> (string list \<times> GetOpsState) option" where
  "GetOps pm oldIndex data =
     (case OpsMap data of
        None \<Rightarrow> Some ([], AllClear)
      | Some m \<Rightarrow>
          if oldIndex < OpsMapMinIndex data \<and> OpsMapMinIndex data \<noteq> maxU64 then Some ([], AllClear)
          else if oldIndex \<ge> OpsMapMaxIndex data then Some ([], NoClear)
          else case map_of m oldIndex of
                 Some tmpOps \<Rightarrow> GetOpsFromStartOp pm m (op_nextOpIndex tmpOps) []
               | None \<Rightarrow>
                   (case findStartOp pm m (OpsMapMaxIndex data) (u64 (oldIndex + 1)) of
                      None \<Rightarrow> None
                    | Some (Inl True) \<Rightarrow> Some ([], AllClear)
                    | Some (Inl False) \<Rightarrow> GetOpsFromStartOp pm m 0 []
                    | Some (Inr (opStr, next)) \<Rightarrow> GetOpsFromStartOp pm m next [opStr]))"

definition AddCmdAsOpToOpMap :: "'c Command \<Rightarrow> nat \<Rightarrow> 'c Data \<Rightarrow> 'c Data \<times> err option" where
  "AddCmdAsOpToOpMap op newIndex data =
     (case OpsMap data of
        None \<Rightarrow> (data, None)
      | Some m \<Rightarrow>
          if cmd_type op \<notin> set commandUseForClient then (data, None)
          else if map_of m newIndex \<noteq> None then (data, None)
          else if m \<noteq> [] \<and> map_of m (OpsMapMaxIndex data) = None then (data, Some nil_panic)
          else
            let m1 = (if m \<noteq> [] then mmodify (OpsMapMaxIndex data) (\<lambda>p. p\<lparr>op_nextOpIndex := newIndex\<rparr>) m else m);
                m2 = AList.update newIndex \<lparr>op_com = op, op_nextOpIndex = 0, op_cacheBytes = []\<rparr> m1
            in (data\<lparr>OpsMap := Some m2,
                  OpsMapMinIndex := (if newIndex < OpsMapMinIndex data then newIndex else OpsMapMinIndex data),
                  OpsMapMaxIndex := (if newIndex > OpsMapMaxIndex data then newIndex else OpsMapMaxIndex data),
                  OpsToMarshalIndex := (if OpsToMarshalIndex data = 0 then newIndex else OpsToMarshalIndex data)\<rparr>,
                None))"

section \<open>The linked structure\<close>

definition opsOf :: "(nat, 'c Op) gomap \<Rightarrow> (nat \<times> 'c Op) list" where
  "opsOf m = sort_key fst m"

definition headKey :: "(nat \<times> 'v) list \<Rightarrow> nat" where
  "headKey l = (case l of [] \<Rightarrow> 0 | (k, _) # _ \<Rightarrow> k)"

definition lastKey :: "(nat \<times> 'v) list \<Rightarrow> nat" where
  "lastKey l = (if l = [] then 0 else fst (last l))"

fun linked :: "(nat \<times> 'c Op) list \<Rightarrow> bool" where
  "linked [] \<longleftrightarrow> True"
| "linked ((k, op) # l) \<longleftrightarrow> op_nextOpIndex op = headKey l \<and> linked l"

definition cacheOk :: "('c Command \<Rightarrow> string option) \<Rightarrow> 'c Op \<Rightarrow> bool" where
  "cacheOk pm op \<longleftrightarrow> op_cacheBytes op = [] \<or> pm (op_com op) = Some (op_cacheBytes op)"

definition opsMapOk :: "('c Command \<Rightarrow> string option) \<Rightarrow> (nat, 'c Op) gomap \<Rightarrow> bool" where
  "opsMapOk pm m \<longleftrightarrow>
     mwf m \<and> linked (opsOf m) \<and> (\<forall>(k, op) \<in> set m. 0 < k \<and> k < maxU64 \<and> cacheOk pm op)"

definition opsInv :: "('c Command \<Rightarrow> string option) \<Rightarrow> 'c Data \<Rightarrow> bool" where
  "opsInv pm data \<longleftrightarrow>
     (case OpsMap data of
        None \<Rightarrow> True
      | Some m \<Rightarrow>
          opsMapOk pm m
          \<and> OpsMapMinIndex data = (if m = [] then maxU64 else headKey (opsOf m))
          \<and> OpsMapMaxIndex data = lastKey (opsOf m)
          \<and> (OpsToMarshalIndex data = 0 \<or> OpsToMarshalIndex data \<in> set (map fst m)))"

text \<open>The log a map stands for: the commands in the order of their index.\<close>

definition opsLog :: "'c Data \<Rightarrow> (nat \<times> 'c Command) list" where
  "opsLog data = (case OpsMap data of None \<Rightarrow> [] | Some m \<Rightarrow> map (\<lambda>(k, op). (k, op_com op)) (opsOf m))"

lemma headKey_simps [simp]: "headKey [] = 0" "headKey (p # l) = fst p"
  by (auto simp: headKey_def split: prod.split)

lemma lastKey_simps [simp]: "lastKey [] = 0" "lastKey (l @ [p]) = fst p"
  by (auto simp: lastKey_def)

lemma linked_Cons: "linked (p # l) \<longleftrightarrow> op_nextOpIndex (snd p) = headKey l \<and> linked l"
  by (cases p) simp

lemma linked_appendD: "linked (l @ l') \<Longrightarrow> linked l'"
  by (induction l) (auto simp: linked_Cons)

lemma linked_snoc:
  "linked (l @ [p, q]) \<longleftrightarrow> linked (l @ [(fst p, (snd p)\<lparr>op_nextOpIndex := 0\<rparr>)])
     \<and> op_nextOpIndex (snd p) = fst q \<and> op_nextOpIndex (snd q) = 0"
proof (induction l)
  case (Cons x l)
  then show ?case by (cases l) (auto simp: linked_Cons)
qed (auto simp: linked_Cons)

lemma opsOf_simps [simp]:
  "set (opsOf m) = set m" "opsOf m = [] \<longleftrightarrow> m = []" "opsOf [] = []" "length (opsOf m) = length m"
  unfolding opsOf_def by (auto simp flip: length_0_conv)

lemma opsOf_sorted: "mwf m \<Longrightarrow> sorted_wrt (<) (map fst (opsOf m))"
  unfolding opsOf_def by (rule strict_sorted_sort_key)

lemma opsOf_unique: "mwf m \<Longrightarrow> set l = set m \<Longrightarrow> sorted_wrt (<) (map fst l) \<Longrightarrow> opsOf m = l"
  unfolding opsOf_def by (rule sort_key_fst_unique)

lemma opsOf_append_map_of:
  "mwf m \<Longrightarrow> opsOf m = l @ p # l' \<Longrightarrow> map_of m (fst p) = Some (snd p)"
  using opsOf_simps(1) [of m] by (intro mwf_map_of) auto

section \<open>Reading the log\<close>

definition encodable :: "('c Command \<Rightarrow> string option) \<Rightarrow> 'c Op \<Rightarrow> bool" where
  "encodable pm op \<longleftrightarrow> cacheOk pm op \<and> pm (op_com op) \<noteq> None"

abbreviation encodeOp :: "('c Command \<Rightarrow> string option) \<Rightarrow> nat \<times> 'c Op \<Rightarrow> string" where
  "encodeOp pm p \<equiv> the (pm (op_com (snd p)))"

lemma GetNextOp_encodable:
  "map_of m k = Some op \<Longrightarrow> encodable pm op \<Longrightarrow>
     GetNextOp pm m k = Inr (the (pm (op_com op)), op_nextOpIndex op)"
  by (auto simp: GetNextOp_def encodable_def cacheOk_def)

lemma GetNextOp_None: "map_of m k = None \<Longrightarrow> GetNextOp pm m k = Inl (Errno ''OpsMapInValid'')"
  by (simp add: GetNextOp_def)

lemma GetOpsFromStartOp_chain:
  assumes "linked l" "\<forall>p \<in> set l. map_of m (fst p) = Some (snd p) \<and> 0 < fst p \<and> encodable pm (snd p)"
  shows "GetOpsFromStartOp pm m (headKey l) ops = Some (ops @ map (encodeOp pm) l, NoClear)"
  using assms
proof (induction l arbitrary: ops)
  case Nil
  then show ?case by (simp add: GetOpsFromStartOp.simps)
next
  case (Cons p l)
  then have "GetNextOp pm m (fst p) = Inr (encodeOp pm p, headKey l)"
    by (simp add: GetNextOp_encodable linked_Cons)
  moreover have "fst p \<noteq> 0" using Cons.prems(2) by auto
  ultimately have "GetOpsFromStartOp pm m (headKey (p # l)) ops =
      GetOpsFromStartOp pm m (headKey l) (ops @ [encodeOp pm p])"
    by (simp add: GetOpsFromStartOp.simps [of pm m "fst p"])
  with Cons show ?case by (simp add: linked_Cons)
qed

lemma findStartOp_hit:
  assumes "i \<le> k" "k \<le> mx" "mx < maxU64" "map_of m k = Some op" "encodable pm op"
    "\<forall>j. i \<le> j \<and> j < k \<longrightarrow> map_of m j = None"
  shows "findStartOp pm m mx i = Some (Inr (the (pm (op_com op)), op_nextOpIndex op))"
  using assms
proof (induction "k - i" arbitrary: i)
  case 0
  then have "i = k" by simp
  with 0 show ?case by (simp add: findStartOp.simps [of pm m mx k] GetNextOp_encodable)
next
  case (Suc n)
  then have lt: "i < k" by simp
  with Suc.prems have "findStartOp pm m mx i = findStartOp pm m mx (i + 1)"
    by (simp add: findStartOp.simps [of pm m mx i] GetNextOp_None)
  moreover have "n = k - (i + 1)" "i + 1 \<le> k" using Suc.hyps(2) lt by auto
  ultimately show ?case using Suc.hyps(1) [of "i + 1"] Suc.prems by simp
qed

lemma sorted_filter_after:
  "sorted_wrt (<) (map fst (a @ p # b)) \<Longrightarrow> filter (\<lambda>q. fst p < (fst q :: nat)) (a @ p # b) = b"
  by (auto simp: sorted_wrt_append filter_empty_conv filter_id_conv)

lemma sorted_split_at:
  "sorted_wrt (<) (map fst l) \<Longrightarrow>
     l = filter (\<lambda>q. (fst q :: nat) \<le> i) l @ filter (\<lambda>q. i < fst q) l"
proof (induction l)
  case (Cons p l)
  show ?case
  proof (cases "fst p \<le> i")
    case True
    with Cons show ?thesis by simp
  next
    case False
    with Cons.prems have "filter (\<lambda>q. fst q \<le> i) l = []" "filter (\<lambda>q. i < fst q) l = l"
      by (auto simp: filter_empty_conv filter_id_conv)
    with False show ?thesis by simp
  qed
qed simp

lemma lastKey_ge: "sorted_wrt (<) (map fst l) \<Longrightarrow> p \<in> set l \<Longrightarrow> fst p \<le> lastKey l"
  by (induction l rule: rev_induct) (auto simp: sorted_wrt_append lastKey_def)

lemma headKey_le: "sorted_wrt (<) (map fst l) \<Longrightarrow> p \<in> set l \<Longrightarrow> headKey l \<le> fst p"
  by (cases l) (auto simp: headKey_def split: prod.splits)

lemma lastKey_mem: "l \<noteq> [] \<Longrightarrow> lastKey l \<in> fst ` set l"
  by (simp add: lastKey_def)

lemma headKey_mem: "l \<noteq> [] \<Longrightarrow> headKey l \<in> fst ` set l"
  by (cases l) auto

lemma GetOps_present:
  assumes ok: "opsMapOk pm m" and enc: "\<forall>(k, op) \<in> set m. encodable pm op"
    and "map_of m i = Some op"
  shows "GetOpsFromStartOp pm m (op_nextOpIndex op) [] =
     Some (map (encodeOp pm) (filter (\<lambda>q. i < fst q) (opsOf m)), NoClear)"
proof -
  have mwf: "mwf m" using ok by (simp add: opsMapOk_def)
  have "(i, op) \<in> set (opsOf m)" using assms(3) by (simp add: map_of_SomeD)
  then obtain a b where l: "opsOf m = a @ (i, op) # b" by (meson split_list)
  have "filter (\<lambda>q. i < fst q) (opsOf m) = b"
    using sorted_filter_after [of a "(i, op)" b] opsOf_sorted [OF mwf] l by simp
  moreover have lnk: "linked ((i, op) # b)"
    using ok l linked_appendD unfolding opsMapOk_def by metis
  moreover have "set b \<subseteq> set m" using l opsOf_simps(1) [of m] by auto
  then have "\<forall>p \<in> set b. map_of m (fst p) = Some (snd p) \<and> 0 < fst p \<and> encodable pm (snd p)"
    using mwf_map_of [OF mwf] ok enc unfolding opsMapOk_def by fastforce
  ultimately show ?thesis using GetOpsFromStartOp_chain [of b m pm "[]"] by simp
qed

lemma GetOps_absent:
  assumes ok: "opsMapOk pm m" and enc: "\<forall>(k, op) \<in> set m. encodable pm op"
    and abs: "map_of m i = None" and lt: "i < lastKey (opsOf m)"
    and mx: "mx = lastKey (opsOf m)"
  shows "\<exists>b n. findStartOp pm m mx (u64 (i + 1)) = Some (Inr (b, n))
     \<and> GetOpsFromStartOp pm m n [b] =
         Some (map (encodeOp pm) (filter (\<lambda>q. i < fst q) (opsOf m)), NoClear)"
proof -
  have mwf: "mwf m" using ok by (simp add: opsMapOk_def)
  note sorted = opsOf_sorted [OF mwf]
  define s where "s = filter (\<lambda>q. i < fst q) (opsOf m)"
  have ne: "opsOf m \<noteq> []" using lt by auto
  then obtain q where "q \<in> set (opsOf m)" "fst q = lastKey (opsOf m)"
    using lastKey_mem [OF ne] by (metis imageE)
  then have "q \<in> set s" using lt by (simp add: s_def)
  then obtain p r where s: "s = p # r" by (cases s) auto
  have split: "opsOf m = filter (\<lambda>q. fst q \<le> i) (opsOf m) @ s"
    unfolding s_def by (rule sorted_split_at [OF sorted])
  then have lnk: "linked s" using ok linked_appendD unfolding opsMapOk_def by metis
  have sub: "set s \<subseteq> set m" unfolding s_def by auto
  have all: "\<forall>p \<in> set s. map_of m (fst p) = Some (snd p) \<and> 0 < fst p \<and> encodable pm (snd p)"
    using sub mwf_map_of [OF mwf] ok enc unfolding opsMapOk_def by fastforce
  have keys: "i < fst p" "fst p \<le> mx" "mx < maxU64"
    using s s_def lastKey_ge [OF sorted] lastKey_mem [OF ne] ok sub
    by (auto simp: mx opsMapOk_def dest!: filter_eq_ConsD)
  have gap: "map_of m j = None" if "i < j" "j < fst p" for j
  proof (rule ccontr)
    assume "map_of m j \<noteq> None"
    then obtain op where "map_of m j = Some op" by auto
    then have "(j, op) \<in> set s" using that(1) by (simp add: s_def map_of_SomeD)
    moreover have "sorted_wrt (<) (map fst s)"
      using sorted split by (metis map_append sorted_wrt_append)
    ultimately show False using that(2) s by auto
  qed
  have "findStartOp pm m mx (i + 1) = Some (Inr (encodeOp pm p, op_nextOpIndex (snd p)))"
    using keys gap all s by (intro findStartOp_hit [where k = "fst p"]) auto
  moreover have "u64 (i + 1) = i + 1" using keys by simp
  moreover have "GetOpsFromStartOp pm m (op_nextOpIndex (snd p)) [encodeOp pm p] =
      Some ([encodeOp pm p] @ map (encodeOp pm) r, NoClear)"
    using GetOpsFromStartOp_chain [of r m pm] lnk all s by (simp add: linked_Cons)
  ultimately show ?thesis using s s_def by simp
qed

lemma opsInv_SomeD:
  assumes "opsInv pm data" "OpsMap data = Some m"
  shows "opsMapOk pm m"
    "OpsMapMinIndex data = (if m = [] then maxU64 else headKey (opsOf m))"
    "OpsMapMaxIndex data = lastKey (opsOf m)"
    "OpsToMarshalIndex data = 0 \<or> OpsToMarshalIndex data \<in> set (map fst m)"
  using assms by (auto simp: opsInv_def)

lemma opsMapOk_key: "opsMapOk pm m \<Longrightarrow> k \<in> fst ` set m \<Longrightarrow> 0 < k \<and> k < maxU64"
  by (auto simp: opsMapOk_def)

lemma opsMapOkD: "opsMapOk pm m \<Longrightarrow> (k, op) \<in> set m \<Longrightarrow> 0 < k \<and> k < maxU64 \<and> cacheOk pm op"
  by (auto simp: opsMapOk_def)

lemma GetOps_spec:
  assumes inv: "opsInv pm data" and m: "OpsMap data = Some m"
    and enc: "\<forall>(k, op) \<in> set m. pm (op_com op) \<noteq> None"
  shows "GetOps pm i data = Some
     (if opsLog data \<noteq> [] \<and> i < fst (hd (opsLog data)) then ([], AllClear)
      else (map (\<lambda>(k, c). the (pm c)) (filter (\<lambda>(k, c). i < k) (opsLog data)), NoClear))"
proof -
  note ok = opsInv_SomeD [OF inv m]
  have mwf: "mwf m" using ok(1) by (simp add: opsMapOk_def)
  note sorted = opsOf_sorted [OF mwf]
  have log: "opsLog data = map (\<lambda>(k, op). (k, op_com op)) (opsOf m)"
    by (simp add: opsLog_def m)
  have hd: "m \<noteq> [] \<Longrightarrow> fst (hd (opsLog data)) = OpsMapMinIndex data"
    by (cases "opsOf m") (auto simp: log ok(2) split: prod.splits)
  have emp: "opsLog data = [] \<longleftrightarrow> m = []" by (simp add: log)
  have res: "map (\<lambda>(k, c). the (pm c)) (filter (\<lambda>(k, c). i < k) (opsLog data)) =
      map (encodeOp pm) (filter (\<lambda>q. i < fst q) (opsOf m))"
    by (simp add: log filter_map comp_def case_prod_beta')
  have enc': "\<forall>(k, op) \<in> set m. encodable pm op"
    using enc ok(1) by (auto simp: encodable_def opsMapOk_def)
  have min: "m \<noteq> [] \<Longrightarrow> OpsMapMinIndex data \<noteq> maxU64"
    using headKey_mem [of "opsOf m"] opsMapOk_key [OF ok(1)] ok(2) by fastforce
  consider "m = []" | "m \<noteq> []" "i < OpsMapMinIndex data"
    | "m \<noteq> []" "OpsMapMinIndex data \<le> i" "lastKey (opsOf m) \<le> i"
    | op where "m \<noteq> []" "OpsMapMinIndex data \<le> i" "i < lastKey (opsOf m)" "map_of m i = Some op"
    | "m \<noteq> []" "OpsMapMinIndex data \<le> i" "i < lastKey (opsOf m)" "map_of m i = None"
    by (meson linorder_not_le not_Some_eq)
  then show ?thesis
  proof cases
    case 1
    then show ?thesis using ok by (simp add: GetOps_def m log)
  next
    case 2
    then show ?thesis using hd min emp by (simp add: GetOps_def m)
  next
    case 3
    then have "filter (\<lambda>q. i < fst q) (opsOf m) = []"
      using lastKey_ge [OF sorted] by (fastforce simp: filter_empty_conv)
    with 3 show ?thesis using hd res ok(3) by (simp add: GetOps_def m)
  next
    case 4
    then show ?thesis using hd res ok(3) GetOps_present [OF ok(1) enc'] by (simp add: GetOps_def m)
  next
    case 5
    from GetOps_absent [OF ok(1) enc' 5(4,3) ok(3)]
    show ?thesis using 5 hd res ok(3) by (auto simp: GetOps_def m)
  qed
qed

section \<open>Changing the log\<close>

text \<open>An entry at a new largest index is appended, and its predecessor is linked to it.\<close>

lemma opsOf_add:
  assumes ok: "opsMapOk pm m" and ne: "m \<noteq> []" and new: "lastKey (opsOf m) < k"
  shows "\<exists>l p. opsOf m = l @ [p] \<and> fst p = lastKey (opsOf m)
    \<and> opsOf (AList.update k op (mmodify (lastKey (opsOf m)) f m)) = l @ [(fst p, f (snd p)), (k, op)]"
proof -
  have mwf: "mwf m" using ok by (simp add: opsMapOk_def)
  note sorted = opsOf_sorted [OF mwf]
  obtain l p where l: "opsOf m = l @ [p]"
    using ne by (metis opsOf_simps(2) rev_exhaust)
  have p: "lastKey (opsOf m) = fst p" using l by simp
  have lt: "fst q < fst p" if "q \<in> set l" for q
    using sorted that by (auto simp: l sorted_wrt_append)
  have fresh: "k \<notin> fst ` set (mmodify (fst p) f m)"
    using lastKey_ge [OF sorted] new by (metis image_iff leD list.set_map map_fst_mmodify opsOf_simps(1))
  have sm: "set m = set (l @ [p])" using l by (metis opsOf_simps(1))
  have "set (mmodify (fst p) f m) = set (mmodify (fst p) f (l @ [p]))"
    using sm by (simp add: mmodify_def)
  also have "mmodify (fst p) f (l @ [p]) = l @ [(fst p, f (snd p))]"
    using lt by (cases p) (force simp: mmodify_def intro!: map_idI)
  finally have set': "set (mmodify (fst p) f m) = set (l @ [(fst p, f (snd p))])" .
  have "opsOf (AList.update k op (mmodify (fst p) f m)) = l @ [(fst p, f (snd p)), (k, op)]"
  proof (rule opsOf_unique)
    show "mwf (AList.update k op (mmodify (fst p) f m))" using mwf by simp
    show "set (l @ [(fst p, f (snd p)), (k, op)]) = set (AList.update k op (mmodify (fst p) f m))"
      using update_fresh [OF fresh] set' by auto
    show "sorted_wrt (<) (map fst (l @ [(fst p, f (snd p)), (k, op)]))"
      using sorted new p lt by (auto simp: l sorted_wrt_append intro: less_trans)
  qed
  then show ?thesis using l p by auto
qed

lemma opsMapOk_add:
  assumes ok: "opsMapOk pm m" and ne: "m \<noteq> []" and new: "lastKey (opsOf m) < k" "k < maxU64"
    and op: "op_nextOpIndex op = 0" "cacheOk pm op"
  shows "opsMapOk pm (AList.update k op
           (mmodify (lastKey (opsOf m)) (\<lambda>p. p\<lparr>op_nextOpIndex := k\<rparr>) m))"
proof -
  let ?f = "\<lambda>p. p\<lparr>op_nextOpIndex := k\<rparr>"
  let ?m' = "AList.update k op (mmodify (lastKey (opsOf m)) ?f m)"
  obtain l p where l: "opsOf m = l @ [p]"
    and l': "opsOf ?m' = l @ [(fst p, ?f (snd p)), (k, op)]"
    using opsOf_add [OF ok ne new(1), of op ?f] by blast
  have "linked (l @ [p])" using ok l by (simp add: opsMapOk_def)
  moreover have "op_nextOpIndex (snd p) = 0"
    using linked_appendD [OF calculation] by (simp add: linked_Cons)
  ultimately have "linked (opsOf ?m')"
    using op(1) by (cases p; cases "snd p") (simp add: l' linked_snoc)
  moreover have "\<forall>(k, op) \<in> set (opsOf ?m'). 0 < k \<and> k < maxU64 \<and> cacheOk pm op"
  proof -
    have "\<forall>(k, op) \<in> set (l @ [p]). 0 < k \<and> k < maxU64 \<and> cacheOk pm op"
      using ok by (simp add: opsMapOk_def flip: l)
    moreover have "cacheOk pm (?f (snd p)) = cacheOk pm (snd p)" by (simp add: cacheOk_def)
    ultimately show ?thesis using new op(2) by (auto simp: l' split: prod.splits)
  qed
  ultimately show ?thesis using ok by (simp add: opsMapOk_def)
qed

lemma opsMapOk_single:
  "0 < k \<Longrightarrow> k < maxU64 \<Longrightarrow> op_nextOpIndex op = 0 \<Longrightarrow> cacheOk pm op \<Longrightarrow> opsMapOk pm [(k, op)]"
  by (simp add: opsMapOk_def mwf_def opsOf_def)

lemma Add_inv:
  assumes inv: "opsInv pm data" and new: "0 < k" "OpsMapMaxIndex data < k" "k < maxU64"
    and add: "AddCmdAsOpToOpMap c k data = (data', e)"
  shows "opsInv pm data' \<and> e = None \<and>
     opsLog data' = opsLog data @
       (if OpsMap data \<noteq> None \<and> cmd_type c \<in> set commandUseForClient then [(k, c)] else [])"
proof (cases "OpsMap data")
  case None
  then show ?thesis using inv add by (simp add: AddCmdAsOpToOpMap_def)
next
  case (Some m)
  note ok = opsInv_SomeD [OF inv Some]
  have mwf: "mwf m" using ok(1) by (simp add: opsMapOk_def)
  have fresh: "k \<notin> fst ` set m"
    using lastKey_ge [OF opsOf_sorted [OF mwf]] new(2) ok(3) by fastforce
  then have fresh': "map_of m k = None" by (simp add: map_of_eq_None_iff)
  let ?op = "\<lparr>op_com = c, op_nextOpIndex = 0, op_cacheBytes = []\<rparr>"
  consider "cmd_type c \<notin> set commandUseForClient"
    | "cmd_type c \<in> set commandUseForClient" "m = []"
    | "cmd_type c \<in> set commandUseForClient" "m \<noteq> []" by blast
  then show ?thesis
  proof cases
    case 1
    then show ?thesis using inv add by (simp add: AddCmdAsOpToOpMap_def Some)
  next
    case 2
    then show ?thesis using inv add new ok
      by (auto simp: AddCmdAsOpToOpMap_def Some opsInv_def opsLog_def opsMapOk_single cacheOk_def
            opsOf_def lastKey_def)
  next
    case 3
    let ?f = "\<lambda>p. p\<lparr>op_nextOpIndex := k\<rparr>"
    let ?m' = "AList.update k ?op (mmodify (lastKey (opsOf m)) ?f m)"
    have mx: "map_of m (OpsMapMaxIndex data) \<noteq> None"
      using 3 ok(3) lastKey_mem [of "opsOf m"] by (simp add: map_of_eq_None_iff)
    have d': "data' = data\<lparr>OpsMap := Some ?m',
        OpsMapMinIndex := (if k < OpsMapMinIndex data then k else OpsMapMinIndex data),
        OpsMapMaxIndex := k,
        OpsToMarshalIndex := (if OpsToMarshalIndex data = 0 then k else OpsToMarshalIndex data)\<rparr>"
      "e = None"
      using add 3 mx fresh' new(2) by (auto simp: AddCmdAsOpToOpMap_def Some ok(3) Let_def)
    have new': "lastKey (opsOf m) < k" using new ok(3) by simp
    obtain l p where l: "opsOf m = l @ [p]"
      and l': "opsOf ?m' = l @ [(fst p, ?f (snd p)), (k, ?op)]"
      using opsOf_add [OF ok(1) 3(2) new', of ?op ?f] by blast
    have keys: "set (map fst ?m') = insert k (set (map fst m))"
      by simp
    have min: "headKey (opsOf ?m') = headKey (opsOf m)"
      by (subst l') (cases l; simp add: l)
    have "\<not> k < headKey (opsOf m)"
      using headKey_mem [of "opsOf m"] 3 lastKey_ge [OF opsOf_sorted [OF mwf]] new' by fastforce
    then have "OpsMapMinIndex data' = headKey (opsOf ?m')" using min ok(2) 3 by (simp add: d')
    moreover have "opsMapOk pm ?m'"
      using opsMapOk_add [OF ok(1) 3(2) new' new(3), of ?op] by (simp add: cacheOk_def)
    moreover have "OpsMapMaxIndex data' = lastKey (opsOf ?m')"
      unfolding l' d' by (simp add: lastKey_def)
    moreover have "OpsToMarshalIndex data' = 0 \<or> OpsToMarshalIndex data' \<in> set (map fst ?m')"
      using ok(4) keys by (auto simp: d')
    moreover have "?m' \<noteq> []" using l' by (metis append_is_Nil_conv list.distinct(1) opsOf_simps(2))
    ultimately have "opsInv pm data'" by (simp add: opsInv_def d')
    moreover have "opsLog data' = opsLog data @ [(k, c)]"
      by (simp add: opsLog_def d' Some l') (simp add: l case_prod_beta)
    ultimately show ?thesis using 3 d' Some by simp
  qed
qed

lemma opsOf_delete_head:
  assumes "mwf m" "opsOf m = p # r"
  shows "opsOf (AList.delete (fst p) m) = r"
proof (rule opsOf_unique)
  show "mwf (AList.delete (fst p) m)" using assms(1) by simp
  have srt: "sorted_wrt (<) (map fst (p # r))" using opsOf_sorted [OF assms(1)] assms(2) by simp
  then show "sorted_wrt (<) (map fst r)" by simp
  have "set m = set (p # r)" using assms(2) by (metis opsOf_simps(1))
  then show "set r = set (AList.delete (fst p) m)"
    using srt by (auto simp: AList.delete_eq)
qed

lemma clearLoop_chain:
  assumes "mwf m" "opsOf m = l" "linked l" "\<forall>q \<in> set l. 0 < fst q"
  shows "\<exists>m'. clearLoop m (headKey l) (headKey l) mn = Some (m', headKey (dropWhile (\<lambda>q. fst q < mn) l))
     \<and> mwf m' \<and> set m' \<subseteq> set m \<and> opsOf m' = dropWhile (\<lambda>q. fst q < mn) l"
  using assms
proof (induction l arbitrary: m)
  case Nil
  then show ?case by (simp add: clearLoop.simps)
next
  case (Cons p r)
  show ?case
  proof (cases "fst p < mn")
    case False
    with Cons.prems show ?thesis by (simp add: clearLoop.simps)
  next
    case True
    have "map_of m (fst p) = Some (snd p)"
      using Cons.prems(1,2) opsOf_append_map_of [of m "[]" p r] by simp
    then have step: "clearLoop m (headKey (p # r)) (headKey (p # r)) mn =
        clearLoop (AList.delete (fst p) m) (headKey r) (headKey r) mn"
      using True Cons.prems(3,4) by (simp add: clearLoop.simps [of m] linked_Cons)
    have "opsOf (AList.delete (fst p) m) = r" "mwf (AList.delete (fst p) m)"
      using Cons.prems(1,2) by (auto simp: opsOf_delete_head)
    with Cons.IH Cons.prems(3,4) obtain m' where
      "clearLoop (AList.delete (fst p) m) (headKey r) (headKey r) mn =
         Some (m', headKey (dropWhile (\<lambda>q. fst q < mn) r))"
      "mwf m'" "set m' \<subseteq> set (AList.delete (fst p) m)" "opsOf m' = dropWhile (\<lambda>q. fst q < mn) r"
      by (fastforce simp: linked_Cons)
    then show ?thesis using step True by (auto simp: AList.delete_eq)
  qed
qed

lemma clearLoop_next:
  "s < mn \<Longrightarrow> s \<noteq> 0 \<Longrightarrow> clearLoop m s n mn = clearLoop m s n' mn"
  by (simp add: clearLoop.simps [of m s])

lemma dropWhile_sorted:
  "sorted_wrt (<) (map fst l) \<Longrightarrow> dropWhile (\<lambda>q. fst q < (mn :: nat)) l = filter (\<lambda>q. mn \<le> fst q) l"
proof (induction l)
  case (Cons p l)
  show ?case
  proof (cases "fst p < mn")
    case True
    with Cons show ?thesis by simp
  next
    case False
    with Cons.prems have "filter (\<lambda>q. mn \<le> fst q) l = l"
      by (fastforce simp: filter_id_conv)
    with False show ?thesis by simp
  qed
qed simp

lemma linked_dropWhile: "linked l \<Longrightarrow> linked (dropWhile P l)"
  by (metis linked_appendD takeWhile_dropWhile_id)

lemma Clear_inv:
  assumes inv: "opsInv pm data" and clear: "ClearOpsMapV2 mn data = (data', e)"
  shows "opsInv pm data' \<and> e = None \<and>
    opsLog data' = (if length (opsLog data) \<le> OPMAPLIMITCAP \<or> mn = maxU64 then opsLog data
                    else filter (\<lambda>(k, c). mn \<le> k) (opsLog data))"
proof (cases "OpsMap data")
  case None
  then show ?thesis using inv clear by (simp add: ClearOpsMapV2_def opsLog_def)
next
  case (Some m)
  note ok = opsInv_SomeD [OF inv Some]
  have mwf: "mwf m" and pos: "\<forall>q \<in> set (opsOf m). 0 < fst q" and lnk: "linked (opsOf m)"
    using ok(1) by (auto simp: opsMapOk_def)
  note sorted = opsOf_sorted [OF mwf]
  have log: "opsLog data = map (\<lambda>(k, op). (k, op_com op)) (opsOf m)"
    by (simp add: opsLog_def Some)
  have filt: "filter (\<lambda>(k, c). mn \<le> k) (opsLog data) =
      map (\<lambda>(k, op). (k, op_com op)) (filter (\<lambda>q. mn \<le> fst q) (opsOf m))"
    by (simp add: log filter_map comp_def case_prod_beta')
  have len: "length (opsLog data) = length m" by (simp add: log)
  consider "length m \<le> OPMAPLIMITCAP" | "mn = maxU64"
    | "\<not> length m \<le> OPMAPLIMITCAP" "mn \<noteq> maxU64" "OpsMapMinIndex data \<ge> mn"
    | "\<not> length m \<le> OPMAPLIMITCAP" "mn \<noteq> maxU64" "OpsMapMinIndex data < mn" by linarith
  then show ?thesis
  proof cases
    case 3
    then have "m \<noteq> []" by (auto simp: OPMAPLIMITCAP_def)
    then have "filter (\<lambda>q. mn \<le> fst q) (opsOf m) = opsOf m"
      using headKey_le [OF sorted] ok(2) 3(3) by (fastforce simp: filter_id_conv)
    then show ?thesis using 3 inv clear filt len log by (simp add: ClearOpsMapV2_def Some)
  next
    case 4
    then have ne: "m \<noteq> []" by (auto simp: OPMAPLIMITCAP_def)
    have head: "OpsMapMinIndex data = headKey (opsOf m)" using ok(2) ne by simp
    have "headKey (opsOf m) \<noteq> 0" using headKey_mem [of "opsOf m"] ne pos by auto
    then obtain m' where m': "clearLoop m (OpsMapMinIndex data) 0 mn = Some (m', headKey (opsOf m'))"
      "mwf m'" "set m' \<subseteq> set m" "opsOf m' = filter (\<lambda>q. mn \<le> fst q) (opsOf m)"
      using clearLoop_chain [OF mwf refl lnk pos, of mn] 4(3) dropWhile_sorted [OF sorted, of mn] head
        clearLoop_next [of "headKey (opsOf m)" mn m 0 "headKey (opsOf m)"] by auto
    have "linked (opsOf m')"
      using linked_dropWhile [OF lnk] by (metis m'(4) dropWhile_sorted [OF sorted])
    then have okm': "opsMapOk pm m'"
      using ok(1) m'(2,3) by (auto simp: opsMapOk_def)
    have zero: "headKey (opsOf m') = 0 \<longleftrightarrow> m' = []"
      using headKey_mem [of "opsOf m'"] pos m'(3) by fastforce
    have logm': "map (\<lambda>(k, op). (k, op_com op)) (opsOf m') = filter (\<lambda>(k, c). mn \<le> k) (opsLog data)"
      using filt m'(4) by simp
    show ?thesis
    proof (cases "m' = []")
      case True
      then show ?thesis using clear 4 m'(1) okm' logm' len
        by (auto simp: ClearOpsMapV2_def Some opsInv_def opsLog_def)
    next
      case False
      have last: "lastKey (opsOf m') = lastKey (opsOf m)"
        using False m'(4) dropWhile_sorted [OF sorted, of mn]
        by (metis lastKey_def last_appendR opsOf_simps(2) takeWhile_dropWhile_id append_is_Nil_conv)
      let ?tm = "if OpsToMarshalIndex data < headKey (opsOf m') then headKey (opsOf m')
                 else OpsToMarshalIndex data"
      have hm: "headKey (opsOf m') \<in> fst ` set m'"
        using headKey_mem [of "opsOf m'"] False by simp
      have "\<forall>q \<in> set (opsOf m'). mn \<le> fst q" unfolding m'(4) by simp
      then have hm2: "mn \<le> headKey (opsOf m')" using hm by auto
      have tm: "?tm \<in> fst ` set m'"
      proof (cases "OpsToMarshalIndex data < headKey (opsOf m')")
        case True
        then show ?thesis using hm by simp
      next
        case tmge: False
        then obtain op where "(OpsToMarshalIndex data, op) \<in> set (opsOf m)"
          using zero False ok(4) by force
        then have "(OpsToMarshalIndex data, op) \<in> set (opsOf m')"
          using tmge hm2 unfolding m'(4) by simp
        then show ?thesis using tmge by force
      qed
      have d': "data' = data\<lparr>OpsMap := Some m', OpsMapMinIndex := headKey (opsOf m'), OpsToMarshalIndex := ?tm\<rparr>"
        "e = None"
        using clear 4 m'(1) False zero by (auto simp: ClearOpsMapV2_def Some)
      show ?thesis using 4 okm' logm' len False last tm ok(3)
        by (simp add: d' opsInv_def opsLog_def Some)
    qed
  qed (use inv clear len in \<open>auto simp: ClearOpsMapV2_def Some split: if_splits\<close>)
qed

definition eraseOps :: "(nat \<times> 'c Op) list \<Rightarrow> (nat \<times> 'c Command) list" where
  "eraseOps l = map (\<lambda>(k, op). (k, op_com op)) l"

lemma eraseOps_opsOf: "eraseOps (opsOf m) = sort_key fst (eraseOps m)"
  unfolding eraseOps_def opsOf_def by (rule sort_key_map_fst [symmetric]) (simp add: case_prod_beta)

lemma eraseOps_keys:
  assumes "eraseOps l = eraseOps l'"
  shows "map fst l = map fst l'" "headKey l = headKey l'" "lastKey l = lastKey l'" "l = [] \<longleftrightarrow> l' = []"
proof -
  have fst_er: "map fst (eraseOps l) = map fst l" for l :: "(nat \<times> 'a Op) list"
    by (induction l) (auto simp: eraseOps_def)
  show keys: "map fst l = map fst l'" using assms by (metis fst_er)
  then show ne: "l = [] \<longleftrightarrow> l' = []" by auto
  show "headKey l = headKey l'" using keys by (cases l; cases l') auto
  show "lastKey l = lastKey l'" using keys ne by (metis lastKey_def last_map)
qed

lemma eraseOps_cache: "eraseOps (mmodify k (\<lambda>op. op\<lparr>op_cacheBytes := b\<rparr>) m) = eraseOps m"
  by (auto simp: eraseOps_def mmodify_def)

lemma opsOf_mmodify: "opsOf (mmodify k f m) = mmodify k f (opsOf m)"
  unfolding opsOf_def mmodify_def by (rule sort_key_map_fst) (simp add: case_prod_beta)

lemma linked_cache: "linked (mmodify k (\<lambda>op. op\<lparr>op_cacheBytes := b\<rparr>) l) \<longleftrightarrow> linked l"
proof (induction l)
  case (Cons p l)
  have "headKey (mmodify k (\<lambda>op. op\<lparr>op_cacheBytes := b\<rparr>) l) = headKey l"
    by (rule eraseOps_keys) (rule eraseOps_cache)
  with Cons show ?case by (cases p) (auto simp: mmodify_def)
qed (simp add: mmodify_def)

lemma opsMapOk_cache:
  assumes "opsMapOk pm m" "map_of m k = Some op" "b = [] \<or> pm (op_com op) = Some b"
  shows "opsMapOk pm (mmodify k (\<lambda>op. op\<lparr>op_cacheBytes := b\<rparr>) m)"
proof -
  have at_k: "v = op" if "(k, v) \<in> set m" for v
    using assms(1,2) that by (auto simp: opsMapOk_def dest: mwf_map_of)
  have "cacheOk pm (op\<lparr>op_cacheBytes := b\<rparr>)" using assms(3) by (auto simp: cacheOk_def)
  then have "\<forall>(k', v) \<in> set (mmodify k (\<lambda>op. op\<lparr>op_cacheBytes := b\<rparr>) m).
      0 < k' \<and> k' < maxU64 \<and> cacheOk pm v"
    using opsMapOkD [OF assms(1)] by (auto simp: mmodify_def dest: at_k)
  then show ?thesis using assms(1) by (simp add: opsMapOk_def opsOf_mmodify linked_cache)
qed

lemma cacheLoop_chain:
  assumes "opsMapOk pm m" "opsOf m = pre @ suf" "suf \<noteq> []" "mx = lastKey (opsOf m)"
  shows "\<exists>m' tm e. cacheLoop pm mx m (headKey suf) (headKey suf) = Some (m', tm, e)
     \<and> opsMapOk pm m' \<and> eraseOps m' = eraseOps m \<and> (tm = 0 \<or> tm \<in> set (map fst m))
     \<and> (e = None \<longleftrightarrow> (\<forall>(k, op) \<in> set suf. pm (op_com op) \<noteq> None))"
  using assms
proof (induction suf arbitrary: m pre)
  case (Cons p r)
  have mwf: "mwf m" using Cons.prems(1) by (simp add: opsMapOk_def)
  have look: "map_of m (fst p) = Some (snd p)"
    using opsOf_append_map_of [OF mwf Cons.prems(2)] .
  have in_m: "fst p \<in> set (map fst m)" using look by (metis domI dom_map_of_conv_image_fst set_map)
  have le: "fst p \<le> mx"
    using lastKey_ge [OF opsOf_sorted [OF mwf]] Cons.prems(2,4) by simp
  have next_p: "op_nextOpIndex (snd p) = headKey r"
    using Cons.prems(1,2) linked_appendD [of pre "p # r"] by (simp add: opsMapOk_def linked_Cons)
  let ?m1 = "\<lambda>b. mmodify (fst p) (\<lambda>op. op\<lparr>op_cacheBytes := b\<rparr>) m"
  have upd: "AList.update (fst p) ((snd p)\<lparr>op_cacheBytes := b\<rparr>) m = ?m1 b" for b
    using update_eq_mmodify [OF mwf look, of "\<lambda>op. op\<lparr>op_cacheBytes := b\<rparr>"] .
  note unf = cacheLoop.simps [of pm mx m "fst p" "fst p"]
  show ?case
  proof (cases "pm (op_com (snd p))")
    case None
    then show ?thesis using le look in_m opsMapOk_cache [OF Cons.prems(1) look, of "[]"]
      by (auto simp: unf upd eraseOps_cache case_prod_beta)
  next
    case (Some b)
    have ok1: "opsMapOk pm (?m1 b)" using opsMapOk_cache [OF Cons.prems(1) look] Some by simp
    have er1: "eraseOps (opsOf (?m1 b)) = eraseOps (opsOf m)" by (simp add: eraseOps_opsOf eraseOps_cache)
    show ?thesis
    proof (cases "r = []")
      case True
      then show ?thesis using Some le look ok1 next_p
        by (auto simp: unf upd eraseOps_cache case_prod_beta)
    next
      case False
      then have nz: "headKey r \<noteq> 0"
        using opsMapOk_key [OF Cons.prems(1)] headKey_mem [of r] opsOf_simps(1) [of m] Cons.prems(2) by force
      have "fst p \<notin> fst ` set r"
        using opsOf_sorted [OF mwf] Cons.prems(2) by (auto simp: sorted_wrt_append)
      then have l1: "opsOf (?m1 b) = (mmodify (fst p) (\<lambda>op. op\<lparr>op_cacheBytes := b\<rparr>) (pre @ [p])) @ r"
        using mmodify_append [of "fst p" _ "pre @ [p]" r] mmodify_absent [of "fst p" r] Cons.prems(2)
        by (simp add: opsOf_mmodify)
      have last1: "mx = lastKey (opsOf (?m1 b))" using eraseOps_keys(3) [OF er1] Cons.prems(4) by simp
      have step: "cacheLoop pm mx m (headKey (p # r)) (headKey (p # r)) =
          cacheLoop pm mx (?m1 b) (headKey r) (headKey r)"
        using Some le look next_p nz by (simp add: unf upd Let_def)
      obtain m' tm e where "cacheLoop pm mx (?m1 b) (headKey r) (headKey r) = Some (m', tm, e)"
        "opsMapOk pm m'" "eraseOps m' = eraseOps (?m1 b)" "tm = 0 \<or> tm \<in> set (map fst (?m1 b))"
        "e = None \<longleftrightarrow> (\<forall>(k, op) \<in> set r. pm (op_com op) \<noteq> None)"
        using Cons.IH [OF ok1 l1 False last1] by blast
      then show ?thesis using step Some by (simp add: eraseOps_cache case_prod_beta)
    qed
  qed
qed simp

lemma Update_inv:
  assumes inv: "opsInv pm data"
  shows "\<exists>data' e. UpdateOpsMapCacheBytes pm data = Some (data', e) \<and> opsInv pm data'
     \<and> opsLog data' = opsLog data \<and> (OpsMap data' = None \<longleftrightarrow> OpsMap data = None)
     \<and> ((\<forall>(k, c) \<in> set (opsLog data). pm c \<noteq> None) \<longrightarrow> e = None)"
proof (cases "\<exists>m. OpsMap data = Some m \<and> m \<noteq> [] \<and> OpsToMarshalIndex data \<noteq> 0")
  case False
  then show ?thesis using inv by (auto simp: UpdateOpsMapCacheBytes_def split: option.splits)
next
  case True
  then obtain m where m: "OpsMap data = Some m" "m \<noteq> []" "OpsToMarshalIndex data \<noteq> 0" by blast
  note ok = opsInv_SomeD [OF inv m(1)]
  obtain op where "(OpsToMarshalIndex data, op) \<in> set (opsOf m)" using ok(4) m(3) by auto
  then obtain pre r where l: "opsOf m = pre @ (OpsToMarshalIndex data, op) # r" by (meson split_list)
  obtain m' tm e where res: "cacheLoop pm (OpsMapMaxIndex data) m (OpsToMarshalIndex data) (OpsToMarshalIndex data) =
      Some (m', tm, e)" "opsMapOk pm m'" "eraseOps m' = eraseOps m" "tm = 0 \<or> tm \<in> set (map fst m)"
    "e = None \<longleftrightarrow> (\<forall>(k, op) \<in> set ((OpsToMarshalIndex data, op) # r). pm (op_com op) \<noteq> None)"
    using cacheLoop_chain [OF ok(1) l _ ok(3)] by (simp del: map_fst_mmodify) blast
  have er: "eraseOps (opsOf m') = eraseOps (opsOf m)" by (simp add: eraseOps_opsOf res(3))
  have log: "opsLog data = eraseOps (opsOf m)" by (simp add: opsLog_def m(1) eraseOps_def)
  let ?data' = "data\<lparr>OpsMap := Some m', OpsToMarshalIndex := tm\<rparr>"
  have "UpdateOpsMapCacheBytes pm data = Some (?data', e)"
    using m res(1) by (simp add: UpdateOpsMapCacheBytes_def)
  moreover have "opsInv pm ?data'"
    using res(2,4) ok(2,3) eraseOps_keys [OF er] eraseOps_keys [OF res(3)] m(2)
    by (auto simp: opsInv_def simp flip: set_map)
  moreover have "opsLog ?data' = opsLog data" using er log by (simp add: opsLog_def eraseOps_def)
  moreover have "(\<forall>(k, c) \<in> set (opsLog data). pm c \<noteq> None) \<longrightarrow> e = None"
  proof
    assume enc: "\<forall>(k, c) \<in> set (opsLog data). pm c \<noteq> None"
    have "(fst q, op_com (snd q)) \<in> set (opsLog data)" if "q \<in> set (opsOf m)" for q
      using that by (force simp: log eraseOps_def)
    then show "e = None" using enc l unfolding res(5) by fastforce
  qed
  ultimately show ?thesis using m(1) by auto
qed

section \<open>A client that follows the log\<close>

text \<open>
  What the log promises to its clients, as an interface: \<open>add\<close> appends, \<open>clear n\<close> drops only entries
  below \<open>n\<close>, \<open>touch\<close> (refreshing caches) changes nothing, and \<open>since i\<close> either asks the client to
  reload everything or gives the encoded commands after index \<open>i\<close> that the log still has.
\<close>

datatype 'm LogEvent = LAdd nat 'm | LClear nat | LTouch

fun logStep :: "('m \<Rightarrow> nat \<Rightarrow> 's \<Rightarrow> 's) \<Rightarrow> (nat \<Rightarrow> 's \<Rightarrow> 's) \<Rightarrow> ('s \<Rightarrow> 's) \<Rightarrow> 'm LogEvent \<Rightarrow> 's \<Rightarrow> 's" where
  "logStep add clear touch (LAdd i c) s = add c i s"
| "logStep add clear touch (LClear n) s = clear n s"
| "logStep add clear touch LTouch s = touch s"

fun addsOf :: "'m LogEvent list \<Rightarrow> (nat \<times> 'm) list" where
  "addsOf [] = []"
| "addsOf (LAdd i c # es) = (i, c) # addsOf es"
| "addsOf (_ # es) = addsOf es"

fun clearsOf :: "'m LogEvent list \<Rightarrow> nat list" where
  "clearsOf [] = []"
| "clearsOf (LClear n # es) = n # clearsOf es"
| "clearsOf (_ # es) = clearsOf es"

lemma addsOf_append [simp]: "addsOf (es @ es') = addsOf es @ addsOf es'"
  by (induction es rule: addsOf.induct) auto

lemma clearsOf_append [simp]: "clearsOf (es @ es') = clearsOf es @ clearsOf es'"
  by (induction es rule: clearsOf.induct) auto

locale command_log =
  fixes inv :: "'s \<Rightarrow> bool"
    and log :: "'s \<Rightarrow> (nat \<times> 'm) list"
    and add :: "'m \<Rightarrow> nat \<Rightarrow> 's \<Rightarrow> 's"
    and clear :: "nat \<Rightarrow> 's \<Rightarrow> 's"
    and touch :: "'s \<Rightarrow> 's"
    and since :: "nat \<Rightarrow> 's \<Rightarrow> 'b list option"
    and used :: "'m \<Rightarrow> bool"
    and valid :: "nat \<Rightarrow> 'm \<Rightarrow> bool"
    and enc :: "'m \<Rightarrow> 'b"
  assumes add_law: "inv s \<Longrightarrow> valid i c \<Longrightarrow> \<forall>p \<in> set (log s). fst p < i \<Longrightarrow>
      inv (add c i s) \<and> log (add c i s) = log s @ (if used c then [(i, c)] else [])"
    and clear_law: "inv s \<Longrightarrow>
      inv (clear n s) \<and> (log (clear n s) = log s \<or> log (clear n s) = filter (\<lambda>p. n \<le> fst p) (log s))"
    and touch_law: "inv s \<Longrightarrow> inv (touch s) \<and> log (touch s) = log s"
    and since_law: "inv s \<Longrightarrow>
      since i s = None \<or> since i s = Some (map (\<lambda>p. enc (snd p)) (filter (\<lambda>p. i < fst p) (log s)))"
begin

lemma run_log:
  assumes "inv s" "log s = []" "sorted_wrt (<) (map fst (addsOf es))" "\<forall>(i, c) \<in> set (addsOf es). valid i c"
  shows "inv (fold (logStep add clear touch) es s)
     \<and> set (log (fold (logStep add clear touch) es s)) \<subseteq> set (addsOf es)
     \<and> (\<forall>i. (\<forall>n \<in> set (clearsOf es). n \<le> i) \<longrightarrow>
          filter (\<lambda>p. i < fst p) (log (fold (logStep add clear touch) es s)) =
          filter (\<lambda>p. i < fst p \<and> used (snd p)) (addsOf es))"
  using assms(3,4)
proof (induction es rule: rev_induct)
  case Nil
  then show ?case using assms(1,2) by simp
next
  case (snoc e es)
  let ?t = "fold (logStep add clear touch) es s"
  have IH: "inv ?t" "set (log ?t) \<subseteq> set (addsOf es)"
    "\<And>i. \<forall>n \<in> set (clearsOf es). n \<le> i \<Longrightarrow>
       filter (\<lambda>p. i < fst p) (log ?t) = filter (\<lambda>p. i < fst p \<and> used (snd p)) (addsOf es)"
    using snoc by (auto simp: sorted_wrt_append)
  show ?case
  proof (cases e)
    case (LAdd k c)
    have "\<forall>p \<in> set (log ?t). fst p < k" "valid k c"
      using snoc.prems IH(2) by (auto simp: LAdd sorted_wrt_append)
    then show ?thesis using add_law [OF IH(1)] IH(2,3) by (auto simp: LAdd)
  next
    case (LClear n)
    have "filter (\<lambda>p. i < fst p) (filter (\<lambda>p. n \<le> fst p) xs) = filter (\<lambda>p. i < fst p) xs"
      if "n \<le> i" for i and xs :: "(nat \<times> 'm) list" using that by (induction xs) auto
    then have "filter (\<lambda>p. i < fst p) (log (clear n ?t)) = filter (\<lambda>p. i < fst p) (log ?t)" if "n \<le> i" for i
      using clear_law [OF IH(1), of n] that by metis
    then show ?thesis using clear_law [OF IH(1), of n] IH(2,3) by (auto simp: LClear)
  next
    case LTouch
    then show ?thesis using touch_law [OF IH(1)] IH(2,3) by auto
  qed
qed

lemma client_catches_up:
  assumes "inv s" "log s = []" "sorted_wrt (<) (map fst (addsOf es))" "\<forall>(i, c) \<in> set (addsOf es). valid i c"
    and "\<forall>n \<in> set (clearsOf es). n \<le> old" "since old (fold (logStep add clear touch) es s) = Some bs"
  shows "bs = map (\<lambda>p. enc (snd p)) (filter (\<lambda>p. old < fst p \<and> used (snd p)) (addsOf es))"
  using run_log [OF assms(1-4)] since_law [of "fold (logStep add clear touch) es s" old] assms(5,6) by auto

end

text \<open>The model's log provides that interface, for any encoder \<open>pm\<close>.\<close>

definition opsReady :: "('c Command \<Rightarrow> string option) \<Rightarrow> 'c Data \<Rightarrow> bool" where
  "opsReady pm data \<longleftrightarrow>
     opsInv pm data \<and> OpsMap data \<noteq> None \<and> (\<forall>(k, c) \<in> set (opsLog data). pm c \<noteq> None)"

definition opsValid :: "('c Command \<Rightarrow> string option) \<Rightarrow> nat \<Rightarrow> 'c Command \<Rightarrow> bool" where
  "opsValid pm i c \<longleftrightarrow> 0 < i \<and> i < maxU64 \<and> pm c \<noteq> None"

definition opsSince :: "('c Command \<Rightarrow> string option) \<Rightarrow> nat \<Rightarrow> 'c Data \<Rightarrow> string list option" where
  "opsSince pm i data = (case GetOps pm i data of Some (ops, NoClear) \<Rightarrow> Some ops | _ \<Rightarrow> None)"

abbreviation opsStep :: "('c Command \<Rightarrow> string option) \<Rightarrow> 'c Command LogEvent \<Rightarrow> 'c Data \<Rightarrow> 'c Data" where
  "opsStep pm \<equiv> logStep (\<lambda>c i d. fst (AddCmdAsOpToOpMap c i d)) (\<lambda>n d. fst (ClearOpsMapV2 n d))
      (\<lambda>d. fst (the (UpdateOpsMapCacheBytes pm d)))"

lemma OpsMap_Add: "OpsMap (fst (AddCmdAsOpToOpMap c i data)) = None \<longleftrightarrow> OpsMap data = None"
  by (auto simp: AddCmdAsOpToOpMap_def Let_def split: option.splits)

lemma OpsMap_Clear: "OpsMap (fst (ClearOpsMapV2 n data)) = None \<longleftrightarrow> OpsMap data = None"
  by (auto simp: ClearOpsMapV2_def split: option.splits)

lemma opsMax_less:
  assumes "opsReady pm data" "\<forall>p \<in> set (opsLog data). fst p < i" "0 < i"
  shows "OpsMapMaxIndex data < i"
proof -
  obtain m where m: "OpsMap data = Some m" using assms(1) by (auto simp: opsReady_def)
  then have "opsInv pm data" using assms(1) by (simp add: opsReady_def)
  then have "OpsMapMaxIndex data = lastKey (opsOf m)" using opsInv_SomeD(3) m by blast
  moreover have "lastKey (opsOf m) < i"
  proof (cases "opsOf m = []")
    case True
    then show ?thesis using assms(3) by simp
  next
    case False
    then obtain op where "(lastKey (opsOf m), op) \<in> set (opsOf m)"
      using lastKey_mem by (metis imageE prod.collapse)
    then have "(lastKey (opsOf m), op_com op) \<in> set (opsLog data)"
      by (force simp: opsLog_def m)
    then show ?thesis using assms(2) by fastforce
  qed
  ultimately show ?thesis by simp
qed

lemma opsReady_ops: "opsReady pm data \<Longrightarrow> OpsMap data = Some m \<Longrightarrow> \<forall>(k, op) \<in> set m. pm (op_com op) \<noteq> None"
  by (fastforce simp: opsReady_def opsLog_def)

lemma opsl_add:
  assumes "opsReady pm s" "opsValid pm i c" "\<forall>p \<in> set (opsLog s). fst p < i"
  shows "opsReady pm (fst (AddCmdAsOpToOpMap c i s)) \<and>
      opsLog (fst (AddCmdAsOpToOpMap c i s)) =
        opsLog s @ (if cmd_type c \<in> set commandUseForClient then [(i, c)] else [])"
proof -
  obtain d' e where add: "AddCmdAsOpToOpMap c i s = (d', e)" by (cases "AddCmdAsOpToOpMap c i s")
  have "opsInv pm d' \<and> e = None \<and>
     opsLog d' = opsLog s @
       (if OpsMap s \<noteq> None \<and> cmd_type c \<in> set commandUseForClient then [(i, c)] else [])"
    using Add_inv [OF _ _ _ _ add, of pm] opsMax_less [OF assms(1,3)] assms(1,2)
    unfolding opsReady_def opsValid_def by blast
  moreover have "OpsMap s \<noteq> None" "OpsMap d' \<noteq> None" "pm c \<noteq> None"
    using assms(1,2) OpsMap_Add [of c i s] add by (simp_all add: opsReady_def opsValid_def)
  moreover have "\<forall>(k, c) \<in> set (opsLog s). pm c \<noteq> None" using assms(1) by (simp add: opsReady_def)
  ultimately show ?thesis by (auto simp: opsReady_def add)
qed

lemma opsl_clear:
  assumes "opsReady pm s"
  shows "opsReady pm (fst (ClearOpsMapV2 n s)) \<and>
      (opsLog (fst (ClearOpsMapV2 n s)) = opsLog s \<or>
       opsLog (fst (ClearOpsMapV2 n s)) = filter (\<lambda>p. n \<le> fst p) (opsLog s))"
proof -
  obtain d' e where clear: "ClearOpsMapV2 n s = (d', e)" by (cases "ClearOpsMapV2 n s")
  have "opsInv pm d'" "opsLog d' = opsLog s \<or> opsLog d' = filter (\<lambda>p. n \<le> fst p) (opsLog s)"
    using Clear_inv [OF _ clear, of pm] assms by (auto simp: opsReady_def case_prod_beta')
  moreover have "OpsMap d' \<noteq> None" using assms OpsMap_Clear [of n s] clear by (simp add: opsReady_def)
  ultimately show ?thesis using assms by (auto simp: opsReady_def clear)
qed

lemma opsl_touch:
  "opsReady pm s \<Longrightarrow> opsReady pm (fst (the (UpdateOpsMapCacheBytes pm s))) \<and>
      opsLog (fst (the (UpdateOpsMapCacheBytes pm s))) = opsLog s"
  using Update_inv [of pm s] by (auto simp: opsReady_def)

lemma opsl_GetOps:
  assumes "opsReady pm s"
  shows "GetOps pm i s = Some
     (if opsLog s \<noteq> [] \<and> i < fst (hd (opsLog s)) then ([], AllClear)
      else (map (\<lambda>p. the (pm (snd p))) (filter (\<lambda>p. i < fst p) (opsLog s)), NoClear))"
proof -
  obtain m where m: "OpsMap s = Some m" using assms by (auto simp: opsReady_def)
  have "opsInv pm s" using assms by (simp add: opsReady_def)
  from GetOps_spec [OF this m opsReady_ops [OF assms m], of i]
  show ?thesis by (simp add: case_prod_beta')
qed

interpretation opsl: command_log "opsReady pm" opsLog "\<lambda>c i d. fst (AddCmdAsOpToOpMap c i d)"
    "\<lambda>n d. fst (ClearOpsMapV2 n d)" "\<lambda>d. fst (the (UpdateOpsMapCacheBytes pm d))" "opsSince pm"
    "\<lambda>c. cmd_type c \<in> set commandUseForClient" "opsValid pm" "\<lambda>c. the (pm c)" for pm
proof (unfold_locales, goal_cases)
  case (1 s i c)
  then show ?case by (rule opsl_add)
next
  case (2 s n)
  then show ?case by (rule opsl_clear)
next
  case (3 s)
  then show ?case by (rule opsl_touch)
next
  case (4 s i)
  then show ?case by (simp add: opsSince_def opsl_GetOps)
qed

section \<open>The log of a meta server\<close>

text \<open>\<open>NewStore\<close> starts with an empty map when operations are synchronised incrementally.\<close>

definition initOpsMap :: "'c Data \<Rightarrow> 'c Data" where
  "initOpsMap data = data\<lparr>OpsMap := Some [], OpsMapMinIndex := maxU64, OpsMapMaxIndex := 0,
     OpsToMarshalIndex := 0\<rparr>"

definition validRun :: "('c Command \<Rightarrow> string option) \<Rightarrow> 'c Command LogEvent list \<Rightarrow> bool" where
  "validRun pm es \<longleftrightarrow> sorted_wrt (<) (map fst (addsOf es)) \<and> list_all (\<lambda>(i, c). opsValid pm i c) (addsOf es)"

definition commandsAfter :: "nat \<Rightarrow> 'c Command LogEvent list \<Rightarrow> 'c Command list" where
  "commandsAfter old es =
     map snd (filter (\<lambda>p. old < fst p \<and> cmd_type (snd p) \<in> set commandUseForClient) (addsOf es))"

lemma initOpsMap_ready: "opsReady pm (initOpsMap data)" "opsLog (initOpsMap data) = []"
  by (auto simp: initOpsMap_def opsReady_def opsInv_def opsMapOk_def opsLog_def)

lemma validRunD:
  "validRun pm es \<Longrightarrow> sorted_wrt (<) (map fst (addsOf es)) \<and> (\<forall>(i, c) \<in> set (addsOf es). opsValid pm i c)"
  by (auto simp: validRun_def list_all_iff)

lemma opsRun:
  assumes "validRun pm es"
  shows "opsReady pm (fold (opsStep pm) es (initOpsMap data))"
    "\<forall>n \<in> set (clearsOf es). n \<le> i \<Longrightarrow>
       filter (\<lambda>p. i < fst p) (opsLog (fold (opsStep pm) es (initOpsMap data))) =
       filter (\<lambda>p. i < fst p \<and> cmd_type (snd p) \<in> set commandUseForClient) (addsOf es)"
    "set (opsLog (fold (opsStep pm) es (initOpsMap data))) \<subseteq> set (addsOf es)"
  using opsl.run_log [OF initOpsMap_ready, of es pm] validRunD [OF assms] by blast+

text \<open>C1: A client that has applied every command up to index \<open>old\<close>, where \<open>old\<close> is at least every
  bound the server has used to trim its log, is handed by \<open>GetOps\<close> either a request to reload
  everything, or exactly the commands for clients added after \<open>old\<close>, in order and encoded. \<open>GetOps\<close>
  always returns, and the run may add commands, trim and refresh caches in any order.\<close>

theorem GetOps_catches_up:
  assumes "validRun pm es" "\<forall>n \<in> set (clearsOf es). n \<le> old"
  shows "GetOps pm old (fold (opsStep pm) es (initOpsMap data)) \<in>
     {Some ([], AllClear), Some (map (\<lambda>c. the (pm c)) (commandsAfter old es), NoClear)}"
  using opsl_GetOps [OF opsRun(1) [OF assms(1)], of old] opsRun(2) [OF assms]
  by (auto simp: commandsAfter_def comp_def)

theorem GetOps_catches_up_witness:
  "GetOps (\<lambda>c. Some (cmd_payload c)) 3
     (fold (opsStep (\<lambda>c. Some (cmd_payload c)))
        [LAdd 3 (Command 3 ''a''), LTouch, LAdd 5 (Command 17 ''b''), LClear 3] (initOpsMap zeroData)) \<in>
     {Some ([], AllClear), Some ([''b''], NoClear)}"
  using GetOps_catches_up [of "\<lambda>c. Some (cmd_payload c)"
      "[LAdd 3 (Command 3 ''a''), LTouch, LAdd 5 (Command 17 ''b''), LClear 3]" 3 zeroData]
  by (simp add: validRun_def opsValid_def commandsAfter_def commandUseForClient_def)

text \<open>C12: After any run of additions, trims and cache refreshes the map is a chain linked in index
  order with its bounds and first uncached entry recorded, and the next operation is safe: a trim
  never dereferences a missing entry, a cache refresh ends without an error, and reading ends.\<close>

theorem ops_run_safe:
  assumes "validRun pm es"
  shows "opsInv pm (fold (opsStep pm) es (initOpsMap data))
    \<and> snd (ClearOpsMapV2 n (fold (opsStep pm) es (initOpsMap data))) = None
    \<and> (\<exists>d'. UpdateOpsMapCacheBytes pm (fold (opsStep pm) es (initOpsMap data)) = Some (d', None))
    \<and> GetOps pm old (fold (opsStep pm) es (initOpsMap data)) \<noteq> None"
proof -
  let ?d = "fold (opsStep pm) es (initOpsMap data)"
  have ready: "opsReady pm ?d" by (rule opsRun(1) [OF assms])
  then have inv: "opsInv pm ?d" by (simp add: opsReady_def)
  have "snd (ClearOpsMapV2 n ?d) = None" using Clear_inv [OF inv, of n] by (metis prod.collapse)
  moreover have "\<exists>d'. UpdateOpsMapCacheBytes pm ?d = Some (d', None)"
    using Update_inv [OF inv] ready by (auto simp: opsReady_def)
  moreover have "GetOps pm old ?d \<noteq> None" using opsl_GetOps [OF ready] by simp
  ultimately show ?thesis using inv by simp
qed

theorem ops_run_safe_witness:
  "snd (ClearOpsMapV2 5 (fold (opsStep (\<lambda>c. Some (cmd_payload c)))
     [LAdd 3 (Command 3 ''a''), LTouch, LAdd 5 (Command 17 ''b'')] (initOpsMap zeroData))) = None"
  using ops_run_safe [of "\<lambda>c. Some (cmd_payload c)"
      "[LAdd 3 (Command 3 ''a''), LTouch, LAdd 5 (Command 17 ''b'')]" zeroData 5 0]
  by (simp add: validRun_def opsValid_def)

text \<open>C13: Trimming keeps the invariant and is exact: a log of at most 30 commands, or a bound of
  \<open>MaxUint64\<close> (no live node), leaves the log as it is; otherwise the commands whose index is at
  least the bound remain, and only those.\<close>

theorem ClearOpsMapV2_exact:
  assumes "opsInv pm data"
  shows "opsInv pm (fst (ClearOpsMapV2 minAlive data)) \<and>
    opsLog (fst (ClearOpsMapV2 minAlive data)) =
      (if length (opsLog data) \<le> OPMAPLIMITCAP \<or> minAlive = 18446744073709551615 then opsLog data
       else filter (\<lambda>(k, c). minAlive \<le> k) (opsLog data))"
  using Clear_inv [OF assms, of minAlive] by (metis prod.collapse)

theorem ClearOpsMapV2_exact_witness:
  "opsLog (fst (ClearOpsMapV2 9 (fst (AddCmdAsOpToOpMap (Command 3 ''a'') 3 (initOpsMap zeroData))))) =
     [(3, Command 3 ''a'')]"
  using ClearOpsMapV2_exact [of "\<lambda>c. Some (cmd_payload c)"
      "fst (AddCmdAsOpToOpMap (Command 3 ''a'') 3 (initOpsMap zeroData))" 9]
    opsl_add [OF initOpsMap_ready(1) [of "\<lambda>c. Some (cmd_payload c)" zeroData], of 3 "Command 3 ''a''"]
  by (simp add: opsReady_def OPMAPLIMITCAP_def initOpsMap_ready(2) opsValid_def commandUseForClient_def)

text \<open>C24: That bound on the trims is needed. A log that has been trimmed empty answers every
  client, also one that starts at index 0, with no commands and \<open>NoClear\<close>: the client then believes
  it is up to date although it has missed commands.\<close>

theorem trimmed_log_hides_commands:
  assumes "pm c = Some b" "cmd_type c \<in> set commandUseForClient"
  shows "\<exists>es. validRun pm es \<and> length (commandsAfter 0 es) = 31 \<and>
    GetOps pm 0 (fold (opsStep pm) es (initOpsMap data)) = Some ([], NoClear)"
proof -
  let ?adds = "map (\<lambda>i. LAdd i c) [1..<32]"
  have adds: "addsOf (map (\<lambda>i. LAdd i c) is) = map (\<lambda>i. (i, c)) is" "clearsOf (map (\<lambda>i. LAdd i c) is) = []"
    for "is" by (induction "is") auto
  have valid: "validRun pm ?adds"
    using assms(1) by (simp add: validRun_def adds comp_def list_all_iff opsValid_def)
  let ?d = "fold (opsStep pm) ?adds (initOpsMap data)"
  have log: "opsLog ?d = map (\<lambda>i. (i, c)) [1..<32]"
  proof -
    have "filter (\<lambda>p. 0 < fst p) (opsLog ?d) = opsLog ?d"
      using opsRun(3) [OF valid, of data] by (auto simp: adds filter_id_conv)
    moreover have "filter (\<lambda>p. 0 < fst p) (opsLog ?d) = map (\<lambda>i. (i, c)) [1..<32]"
      using opsRun(2) [OF valid, of 0 data] assms(2) by (simp add: adds filter_map comp_def)
    ultimately show ?thesis by simp
  qed
  let ?es = "?adds @ [LClear 32]"
  have valid': "validRun pm ?es" using valid by (simp add: validRun_def)
  have "opsInv pm ?d" using opsRun(1) [OF valid] by (simp add: opsReady_def)
  then have "opsLog (fold (opsStep pm) ?es (initOpsMap data)) = []"
    using Clear_inv [of pm ?d 32] log by (cases "ClearOpsMapV2 32 ?d") (simp add: OPMAPLIMITCAP_def)
  then have "GetOps pm 0 (fold (opsStep pm) ?es (initOpsMap data)) = Some ([], NoClear)"
    using opsl_GetOps [OF opsRun(1) [OF valid'], of 0 data] by simp
  moreover have "length (commandsAfter 0 ?es) = 31"
    using assms(2) by (simp add: commandsAfter_def adds filter_map comp_def)
  ultimately show ?thesis using valid' by blast
qed

theorem trimmed_log_hides_commands_witness:
  "\<exists>es. validRun (\<lambda>c. Some (cmd_payload c)) es \<and> length (commandsAfter 0 es) = 31 \<and>
    GetOps (\<lambda>c. Some (cmd_payload c)) 0
      (fold (opsStep (\<lambda>c. Some (cmd_payload c))) es (initOpsMap zeroData)) = Some ([], NoClear)"
  using trimmed_log_hides_commands [of "\<lambda>c. Some (cmd_payload c)" "Command 3 ''a''" "''a''" zeroData]
  by (simp add: commandUseForClient_def)

end
