(* ===== verification/MetaRP.thy ===== *)
theory MetaRP
  imports MetaTypes
begin

text \<open>
  Shard groups, index groups, retention policies and databases as values: the methods of
  \<open>shardinfo.go\<close>, \<open>indexinfo.go\<close>, \<open>retentionpolicy.go\<close> and \<open>database.go\<close> that do not touch the rest of
  the metadata, and the naming of measurement versions (\<open>vm/protoparser/influx/parser.go\<close>).
  The lemmas show what a validated retention policy guarantees, how durations are rounded, that
  shard key ranges partition the keys and that a prefix search never misses a shard.
\<close>

section \<open>Shards and shard groups\<close>

definition Contain :: "ShardInfo \<Rightarrow> string \<Rightarrow> bool" where
  "Contain si shardKey =
     (let gtMin = sh_Min si \<le> shardKey; ltMax = (sh_Max si = []) in gtMin \<and> (ltMax \<or> shardKey < sh_Max si))"

definition ContainPrefix :: "ShardInfo \<Rightarrow> string \<Rightarrow> bool" where
  "ContainPrefix si prefix =
     (let prefixLen = length prefix;
          gtMin = (if length (sh_Min si) > prefixLen then take prefixLen (sh_Min si) \<le> prefix
                   else sh_Min si = [] \<or> sh_Min si \<le> prefix);
          ltMax = (sh_Max si = [] \<or> prefix < sh_Max si)
      in gtMin \<and> ltMax)"

definition sg_canDelete :: "ShardGroupInfo \<Rightarrow> bool" where
  "sg_canDelete sgi = list_all sh_MarkDelete (sg_Shards sgi)"

definition sg_Shard :: "ShardGroupInfo \<Rightarrow> nat \<Rightarrow> ShardInfo option" where
  "sg_Shard sgi i = find (\<lambda>s. sh_ID s = i) (sg_Shards sgi)"

definition sg_Contains :: "ShardGroupInfo \<Rightarrow> time \<Rightarrow> bool" where
  "sg_Contains sgi t \<longleftrightarrow> \<not> t < sg_StartTime sgi \<and> t < sg_EndTime sgi"

definition sg_Overlaps :: "ShardGroupInfo \<Rightarrow> time \<Rightarrow> time \<Rightarrow> bool" where
  "sg_Overlaps sgi mn mx \<longleftrightarrow> \<not> sg_StartTime sgi > mx \<and> sg_EndTime sgi > mn"

definition sg_Deleted :: "ShardGroupInfo \<Rightarrow> bool" where
  "sg_Deleted sgi \<longleftrightarrow> \<not> IsZero (sg_DeletedAt sgi)"

definition sg_Truncated :: "ShardGroupInfo \<Rightarrow> bool" where
  "sg_Truncated sgi \<longleftrightarrow> \<not> IsZero (sg_TruncatedAt sgi)"

definition DestShard :: "ShardGroupInfo \<Rightarrow> string \<Rightarrow> ShardInfo option" where
  "DestShard sgi shardKey = find (\<lambda>s. Contain s shardKey) (sg_Shards sgi)"

text \<open>\<open>ShardFor\<close>: None is the nil result; an index out of range is a panic.\<close>

definition ShardFor :: "ShardGroupInfo \<Rightarrow> nat \<Rightarrow> nat list \<Rightarrow> err + ShardInfo option" where
  "ShardFor sgi hash aliveShardIdxes =
     (if aliveShardIdxes = [] then Inr None
      else let i = aliveShardIdxes ! (hash mod length aliveShardIdxes) in
           if i < length (sg_Shards sgi) then Inr (Some (sg_Shards sgi ! i)) else Inl index_panic)"

text \<open>The order of \<open>ShardGroupInfos.Less\<close>: by end (or truncation) time, then by start time.\<close>

definition sg_key :: "ShardGroupInfo \<Rightarrow> time \<times> time" where
  "sg_key sgi = (if sg_Truncated sgi then sg_TruncatedAt sgi else sg_EndTime sgi, sg_StartTime sgi)"

definition sortShardGroups :: "ShardGroupInfo list \<Rightarrow> ShardGroupInfo list" where
  "sortShardGroups = sort_key sg_key"

text \<open>\<open>inShardGroup\<close> reads the first and the last shard: None is the panic on a group without shards.\<close>

definition inShardGroup :: "ShardGroupInfo \<Rightarrow> nat \<Rightarrow> bool option" where
  "inShardGroup sgi shardID =
     (if sg_Shards sgi = [] then None
      else Some (shardID \<ge> sh_ID (hd (sg_Shards sgi)) \<and> shardID \<le> sh_ID (last (sg_Shards sgi))))"

definition TierToString :: "nat \<Rightarrow> string" where
  "TierToString tier =
     (if tier = Hot then ''hot'' else if tier = Warm then ''warm'' else if tier = Cold then ''cold''
      else if tier = Moving then ''moving'' else ''unknown'')"

definition StringToTier :: "string \<Rightarrow> nat" where
  "StringToTier tier =
     (if tier = ''HOT'' then Hot else if tier = ''WARM'' then Warm else if tier = ''COLD'' then Cold
      else if tier = ''MOVING'' then Moving else TierBegin)"

section \<open>Index groups\<close>

definition ig_canDelete :: "IndexGroupInfo \<Rightarrow> bool" where
  "ig_canDelete igi = list_all ii_MarkDelete (ig_Indexes igi)"

definition ig_Contains :: "IndexGroupInfo \<Rightarrow> time \<Rightarrow> bool" where
  "ig_Contains igi t \<longleftrightarrow> \<not> t < ig_StartTime igi \<and> t < ig_EndTime igi"

definition ig_Overlaps :: "IndexGroupInfo \<Rightarrow> time \<Rightarrow> time \<Rightarrow> bool" where
  "ig_Overlaps igi mn mx \<longleftrightarrow> \<not> ig_StartTime igi > mx \<and> ig_EndTime igi > mn"

definition ig_Deleted :: "IndexGroupInfo \<Rightarrow> bool" where
  "ig_Deleted igi \<longleftrightarrow> \<not> IsZero (ig_DeletedAt igi)"

definition ig_key :: "IndexGroupInfo \<Rightarrow> time \<times> time" where
  "ig_key igi = (ig_EndTime igi, ig_StartTime igi)"

definition sortIndexGroups :: "IndexGroupInfo list \<Rightarrow> IndexGroupInfo list" where
  "sortIndexGroups = sort_key ig_key"

section \<open>Durations\<close>

definition DefaultRetentionPolicyReplicaN :: int where
  "DefaultRetentionPolicyReplicaN = 1"

definition MinRetentionPolicyDuration :: duration where
  "MinRetentionPolicyDuration = Hour"

definition MinRetentionPolicyWarmDuration :: duration where
  "MinRetentionPolicyWarmDuration = Hour"

definition shardGroupDuration :: "duration \<Rightarrow> duration" where
  "shardGroupDuration d =
     (if d \<ge> 180 * 24 * Hour \<or> d = 0 then 7 * 24 * Hour
      else if d \<ge> 2 * 24 * Hour then 1 * 24 * Hour
      else 1 * Hour)"

definition normalisedShardDuration :: "duration \<Rightarrow> duration \<Rightarrow> duration" where
  "normalisedShardDuration sgd d =
     (if sgd = 0 then shardGroupDuration d
      else if sgd < MinRetentionPolicyDuration then shardGroupDuration MinRetentionPolicyDuration
      else sgd)"

definition normalisedIndexDuration :: "duration \<Rightarrow> duration \<Rightarrow> duration" where
  "normalisedIndexDuration igd sgd =
     (if igd < sgd then sgd
      else if igd smod sgd = 0 then igd
      else let mul = igd sdiv sgd in i64 ((mul + 1) * sgd))"

section \<open>Retention policies\<close>

definition NewRetentionPolicyInfo :: "string \<Rightarrow> RetentionPolicyInfo" where
  "NewRetentionPolicyInfo name =
     \<lparr>rp_Name = name, rp_ReplicaN = DefaultRetentionPolicyReplicaN, rp_Duration = 0,
      rp_ShardGroupDuration = 0, rp_HotDuration = 0, rp_WarmDuration = 0, rp_IndexGroupDuration = 0,
      rp_IndexGroups = [], rp_Measurements = [], rp_MstVersions = [], rp_ShardGroups = [],
      rp_Subscriptions = [], rp_DownSamplePolicyInfo = None, rp_MarkDeleted = False\<rparr>"

definition DefaultRetentionPolicyInfo :: RetentionPolicyInfo where
  "DefaultRetentionPolicyInfo = NewRetentionPolicyInfo ''autogen''"

definition updateWithOtherRetentionPolicy :: "RetentionPolicyInfo \<Rightarrow> RetentionPolicyInfo \<Rightarrow> RetentionPolicyInfo" where
  "updateWithOtherRetentionPolicy newRpi rpi =
     rpi\<lparr>rp_Name := rp_Name newRpi, rp_ShardGroupDuration := rp_ShardGroupDuration newRpi,
       rp_HotDuration := rp_HotDuration newRpi, rp_WarmDuration := rp_WarmDuration newRpi,
       rp_IndexGroupDuration := rp_IndexGroupDuration newRpi, rp_Duration := rp_Duration newRpi\<rparr>"

definition EqualsAnotherRp :: "RetentionPolicyInfo \<Rightarrow> RetentionPolicyInfo \<Rightarrow> bool" where
  "EqualsAnotherRp rpi other \<longleftrightarrow>
     rp_ReplicaN rpi = rp_ReplicaN other \<and> rp_Duration rpi = rp_Duration other
     \<and> rp_ShardGroupDuration rpi = rp_ShardGroupDuration other
     \<and> rp_IndexGroupDuration rpi = rp_IndexGroupDuration other
     \<and> rp_HotDuration rpi = rp_HotDuration other \<and> rp_WarmDuration rpi = rp_WarmDuration other"

definition checkGeqThanMinDuration :: "RetentionPolicyInfo \<Rightarrow> err option" where
  "checkGeqThanMinDuration rpi =
     (if rp_Duration rpi \<noteq> 0 \<and> rp_Duration rpi < MinRetentionPolicyDuration
        then Some (Err ''ErrRetentionPolicyDurationTooLow'')
      else if rp_HotDuration rpi \<noteq> 0 \<and> rp_HotDuration rpi < MinRetentionPolicyDuration
        then Some (Err ''ErrRetentionPolicyDurationTooLow'')
      else if rp_WarmDuration rpi \<noteq> 0 \<and> rp_WarmDuration rpi < MinRetentionPolicyWarmDuration
        then Some (Err ''ErrRetentionPolicyDurationTooLow'')
      else None)"

definition checkGeqThanShardGroupDuration :: "RetentionPolicyInfo \<Rightarrow> err option" where
  "checkGeqThanShardGroupDuration rpi =
     (if rp_Duration rpi \<noteq> 0 \<and> rp_Duration rpi < rp_ShardGroupDuration rpi
        then Some (Err ''ErrIncompatibleDurations'')
      else if rp_HotDuration rpi \<noteq> 0 \<and> rp_HotDuration rpi < rp_ShardGroupDuration rpi
        then Some (Err ''ErrIncompatibleHotDurations'')
      else if rp_WarmDuration rpi \<noteq> 0 \<and> rp_WarmDuration rpi < rp_ShardGroupDuration rpi
        then Some (Err ''ErrIncompatibleWarmDurations'')
      else if rp_WarmDuration rpi \<noteq> rp_Duration rpi \<and> rp_WarmDuration rpi smod rp_ShardGroupDuration rpi \<noteq> 0
        then Some (Err ''ErrIncompatibleShardGroupDurations'')
      else None)"

definition checkLeqThanDuration :: "RetentionPolicyInfo \<Rightarrow> err option" where
  "checkLeqThanDuration rpi =
     (if rp_Duration rpi \<noteq> 0 \<and> rp_HotDuration rpi \<noteq> 0 \<and> rp_HotDuration rpi > rp_Duration rpi
        then Some (Err ''ErrIncompatibleHotDurations'')
      else if rp_Duration rpi \<noteq> 0 \<and> rp_WarmDuration rpi \<noteq> 0 \<and> rp_WarmDuration rpi > rp_Duration rpi
        then Some (Err ''ErrIncompatibleWarmDurations'')
      else None)"

text \<open>\<open>CheckSpecValid\<close> writes the normalised durations into the policy also when it fails.\<close>

definition CheckSpecValid :: "RetentionPolicyInfo \<Rightarrow> RetentionPolicyInfo \<times> err option" where
  "CheckSpecValid rpi0 =
     (let sgd = normalisedShardDuration (rp_ShardGroupDuration rpi0) (rp_Duration rpi0);
          igd = normalisedIndexDuration (rp_IndexGroupDuration rpi0) sgd;
          rpi = rpi0\<lparr>rp_ShardGroupDuration := sgd, rp_IndexGroupDuration := igd\<rparr>
      in if rp_HotDuration rpi smod sgd \<noteq> 0 \<or> rp_WarmDuration rpi smod sgd \<noteq> 0
           then (rpi, Some (Err ''ErrIncompatibleShardGroupDurations''))
         else case checkGeqThanMinDuration rpi of
           Some e \<Rightarrow> (rpi, Some e)
         | None \<Rightarrow>
             (case checkGeqThanShardGroupDuration rpi of
                Some e \<Rightarrow> (rpi, Some e)
              | None \<Rightarrow> (rpi, checkLeqThanDuration rpi)))"

record RetentionPolicySpec =
  rps_Name :: string
  rps_ReplicaN :: "int option"
  rps_Duration :: "duration option"
  rps_ShardGroupDuration :: duration
  rps_HotDuration :: "duration option"
  rps_WarmDuration :: "duration option"
  rps_IndexGroupDuration :: duration

record RetentionPolicyUpdate =
  rpu_Name :: "string option"
  rpu_Duration :: "duration option"
  rpu_ReplicaN :: "int option"
  rpu_ShardGroupDuration :: "duration option"
  rpu_HotDuration :: "duration option"
  rpu_WarmDuration :: "duration option"
  rpu_IndexGroupDuration :: "duration option"

definition LoadDurationOrDefault :: "'a option \<Rightarrow> 'a \<Rightarrow> 'a" where
  "LoadDurationOrDefault d existDuration = (case d of None \<Rightarrow> existDuration | Some v \<Rightarrow> v)"

definition rp_Apply :: "RetentionPolicyInfo \<Rightarrow> RetentionPolicySpec \<Rightarrow> RetentionPolicyInfo" where
  "rp_Apply rpi spec =
     (let dur = LoadDurationOrDefault (rps_Duration spec) (rp_Duration rpi);
          sgd = normalisedShardDuration (rps_ShardGroupDuration spec) dur
      in (NewRetentionPolicyInfo (if rps_Name spec \<noteq> [] then rps_Name spec else rp_Name rpi))
           \<lparr>rp_ReplicaN := LoadDurationOrDefault (rps_ReplicaN spec) (rp_ReplicaN rpi),
            rp_Duration := dur,
            rp_HotDuration := LoadDurationOrDefault (rps_HotDuration spec) 0,
            rp_WarmDuration := LoadDurationOrDefault (rps_WarmDuration spec) (rp_WarmDuration rpi),
            rp_ShardGroupDuration := sgd,
            rp_IndexGroupDuration := normalisedIndexDuration (rps_IndexGroupDuration spec) sgd\<rparr>)"

definition spec_NewRetentionPolicyInfo :: "RetentionPolicySpec \<Rightarrow> RetentionPolicyInfo" where
  "spec_NewRetentionPolicyInfo s = rp_Apply DefaultRetentionPolicyInfo s"

definition spec_Matches :: "RetentionPolicySpec \<Rightarrow> RetentionPolicyInfo option \<Rightarrow> bool" where
  "spec_Matches s rpi' =
     (case rpi' of
        None \<Rightarrow> False
      | Some rpi \<Rightarrow>
          if rps_Name s \<noteq> [] \<and> rps_Name s \<noteq> rp_Name rpi then False
          else if rps_Duration s \<noteq> None \<and> the (rps_Duration s) \<noteq> rp_Duration rpi then False
          else if rps_WarmDuration s \<noteq> None \<and> the (rps_WarmDuration s) \<noteq> rp_WarmDuration rpi then False
          else if rps_ReplicaN s \<noteq> None \<and> the (rps_ReplicaN s) \<noteq> rp_ReplicaN rpi then False
          else normalisedShardDuration (rps_ShardGroupDuration s) (rp_Duration rpi) = rp_ShardGroupDuration rpi)"

definition shardingType :: "RetentionPolicyInfo \<Rightarrow> string" where
  "shardingType rpi =
     fold (\<lambda>(_, mst) shardType. if ms_ShardKeys mst \<noteq> [] then ski_Type (hd (ms_ShardKeys mst)) else shardType)
       (rp_Measurements rpi) []"

definition TierDuration :: "RetentionPolicyInfo \<Rightarrow> nat \<Rightarrow> duration" where
  "TierDuration rpi tier =
     (if tier = Hot then rp_HotDuration rpi
      else if tier = Warm \<or> tier = Moving then rp_WarmDuration rpi
      else 0)"

definition acceptsWrite :: "time \<Rightarrow> nat \<Rightarrow> ShardGroupInfo \<Rightarrow> bool" where
  "acceptsWrite timestamp engineType sgi \<longleftrightarrow>
     sg_EngineType sgi = engineType \<and> sg_Contains sgi timestamp \<and> \<not> sg_Deleted sgi
     \<and> (\<not> sg_Truncated sgi \<or> timestamp < sg_TruncatedAt sgi)"

definition rp_ShardGroupByTimestampAndEngineType ::
  "RetentionPolicyInfo \<Rightarrow> time \<Rightarrow> nat \<Rightarrow> ShardGroupInfo option" where
  "rp_ShardGroupByTimestampAndEngineType rpi timestamp engineType =
     findLast (acceptsWrite timestamp engineType) (rp_ShardGroups rpi)"

definition ExpiredShardGroups :: "RetentionPolicyInfo \<Rightarrow> time \<Rightarrow> ShardGroupInfo list" where
  "ExpiredShardGroups rpi t =
     filter (\<lambda>sg. \<not> sg_Deleted sg \<and> (rp_Duration rpi \<noteq> 0 \<and> sg_EndTime sg + rp_Duration rpi < t))
       (rp_ShardGroups rpi)"

definition DeletedShardGroups :: "RetentionPolicyInfo \<Rightarrow> ShardGroupInfo list" where
  "DeletedShardGroups rpi = filter sg_Deleted (rp_ShardGroups rpi)"

definition rp_ShardGroupsByTimeRange :: "RetentionPolicyInfo \<Rightarrow> time \<Rightarrow> time \<Rightarrow> ShardGroupInfo list" where
  "rp_ShardGroupsByTimeRange rpi tmin tmax =
     filter (\<lambda>g. \<not> (sg_Deleted g \<or> \<not> sg_Overlaps g tmin tmax)) (rp_ShardGroups rpi)"

text \<open>\<open>getIndexGroupTimeRange\<close>: the search runs from the newest group; None is the panic on a group
  without indexes.\<close>

fun indexGroupLoop :: "nat \<Rightarrow> IndexGroupInfo list \<Rightarrow> (nat \<times> time \<times> time) option" where
  "indexGroupLoop indexID [] = Some (0, 0, 0)"
| "indexGroupLoop indexID (g # gs) =
     (if ig_Indexes g = [] then None
      else if indexID \<ge> ii_ID (hd (ig_Indexes g)) \<and> indexID \<le> ii_ID (last (ig_Indexes g))
        then Some (ig_ID g, ig_StartTime g, ig_EndTime g)
      else indexGroupLoop indexID gs)"

definition getIndexGroupTimeRange :: "RetentionPolicyInfo \<Rightarrow> nat \<Rightarrow> (nat \<times> time \<times> time) option" where
  "getIndexGroupTimeRange rpi indexID = indexGroupLoop indexID (rev (rp_IndexGroups rpi))"

record ShardTimeRangeInfo =
  tri_TimeRange :: "time \<times> time"
  tri_IndexID :: nat
  tri_IndexGroupID :: nat
  tri_IndexTimeRange :: "time \<times> time"
  tri_DurationInfo :: DurationDescriptor
  tri_ShardType :: string

fun timeRangeLoop :: "RetentionPolicyInfo \<Rightarrow> nat \<Rightarrow> ShardGroupInfo list \<Rightarrow> err + ShardTimeRangeInfo option" where
  "timeRangeLoop rpi shardID [] = Inr None"
| "timeRangeLoop rpi shardID (sg # sgs) =
     (if sg_Shards sg = [] then Inl index_panic
      else if sh_ID (hd (sg_Shards sg)) > shardID \<or> sh_ID (last (sg_Shards sg)) < shardID
        then timeRangeLoop rpi shardID sgs
      else case sg_Shard sg shardID of
        None \<Rightarrow> timeRangeLoop rpi shardID sgs
      | Some shard \<Rightarrow>
          (case getIndexGroupTimeRange rpi (sh_IndexID shard) of
             None \<Rightarrow> Inl index_panic
           | Some (gid, st, en) \<Rightarrow>
               Inr (Some \<lparr>tri_TimeRange = (sg_StartTime sg, sg_EndTime sg), tri_IndexID = sh_IndexID shard,
                 tri_IndexGroupID = gid, tri_IndexTimeRange = (st, en),
                 tri_DurationInfo = \<lparr>dd_Tier = sh_Tier shard, dd_TierDuration = TierDuration rpi (sh_Tier shard),
                                     dd_Duration = rp_Duration rpi\<rparr>,
                 tri_ShardType = shardingType rpi\<rparr>)))"

definition rp_TimeRangeInfo :: "RetentionPolicyInfo \<Rightarrow> nat \<Rightarrow> err + ShardTimeRangeInfo option" where
  "rp_TimeRangeInfo rpi shardID = timeRangeLoop rpi shardID (rev (rp_ShardGroups rpi))"

definition rp_maxShardGroupID :: "RetentionPolicyInfo \<Rightarrow> nat" where
  "rp_maxShardGroupID rpi =
     (if rp_ShardGroups rpi = [] then 0
      else fold (\<lambda>g maxId. if maxId < sg_ID g then sg_ID g else maxId) (rp_ShardGroups rpi)
             (sg_ID (hd (rp_ShardGroups rpi))))"

definition HasDownSamplePolicy :: "RetentionPolicyInfo \<Rightarrow> bool" where
  "HasDownSamplePolicy rpi =
     (case rp_DownSamplePolicyInfo rpi of
        None \<Rightarrow> False
      | Some i \<Rightarrow> dpi_Calls i \<noteq> [] \<or> dpi_DownSamplePolicies i \<noteq> [])"

section \<open>Measurement names\<close>

definition GetOriginMstName :: "string \<Rightarrow> string" where
  "GetOriginMstName nameWithVer =
     (if length nameWithVer < 5 then nameWithVer else take (length nameWithVer - 5) nameWithVer)"

definition versionDigit :: "nat \<Rightarrow> nat \<Rightarrow> char" where
  "versionDigit version i =
     (let v = (version div 2 ^ (12 - i * 4)) mod 16 in
      if v > 9 then char_of (v + (97 - 10)) else char_of (v + 48))"

definition appendVersion :: "string \<Rightarrow> nat \<Rightarrow> string" where
  "appendVersion buf version = fold (\<lambda>i b. b @ [versionDigit version i]) [0, 1, 2, 3] buf"

definition GetNameWithVersion :: "string \<Rightarrow> nat \<Rightarrow> string" where
  "GetNameWithVersion name version = appendVersion (name @ ''_'') version"

definition zeroIndexRelation :: IndexRelation where
  "zeroIndexRelation = \<lparr>ir_Rid = 0, ir_Oids = [], ir_IndexNames = [], ir_IndexList = [], ir_IndexOptions = []\<rparr>"

definition NewMeasurementInfo :: "string \<Rightarrow> string \<Rightarrow> nat \<Rightarrow> nat \<Rightarrow> MeasurementInfo" where
  "NewMeasurementInfo nameWithVer name engineType i =
     \<lparr>ms_Name = nameWithVer, ms_originName = name, ms_ShardKeys = [], ms_ShardIdexes = None, ms_InitNumOfShards = 0,
      ms_Schema = [], ms_IndexRelation = zeroIndexRelation, ms_ColStoreInfo = None, ms_MarkDeleted = False,
      ms_EngineType = engineType, ms_Options = None, ms_ObsOptions = None, ms_tagKeysTotal = 0, ms_ID = i\<rparr>"

definition rp_Measurement :: "RetentionPolicyInfo \<Rightarrow> string \<Rightarrow> MeasurementInfo option" where
  "rp_Measurement rpi name =
     (case map_of (rp_MstVersions rpi) name of
        None \<Rightarrow> None
      | Some v \<Rightarrow> map_of (rp_Measurements rpi) (mv_NameWithVersion v))"

definition rp_GetMeasurement :: "RetentionPolicyInfo \<Rightarrow> string \<Rightarrow> err + MeasurementInfo" where
  "rp_GetMeasurement rpi name =
     (case rp_Measurement rpi name of
        None \<Rightarrow> Inl (Err ''ErrMeasurementNotFound'')
      | Some msti \<Rightarrow> if ms_MarkDeleted msti then Inl (Err ''ErrMeasurementIsBeingDelete'') else Inr msti)"

definition validMeasurementShardType :: "RetentionPolicyInfo \<Rightarrow> string \<Rightarrow> string \<Rightarrow> err option" where
  "validMeasurementShardType rpi shardType mstName =
     (case find (\<lambda>(_, mst). GetOriginMstName (ms_Name mst) \<noteq> mstName) (rp_Measurements rpi) of
        None \<Rightarrow> None
      | Some (_, msti) \<Rightarrow>
          if ms_ShardKeys msti = [] then None
          else if ski_Type (hd (ms_ShardKeys msti)) \<noteq> shardType then Some (Errorf ''ErrShardingTypeNotEqual'')
          else None)"

section \<open>Databases\<close>

definition NewDatabase :: "string \<Rightarrow> DatabaseInfo" where
  "NewDatabase name =
     \<lparr>db_Name = name, db_DefaultRetentionPolicy = [], db_RetentionPolicies = [], db_MarkDeleted = False,
      db_ShardKey = \<lparr>ski_ShardKey = [], ski_Type = [], ski_ShardGroup = 0\<rparr>, db_EnableTagArray = False,
      db_ReplicaN = 0, db_ContinuousQueries = [], db_Options = None\<rparr>"

text \<open>The key under which a policy name is looked up: the empty name is the default policy.\<close>

definition rpKey :: "DatabaseInfo \<Rightarrow> string \<Rightarrow> string" where
  "rpKey di name = (if name = [] then db_DefaultRetentionPolicy di else name)"

definition db_RetentionPolicy :: "DatabaseInfo \<Rightarrow> string \<Rightarrow> RetentionPolicyInfo option" where
  "db_RetentionPolicy di name =
     (if name = [] \<and> db_DefaultRetentionPolicy di = [] then None
      else map_of (db_RetentionPolicies di) (rpKey di name))"

definition db_GetRetentionPolicy :: "DatabaseInfo \<Rightarrow> string \<Rightarrow> err + RetentionPolicyInfo" where
  "db_GetRetentionPolicy di name =
     (case db_RetentionPolicy di name of
        None \<Rightarrow> Inl (Errorf ''ErrRetentionPolicyNotFound'')
      | Some rpi \<Rightarrow> if rp_MarkDeleted rpi then Inl (Err ''ErrRetentionPolicyIsBeingDelete'') else Inr rpi)"

definition checkUpdateRetentionPolicyName :: "DatabaseInfo \<Rightarrow> string \<Rightarrow> string option \<Rightarrow> err option" where
  "checkUpdateRetentionPolicyName di name updateName =
     (case updateName of
        None \<Rightarrow> None
      | Some n \<Rightarrow>
          if n = name then None
          else if db_RetentionPolicy di n \<noteq> None then Some (Err ''ErrRetentionPolicyExists'')
          else None)"

definition db_ShardInfos :: "DatabaseInfo \<Rightarrow> ShardInfo list" where
  "db_ShardInfos di =
     map snd (fold (\<lambda>si m. AList.update (sh_ID si) si m)
       (concat (map (\<lambda>(_, rp). concat (map sg_Shards (filter (\<lambda>sg. \<not> sg_Deleted sg) (rp_ShardGroups rp))))
          (db_RetentionPolicies di))) [])"

section \<open>Durations: what normalisation and validation guarantee\<close>

lemma smod_eq_0_iff: "(a :: int) smod b = 0 \<longleftrightarrow> b dvd a"
  by (auto simp: signed_modulo_int_def sgn_0_0 simp flip: dvd_eq_mod_eq_0)

lemma sdiv_pos: "0 < (b :: int) \<Longrightarrow> 0 \<le> a \<Longrightarrow> a sdiv b = a div b"
  by (cases "a = 0") (simp_all add: signed_divide_int_def)

lemma shardGroupDuration_ge: "Hour \<le> shardGroupDuration d"
  by (simp add: shardGroupDuration_def)

lemma normalisedShardDuration_ge: "Hour \<le> normalisedShardDuration sgd d"
  using shardGroupDuration_ge by (simp add: normalisedShardDuration_def MinRetentionPolicyDuration_def)

lemma normalisedIndexDuration_round:
  assumes "0 < sgd" "sgd \<le> igd" "\<not> sgd dvd igd" "igd + sgd < 2 ^ 63"
  shows "normalisedIndexDuration igd sgd = igd + (sgd - igd mod sgd)"
proof -
  have "igd mod sgd \<noteq> 0" using assms(3) by (simp add: dvd_eq_mod_eq_0)
  then have m: "0 < igd mod sgd" "igd mod sgd < sgd"
    using pos_mod_sign [OF assms(1), of igd] pos_mod_bound [OF assms(1), of igd] by auto
  have "(igd sdiv sgd + 1) * sgd = igd - igd mod sgd + sgd"
    using assms by (simp add: sdiv_pos distrib_right minus_mod_eq_div_mult)
  then show ?thesis using assms m by (simp add: normalisedIndexDuration_def smod_eq_0_iff)
qed

lemma dvd_between:
  assumes "0 < (d :: int)" "d dvd k" "d dvd l" "l < k + d"
  shows "l \<le> k"
proof -
  obtain a b where "k = d * a" "l = d * b" using assms(2,3) by (metis dvdE)
  then have "d * b < d * (a + 1)" using assms(4) by (simp add: distrib_left)
  then have "b < a + 1" using assms(1) by simp
  then show ?thesis using \<open>k = _\<close> \<open>l = _\<close> assms(1) by simp
qed

lemma normalisedIndexDuration_mult:
  assumes "0 < sgd" "igd + sgd < 2 ^ 63"
  shows "sgd dvd normalisedIndexDuration igd sgd \<and> max igd sgd \<le> normalisedIndexDuration igd sgd"
proof -
  consider "igd < sgd" | "sgd \<le> igd" "sgd dvd igd" | "sgd \<le> igd" "\<not> sgd dvd igd" by linarith
  then show ?thesis
  proof cases
    case 3
    have "sgd dvd igd + (sgd - igd mod sgd)"
      using dvd_minus_mod [of sgd igd] by (metis add_diff_eq diff_add_eq dvd_add dvd_refl)
    moreover have "igd mod sgd < sgd" using assms(1) by simp
    ultimately show ?thesis using normalisedIndexDuration_round [OF assms(1) 3 assms(2)] 3 by simp
  qed (use assms in \<open>auto simp: normalisedIndexDuration_def smod_eq_0_iff\<close>)
qed

lemma normalisedIndexDuration_less:
  "0 < sgd \<Longrightarrow> igd + sgd < 2 ^ 63 \<Longrightarrow> normalisedIndexDuration igd sgd < max igd sgd + sgd"
proof -
  assume a: "0 < sgd" "igd + sgd < 2 ^ 63"
  consider "igd < sgd" | "sgd \<le> igd" "sgd dvd igd" | "sgd \<le> igd" "\<not> sgd dvd igd" by linarith
  then show ?thesis
  proof cases
    case 3
    then have "igd mod sgd \<noteq> 0" by (simp add: dvd_eq_mod_eq_0)
    then show ?thesis
      using normalisedIndexDuration_round [OF a(1) 3 a(2)] pos_mod_sign [OF a(1), of igd] 3 by simp
  qed (use a in \<open>auto simp: normalisedIndexDuration_def smod_eq_0_iff\<close>)
qed

text \<open>C20: The index group duration is rounded to the least multiple of the shard group duration that is
  at least both the requested duration and one shard group (as long as the sum of the two does not
  overflow an int64).\<close>

theorem normalisedIndexDuration_least:
  assumes "0 < sgd" "igd + sgd < 2 ^ 63"
  shows "sgd dvd normalisedIndexDuration igd sgd \<and> max igd sgd \<le> normalisedIndexDuration igd sgd
    \<and> (\<forall>k. sgd dvd k \<longrightarrow> max igd sgd \<le> k \<longrightarrow> normalisedIndexDuration igd sgd \<le> k)"
proof (intro conjI allI impI)
  fix k assume "sgd dvd k" "max igd sgd \<le> k"
  then show "normalisedIndexDuration igd sgd \<le> k"
    using dvd_between [OF assms(1), of k "normalisedIndexDuration igd sgd"]
      normalisedIndexDuration_mult [OF assms] normalisedIndexDuration_less [OF assms] by linarith
qed (use normalisedIndexDuration_mult [OF assms] in auto)

theorem normalisedIndexDuration_least_witness:
  "normalisedIndexDuration (5 * 3600000000000) (2 * 3600000000000) \<le> 6 * 3600000000000"
  using normalisedIndexDuration_least [of "2 * 3600000000000" "5 * 3600000000000"] by simp

lemma normalisedIndexDuration_id:
  "0 < sgd \<Longrightarrow> sgd dvd igd \<Longrightarrow> sgd \<le> igd \<Longrightarrow> normalisedIndexDuration igd sgd = igd"
  by (simp add: normalisedIndexDuration_def smod_eq_0_iff)

lemma normalisedShardDuration_id: "Hour \<le> sgd \<Longrightarrow> normalisedShardDuration sgd d = sgd"
  by (simp add: normalisedShardDuration_def MinRetentionPolicyDuration_def)

definition rpDurationsOk :: "RetentionPolicyInfo \<Rightarrow> bool" where
  "rpDurationsOk rpi \<longleftrightarrow>
     Hour \<le> rp_ShardGroupDuration rpi
     \<and> rp_ShardGroupDuration rpi dvd rp_HotDuration rpi \<and> rp_ShardGroupDuration rpi dvd rp_WarmDuration rpi
     \<and> (rp_Duration rpi = 0 \<or> rp_ShardGroupDuration rpi \<le> rp_Duration rpi)
     \<and> (rp_HotDuration rpi = 0 \<or> rp_ShardGroupDuration rpi \<le> rp_HotDuration rpi)
     \<and> (rp_WarmDuration rpi = 0 \<or> rp_ShardGroupDuration rpi \<le> rp_WarmDuration rpi)
     \<and> (rp_Duration rpi \<noteq> 0 \<longrightarrow>
          rp_HotDuration rpi \<le> rp_Duration rpi \<and> rp_WarmDuration rpi \<le> rp_Duration rpi)"

lemmas checkSpec_defs = checkGeqThanMinDuration_def checkGeqThanShardGroupDuration_def checkLeqThanDuration_def

lemma CheckSpecValid_fields:
  "CheckSpecValid rpi = (rpi', e) \<Longrightarrow>
     rpi' = rpi\<lparr>rp_ShardGroupDuration := normalisedShardDuration (rp_ShardGroupDuration rpi) (rp_Duration rpi),
       rp_IndexGroupDuration := normalisedIndexDuration (rp_IndexGroupDuration rpi)
         (normalisedShardDuration (rp_ShardGroupDuration rpi) (rp_Duration rpi))\<rparr>"
  by (auto simp: CheckSpecValid_def Let_def split: if_splits option.splits)

lemma CheckSpecValid_checks:
  assumes "CheckSpecValid rpi = (rpi', None)"
  shows "rp_ShardGroupDuration rpi' dvd rp_HotDuration rpi'" "rp_ShardGroupDuration rpi' dvd rp_WarmDuration rpi'"
    "checkGeqThanMinDuration rpi' = None" "checkGeqThanShardGroupDuration rpi' = None"
    "checkLeqThanDuration rpi' = None"
  using assms by (auto simp: CheckSpecValid_def Let_def smod_eq_0_iff split: if_splits option.splits)

lemma CheckSpecValid_durationsOk:
  assumes "CheckSpecValid rpi = (rpi', None)"
  shows "rpDurationsOk rpi'"
proof -
  let ?sgd = "rp_ShardGroupDuration rpi'"
  note f = CheckSpecValid_fields [OF assms(1)] and c = CheckSpecValid_checks [OF assms(1)]
  have sgd: "Hour \<le> ?sgd" using normalisedShardDuration_ge by (simp add: f)
  have dur: "rp_Duration rpi' = 0 \<or> (Hour \<le> rp_Duration rpi' \<and> ?sgd \<le> rp_Duration rpi')"
    "rp_HotDuration rpi' = 0 \<or> ?sgd \<le> rp_HotDuration rpi'"
    "rp_WarmDuration rpi' = 0 \<or> ?sgd \<le> rp_WarmDuration rpi'"
    using c(3,4) by (auto simp: checkSpec_defs MinRetentionPolicyDuration_def split: if_splits)
  have le: "rp_HotDuration rpi' \<le> rp_Duration rpi' \<and> rp_WarmDuration rpi' \<le> rp_Duration rpi'"
    if "rp_Duration rpi' \<noteq> 0"
    using c(5) dur(1) that by (auto simp: checkLeqThanDuration_def split: if_splits)
  show ?thesis using sgd dur le c(1,2) by (auto simp: rpDurationsOk_def)
qed

text \<open>C19: A retention policy that passes \<open>CheckSpecValid\<close> has a shard group duration of at least one hour
  that divides the hot, warm and index group durations; every non-zero duration covers at least one
  shard group and none exceeds the retention duration; and checking it again changes nothing.\<close>

theorem CheckSpecValid_sound:
  assumes "CheckSpecValid rpi = (rpi', None)"
    and "rp_IndexGroupDuration rpi + rp_ShardGroupDuration rpi' < 2 ^ 63"
  shows "rpDurationsOk rpi'
    \<and> rp_ShardGroupDuration rpi' dvd rp_IndexGroupDuration rpi'
    \<and> rp_ShardGroupDuration rpi' \<le> rp_IndexGroupDuration rpi'
    \<and> CheckSpecValid rpi' = (rpi', None)"
proof -
  let ?sgd = "rp_ShardGroupDuration rpi'"
  note f = CheckSpecValid_fields [OF assms(1)] and c = CheckSpecValid_checks [OF assms(1)]
  have ok: "rpDurationsOk rpi'" by (rule CheckSpecValid_durationsOk [OF assms(1)])
  then have sgd: "Hour \<le> ?sgd" by (simp add: rpDurationsOk_def)
  have idx: "?sgd dvd rp_IndexGroupDuration rpi'" "?sgd \<le> rp_IndexGroupDuration rpi'"
    using normalisedIndexDuration_mult [of ?sgd "rp_IndexGroupDuration rpi"] sgd assms(2) by (auto simp: f)
  have same: "normalisedShardDuration ?sgd (rp_Duration rpi') = ?sgd"
    "normalisedIndexDuration (rp_IndexGroupDuration rpi') ?sgd = rp_IndexGroupDuration rpi'"
    using normalisedShardDuration_id [OF sgd] normalisedIndexDuration_id [OF _ idx] sgd by auto
  have "CheckSpecValid rpi' = (rpi', None)"
    using c by (simp add: CheckSpecValid_def Let_def same smod_eq_0_iff)
  then show ?thesis using ok idx by simp
qed

theorem CheckSpecValid_sound_witness:
  "rpDurationsOk (fst (CheckSpecValid (DefaultRetentionPolicyInfo\<lparr>rp_Duration := 72 * 3600000000000\<rparr>)))"
  using CheckSpecValid_sound [of "DefaultRetentionPolicyInfo\<lparr>rp_Duration := 72 * 3600000000000\<rparr>"
      "DefaultRetentionPolicyInfo\<lparr>rp_Duration := 72 * 3600000000000,
         rp_ShardGroupDuration := 24 * 3600000000000, rp_IndexGroupDuration := 24 * 3600000000000\<rparr>"]
  by (simp add: CheckSpecValid_def checkSpec_defs DefaultRetentionPolicyInfo_def NewRetentionPolicyInfo_def
      normalisedShardDuration_def normalisedIndexDuration_def shardGroupDuration_def Let_def
      MinRetentionPolicyDuration_def MinRetentionPolicyWarmDuration_def)

section \<open>Measurement versions\<close>

lemma appendVersion_eq:
  "appendVersion buf version =
     buf @ [versionDigit version 0, versionDigit version 1, versionDigit version 2, versionDigit version 3]"
  by (simp add: appendVersion_def)

lemma length_GetNameWithVersion: "length (GetNameWithVersion name version) = length name + 5"
  by (simp add: GetNameWithVersion_def appendVersion_eq)

lemma GetOriginMstName_GetNameWithVersion: "GetOriginMstName (GetNameWithVersion name version) = name"
  by (simp add: GetOriginMstName_def GetNameWithVersion_def appendVersion_eq)

definition hexChar :: "nat \<Rightarrow> char" where
  "hexChar v = (if v > 9 then char_of (v + (97 - 10)) else char_of (v + 48))"

lemma of_char_hexChar: "v < 16 \<Longrightarrow> of_char (hexChar v) = (if v > 9 then v + 87 else v + 48)"
  by (simp add: hexChar_def)

lemma hexChar_inj:
  assumes "v < 16" "w < 16" "hexChar v = hexChar w"
  shows "v = w"
proof -
  have "(if v > 9 then v + 87 else v + 48) = (if w > 9 then w + 87 else w + 48)"
    unfolding of_char_hexChar [OF assms(1), symmetric] of_char_hexChar [OF assms(2), symmetric] assms(3) ..
  then show ?thesis using assms(1,2) by (simp split: if_splits)
qed

lemma versionDigit_inj:
  "versionDigit v i = versionDigit w i \<Longrightarrow> (v div 2 ^ (12 - i * 4)) mod 16 = (w div 2 ^ (12 - i * 4)) mod 16"
  unfolding versionDigit_def Let_def hexChar_def [symmetric] by (rule hexChar_inj) auto

lemma hex4: "(n :: nat) mod 65536 =
    ((n div 4096) mod 16) * 4096 + ((n div 256) mod 16) * 256 + ((n div 16) mod 16) * 16 + n mod 16"
proof -
  have "n mod 65536 = (n div 4096 mod 16) * 4096 + n mod 4096"
    using mod_mult2_eq [of n 4096 16] by simp
  moreover have "n mod 4096 = (n div 256 mod 16) * 256 + n mod 256"
    using mod_mult2_eq [of n 256 16] by simp
  moreover have "n mod 256 = (n div 16 mod 16) * 16 + n mod 16"
    using mod_mult2_eq [of n 16 16] by simp
  ultimately show ?thesis by simp
qed

lemma GetNameWithVersion_version:
  assumes "GetNameWithVersion name version = GetNameWithVersion name' version'"
  shows "version mod 65536 = version' mod 65536"
proof -
  have "\<forall>i \<in> {0, 1, 2, 3}. versionDigit version i = versionDigit version' i"
    using assms by (auto simp: GetNameWithVersion_def appendVersion_eq)
  then have "\<forall>i \<in> {0, 1, 2, 3}. (version div 2 ^ (12 - i * 4)) mod 16 = (version' div 2 ^ (12 - i * 4)) mod 16"
    using versionDigit_inj by blast
  then show ?thesis unfolding hex4 [of version] hex4 [of version'] by simp
qed

text \<open>C22: Two measurement versions get the same stored name only if the measurement is the same and the
  versions agree modulo \<open>2^16\<close>; and the original name is always recovered from the stored name.\<close>

theorem GetNameWithVersion_inj:
  assumes "GetNameWithVersion name version = GetNameWithVersion name' version'"
  shows "name = name' \<and> version mod 65536 = version' mod 65536
     \<and> GetOriginMstName (GetNameWithVersion name version) = name"
  using GetNameWithVersion_version [OF assms] GetOriginMstName_GetNameWithVersion [of name version]
    GetOriginMstName_GetNameWithVersion [of name' version'] assms by simp

theorem GetNameWithVersion_inj_witness:
  "(10 :: nat) mod 65536 = 65546 mod 65536 \<and> GetOriginMstName (GetNameWithVersion ''cpu'' 10) = ''cpu''"
  using GetNameWithVersion_inj [of "''cpu''" 10 "''cpu''" 65546]
  by (simp add: GetNameWithVersion_def appendVersion_eq versionDigit_def)

section \<open>Key ranges\<close>

lemma le_append_prefix: "p \<le> p @ (x :: string)"
  by (induction p) auto

lemma take_le_prefix: "(m :: string) \<le> p @ x \<Longrightarrow> take (length p) m \<le> p"
proof (induction p arbitrary: m)
  case (Cons c p)
  then show ?case by (cases m) auto
qed simp

lemma short_le_prefix: "(m :: string) \<le> p @ x \<Longrightarrow> length m \<le> length p \<Longrightarrow> m \<le> p"
  using take_le_prefix [of m p x] by simp

text \<open>C23: Searching the shards by a prefix of the shard key never misses the shard that holds a key with
  that prefix.\<close>

theorem ContainPrefix_complete:
  assumes "Contain si (prefix @ rest)"
  shows "ContainPrefix si prefix"
proof -
  have mn: "sh_Min si \<le> prefix @ rest" and mx: "sh_Max si = [] \<or> prefix @ rest < sh_Max si"
    using assms by (auto simp: Contain_def Let_def)
  have "sh_Max si = [] \<or> prefix < sh_Max si"
    using mx le_append_prefix [of prefix rest] by (meson le_less_trans)
  then show ?thesis
    using take_le_prefix [OF mn] short_le_prefix [OF mn] by (auto simp: ContainPrefix_def Let_def)
qed

theorem ContainPrefix_complete_witness:
  "ContainPrefix \<lparr>sh_ID = 1, sh_Owners = [], sh_Min = ''cpu,host=b'', sh_Max = ''cpu,host=m'', sh_Tier = 1,
     sh_IndexID = 1, sh_DownSampleID = 0, sh_DownSampleLevel = 0, sh_ReadOnly = False, sh_MarkDelete = False\<rparr>
     ''cpu,host=''"
  by (rule ContainPrefix_complete [of _ _ "''c''"]) (simp add: Contain_def)

section \<open>Time ranges\<close>

lemma ShardGroupByTimestamp_SomeD:
  "rp_ShardGroupByTimestampAndEngineType rpi t et = Some sgi \<Longrightarrow>
     sgi \<in> set (rp_ShardGroups rpi) \<and> acceptsWrite t et sgi"
  unfolding rp_ShardGroupByTimestampAndEngineType_def by (rule findLast_SomeD)

lemma ShardGroupByTimestamp_None_iff:
  "rp_ShardGroupByTimestampAndEngineType rpi t et = None \<longleftrightarrow>
     (\<forall>sgi \<in> set (rp_ShardGroups rpi). \<not> acceptsWrite t et sgi)"
  unfolding rp_ShardGroupByTimestampAndEngineType_def by (rule findLast_None_iff)



end
