(* ===== verification/MetaPt.thy ===== *)
theory MetaPt
  imports MetaTypes
begin

text \<open>
  Partitions (PTs) and replica groups: \<open>replication.go\<close> and the partition functions of \<open>data.go\<close>. Every
  database has a view, one \<open>PtInfo\<close> per partition with the node that owns it, and under the
  replication policy a list of groups of partitions that hold the same data, with a master and peers.
  The lemmas show the round-robin assignment, the shape of the groups that the join loop builds, the
  majority rule of the health states and that an election only permutes the members of a group.
\<close>

section \<open>Lookups\<close>

definition IsNodeWriter :: "string \<Rightarrow> bool" where
  "IsNodeWriter role \<longleftrightarrow> role = ''writer'' \<or> role = []"

definition IsNodeReader :: "string \<Rightarrow> bool" where
  "IsNodeReader role \<longleftrightarrow> role = ''reader''"

definition data_DataNode :: "nat \<Rightarrow> 'c Data \<Rightarrow> DataNode option" where
  "data_DataNode i data = find (\<lambda>n. ni_ID n = i) (DataNodes data)"

definition DBPtView :: "string \<Rightarrow> 'c Data \<Rightarrow> PtInfo list" where
  "DBPtView name data = (case map_of (PtView data) name of None \<Rightarrow> [] | Some v \<Rightarrow> v)"

definition DBRepGroups :: "string \<Rightarrow> 'c Data \<Rightarrow> ReplicaGroup list" where
  "DBRepGroups name data = (case map_of (ReplicaGroups data) name of None \<Rightarrow> [] | Some v \<Rightarrow> v)"

text \<open>\<open>DBReplicaN\<close> dereferences the database entry: None is the panic on an unknown database.\<close>

definition DBReplicaN :: "string \<Rightarrow> 'c Data \<Rightarrow> int option" where
  "DBReplicaN db data =
     map_option (\<lambda>di. if db_ReplicaN di = 0 then 1 else db_ReplicaN di) (map_of (Databases data) db)"

definition GetReplicaN :: "string \<Rightarrow> 'c Data \<Rightarrow> int \<times> bool" where
  "GetReplicaN db data =
     (case map_of (Databases data) db of
        None \<Rightarrow> (0, False)
      | Some di \<Rightarrow> if db_ReplicaN di = 0 then (1, True) else (db_ReplicaN di, True))"

definition GetWriteNode :: "'c Data \<Rightarrow> DataNode list" where
  "GetWriteNode data = filter (\<lambda>n. IsNodeWriter (ni_Role n)) (DataNodes data)"

definition GetWriteNodeNum :: "'c Data \<Rightarrow> nat" where
  "GetWriteNodeNum data = u32 (length (GetWriteNode data))"

definition GetAliveWriteNode :: "'c Data \<Rightarrow> DataNode list" where
  "GetAliveWriteNode data =
     filter (\<lambda>n. IsNodeWriter (ni_Role n) \<and> ni_Status n = StatusAlive \<and> ni_SegregateStatus n = Normal)
       (DataNodes data)"

definition GetReplicaGroup :: "string \<Rightarrow> nat \<Rightarrow> 'c Data \<Rightarrow> ReplicaGroup option" where
  "GetReplicaGroup db groupID data = find (\<lambda>g. rg_ID g = groupID) (DBRepGroups db data)"

definition GetPtInfo :: "string \<Rightarrow> nat \<Rightarrow> 'c Data \<Rightarrow> PtInfo option" where
  "GetPtInfo name ptID data = find (\<lambda>p. pt_PtId p = ptID) (DBPtView name data)"

text \<open>\<open>GetRGOfPtFast\<close> indexes the groups by the group id: an id out of range is a panic.\<close>

definition GetRGOfPtFast :: "nat \<Rightarrow> string \<Rightarrow> 'c Data \<Rightarrow> err + ReplicaGroup option" where
  "GetRGOfPtFast rgId database data =
     (case map_of (ReplicaGroups data) database of
        None \<Rightarrow> Inr None
      | Some rgs \<Rightarrow> if rgId < length rgs then Inr (Some (rgs ! rgId)) else Inl index_panic)"

definition GetNodeDBPts :: "PtInfo list \<Rightarrow> nat \<Rightarrow> nat list" where
  "GetNodeDBPts ptis nodeId = map pt_PtId (filter (\<lambda>p. pt_Owner p = nodeId) ptis)"

definition getNodeStatus :: "nat \<Rightarrow> 'c Data \<Rightarrow> int \<times> bool" where
  "getNodeStatus i data =
     (case data_DataNode i data of None \<Rightarrow> (StatusNone, False) | Some n \<Rightarrow> (ni_Status n, True))"

section \<open>States of a replica group\<close>

definition NewReplicaGroup :: "nat \<Rightarrow> nat \<Rightarrow> Peer list \<Rightarrow> nat \<Rightarrow> nat \<Rightarrow> ReplicaGroup" where
  "NewReplicaGroup i masterPtId peers status term =
     \<lparr>rg_ID = i, rg_MasterPtID = masterPtId, rg_Peers = peers, rg_Status = status, rg_Term = term\<rparr>"

definition rg_hasPt :: "ReplicaGroup \<Rightarrow> nat \<Rightarrow> bool" where
  "rg_hasPt rg ptId \<longleftrightarrow> rg_MasterPtID rg = ptId \<or> (\<exists>p \<in> set (rg_Peers rg). pe_ID p = ptId)"

definition addPeer :: "nat \<Rightarrow> ReplicaGroup \<Rightarrow> ReplicaGroup" where
  "addPeer ptId rg = rg\<lparr>rg_Peers := rg_Peers rg @ [\<lparr>pe_ID = ptId, pe_PtRole = Slave\<rparr>]\<rparr>"

definition nextUnFull :: "int \<Rightarrow> ReplicaGroup \<Rightarrow> ReplicaGroup" where
  "nextUnFull replicasN rg =
     (if rg_Status rg \<noteq> UnFull then rg
      else if replicasN = int (length (rg_Peers rg)) + 1 then rg\<lparr>rg_Status := SubHealth\<rparr>
      else rg)"

definition countOnline :: "PtInfo list \<Rightarrow> nat \<Rightarrow> nat" where
  "countOnline ptView ptId = length (filter (\<lambda>p. pt_PtId p = ptId \<and> pt_Status p = Online) ptView)"

definition onlinePtN :: "PtInfo list \<Rightarrow> ReplicaGroup \<Rightarrow> nat" where
  "onlinePtN ptView rg =
     fold (\<lambda>p n. n + countOnline ptView (pe_ID p)) (rg_Peers rg) (countOnline ptView (rg_MasterPtID rg))"

definition rg_nextSubHealth :: "PtInfo list \<Rightarrow> ReplicaGroup \<Rightarrow> ReplicaGroup" where
  "rg_nextSubHealth ptView rg =
     (if rg_Status rg \<noteq> SubHealth then rg
      else let replicasN = length (rg_Peers rg) + 1 in
           if onlinePtN ptView rg > replicasN div 2 then rg\<lparr>rg_Status := Health\<rparr> else rg)"

definition rg_nextHealth :: "PtInfo list \<Rightarrow> int \<Rightarrow> ReplicaGroup \<Rightarrow> ReplicaGroup" where
  "rg_nextHealth ptView replicasN rg =
     (if rg_Status rg \<noteq> Health then rg
      else if int (onlinePtN ptView rg) \<le> replicasN sdiv 2 then rg\<lparr>rg_Status := SubHealth\<rparr>
      else rg)"

definition GetPtRole :: "ReplicaGroup \<Rightarrow> nat \<Rightarrow> nat" where
  "GetPtRole rg ptID =
     (case find (\<lambda>p. pe_ID p = ptID) (rg_Peers rg) of Some p \<Rightarrow> pe_PtRole p | None \<Rightarrow> Catcher)"

definition IsMasterPt :: "ReplicaGroup \<Rightarrow> nat \<Rightarrow> bool" where
  "IsMasterPt rg ptID \<longleftrightarrow> ptID = rg_MasterPtID rg"

text \<open>Writing through the pointer that \<open>GetRGOfPtFast\<close> returned.\<close>

definition putRG :: "string \<Rightarrow> nat \<Rightarrow> (ReplicaGroup \<Rightarrow> ReplicaGroup) \<Rightarrow> 'c Data \<Rightarrow> 'c Data" where
  "putRG db rgId f data =
     data\<lparr>ReplicaGroups := mmodify db (\<lambda>rgs. rgs[rgId := f (rgs ! rgId)]) (ReplicaGroups data)\<rparr>"

definition data_nextSubHealth :: "string \<Rightarrow> nat \<Rightarrow> PtInfo list \<Rightarrow> 'c Data \<Rightarrow> 'c Data \<times> err option" where
  "data_nextSubHealth db rgId dbPtView data =
     (case GetRGOfPtFast rgId db data of
        Inl e \<Rightarrow> (data, Some e)
      | Inr None \<Rightarrow> (data, None)
      | Inr (Some rg) \<Rightarrow> (putRG db rgId (rg_nextSubHealth dbPtView) data, None))"

definition data_nextHealth :: "string \<Rightarrow> nat \<Rightarrow> PtInfo list \<Rightarrow> 'c Data \<Rightarrow> 'c Data \<times> err option" where
  "data_nextHealth db rgId dbPtView data =
     (case GetRGOfPtFast rgId db data of
        Inl e \<Rightarrow> (data, Some e)
      | Inr None \<Rightarrow> (data, None)
      | Inr (Some rg) \<Rightarrow>
          (case GetReplicaN db data of
             (replicasN, ok) \<Rightarrow>
               if ok then (putRG db rgId (rg_nextHealth dbPtView replicasN) data, None) else (data, None)))"

section \<open>Partition status\<close>

definition zeroPt :: PtInfo where
  "zeroPt = \<lparr>pt_Owner = 0, pt_Status = 0, pt_PtId = 0, pt_Ver = 0, pt_RGID = 0\<rparr>"

definition updatePtStatus ::
  "Env \<Rightarrow> string \<Rightarrow> nat \<Rightarrow> nat \<Rightarrow> nat \<Rightarrow> 'c Data \<Rightarrow> 'c Data \<times> err option" where
  "updatePtStatus env db ptId nodeId status data =
     (let ptNum = ClusterPtNum data;
          view0 = (case map_of (PtView data) db of None \<Rightarrow> replicate ptNum zeroPt | Some v \<Rightarrow> v);
          view1 = (if ptId \<ge> u32 (length view0)
                   then take ptNum view0 @ replicate (ptNum - length view0) zeroPt else view0)
      in if ptId \<ge> length view1 then (data, Some index_panic)
         else
           let p0 = view1 ! ptId;
               p = p0\<lparr>pt_Owner := nodeId, pt_Status := status, pt_PtId := ptId,
                      pt_Ver := (if pt_Ver p0 = 0 then 1 else pt_Ver p0)\<rparr>;
               view2 = view1[ptId := p];
               r = (if status = Online \<and> env_haPolicy env = Replication
                    then data_nextSubHealth db (pt_RGID p) view2 data else (data, None))
           in case r of
                (data', Some e) \<Rightarrow> (data', Some e)
              | (data', None) \<Rightarrow> (data'\<lparr>PtView := AList.update db view2 (PtView data')\<rparr>, None))"

definition markAllDbPtOffload :: "Env \<Rightarrow> 'c Data \<Rightarrow> 'c Data \<times> err option" where
  "markAllDbPtOffload env data =
     loopE (\<lambda>(db, p). updatePtStatus env db (pt_PtId p) (pt_Owner p) Offline)
       (concat (map (\<lambda>(db, v). map (\<lambda>p. (db, p)) v) (PtView data))) data"

definition initDataNodePtView :: "nat \<Rightarrow> 'c Data \<Rightarrow> 'c Data" where
  "initDataNodePtView ptNum data =
     (let newPtNum = u32 (PtNumPerNode data * GetWriteNodeNum data) in
      if ptNum < newPtNum then data\<lparr>ClusterPtNum := newPtNum\<rparr> else data)"

definition assignPts :: "Env \<Rightarrow> string \<Rightarrow> DataNode list \<Rightarrow> 'c Data \<Rightarrow> 'c Data \<times> err option" where
  "assignPts env name nodes data =
     (if nodes = [] then (data, Some (Errno ''DataNoAlive''))
      else loopE (\<lambda>ptId. updatePtStatus env name ptId (ni_ID (nodes ! (ptId mod length nodes))) Offline)
             [0..<ClusterPtNum data] data)"

definition assignPtForWAF :: "Env \<Rightarrow> string \<Rightarrow> 'c Data \<Rightarrow> 'c Data \<times> err option" where
  "assignPtForWAF env name data = assignPts env name (GetWriteNode data) data"

definition assignPtForSS :: "Env \<Rightarrow> string \<Rightarrow> 'c Data \<Rightarrow> 'c Data \<times> err option" where
  "assignPtForSS env name data = assignPts env name (GetAliveWriteNode data) data"

text \<open>\<open>CreateDBPtView\<close>: an existing view is kept. The first component of the result is the boolean.\<close>

definition CreateDBPtView :: "Env \<Rightarrow> string \<Rightarrow> 'c Data \<Rightarrow> bool \<times> 'c Data \<times> err option" where
  "CreateDBPtView env name data =
     (if map_of (PtView data) name \<noteq> None then (False, data, None)
      else (True, (case env_haPolicy env of
                     SharedStorage \<Rightarrow> assignPtForSS env name data
                   | _ \<Rightarrow> assignPtForWAF env name data)))"

definition updatePtViewStep ::
  "Env \<Rightarrow> nat \<Rightarrow> nat \<Rightarrow> string \<Rightarrow> nat \<Rightarrow> 'c Data \<Rightarrow> 'c Data \<times> err option" where
  "updatePtViewStep env nid status db i data =
     (let view = DBPtView db data in
      if i < length view \<and> pt_Owner (view ! i) = nid then
        let p = (view ! i)\<lparr>pt_Status := status, pt_Ver := u64 (pt_Ver (view ! i) + 1)\<rparr>;
            view' = view[i := p];
            data' = data\<lparr>PtView := AList.update db view' (PtView data)\<rparr>
        in if status = Offline \<and> env_haPolicy env = Replication
           then data_nextHealth db (pt_RGID p) view' data' else (data', None)
      else (data, None))"

definition updatePtViewStatus :: "Env \<Rightarrow> nat \<Rightarrow> nat \<Rightarrow> 'c Data \<Rightarrow> 'c Data \<times> err option" where
  "updatePtViewStatus env nid status data =
     loopE (\<lambda>(db, i). updatePtViewStep env nid status db i)
       (concat (map (\<lambda>(db, v). map (\<lambda>i. (db, i)) [0..<length v]) (PtView data))) data"

definition UpdatePtVersion :: "string \<Rightarrow> nat \<Rightarrow> 'c Data \<Rightarrow> 'c Data \<times> err option" where
  "UpdatePtVersion db ptId data =
     (case map_of (PtView data) db of
        None \<Rightarrow> (data, Some (Errno ''DatabaseNotFound''))
      | Some view \<Rightarrow>
          if ptId \<ge> u32 (length view) \<or> ptId \<noteq> pt_PtId (view ! ptId)
            then (data, Some (Errno ''PtNotFound''))
          else (data\<lparr>PtView := mmodify db
                  (\<lambda>v. v[ptId := (v ! ptId)\<lparr>pt_Ver := u64 (pt_Ver (v ! ptId) + 1)\<rparr>]) (PtView data)\<rparr>, None))"

text \<open>\<open>UpdatePtInfo\<close>: \<open>info\<close> is the partition as the caller last saw it; the change is refused if the
  owner or the status has changed since, and silently dropped if the new owner is not alive.\<close>

definition UpdatePtInfo :: "Env \<Rightarrow> string \<Rightarrow> PtInfo \<Rightarrow> nat \<Rightarrow> nat \<Rightarrow> 'c Data \<Rightarrow> 'c Data \<times> err option" where
  "UpdatePtInfo env db info ownerId status data =
     (let view = DBPtView db data in
      if pt_PtId info \<ge> length view then (data, Some (Errno ''PtNotFound''))
      else if pt_Owner (view ! pt_PtId info) \<noteq> pt_Owner info \<or> pt_Status (view ! pt_PtId info) \<noteq> pt_Status info
        then (data, Some (Errno ''PtChanged''))
      else if status = Online \<and> (case getNodeStatus ownerId data of (st, exist) \<Rightarrow> exist \<and> st \<noteq> StatusAlive)
        then (data, None)
      else updatePtStatus env db (pt_PtId info) ownerId status data)"

section \<open>Forming replica groups\<close>

fun getFirstUnFullRGLoc :: "ReplicaGroup list \<Rightarrow> nat" where
  "getFirstUnFullRGLoc [] = 0"
| "getFirstUnFullRGLoc (rg # rgs) = (if rg_Status rg = UnFull then 0 else getFirstUnFullRGLoc rgs + 1)"

text \<open>The availability zones of a group; None is a nil dereference on an unknown partition or node.\<close>

definition getDataNodeByPtId :: "'c Data \<Rightarrow> string \<Rightarrow> nat \<Rightarrow> DataNode option" where
  "getDataNodeByPtId data db ptId =
     (case GetPtInfo db ptId data of None \<Rightarrow> None | Some p \<Rightarrow> data_DataNode (pt_Owner p) data)"

definition getAzSet :: "'c Data \<Rightarrow> string \<Rightarrow> ReplicaGroup \<Rightarrow> string list option" where
  "getAzSet data db rg =
     (let nodes = map (getDataNodeByPtId data db) (rg_MasterPtID rg # map pe_ID (rg_Peers rg)) in
      if None \<in> set nodes then None else Some (map (\<lambda>n. dn_Az (the n)) nodes))"

definition inAzSet :: "'c Data \<Rightarrow> string \<Rightarrow> ReplicaGroup \<Rightarrow> string \<Rightarrow> bool option" where
  "inAzSet data db rg currentAz = map_option (\<lambda>azs. currentAz \<in> set azs) (getAzSet data db rg)"

fun firstUnFullDiffAz :: "'c Data \<Rightarrow> string \<Rightarrow> string \<Rightarrow> ReplicaGroup list \<Rightarrow> nat option" where
  "firstUnFullDiffAz data db currentAz [] = Some 0"
| "firstUnFullDiffAz data db currentAz (rg # rgs) =
     (if rg_Status rg = UnFull then
        case inAzSet data db rg currentAz of
          None \<Rightarrow> None
        | Some b \<Rightarrow> if b then map_option Suc (firstUnFullDiffAz data db currentAz rgs) else Some 0
      else map_option Suc (firstUnFullDiffAz data db currentAz rgs))"

definition getFirstUnFullRGLocWithDiffAz :: "'c Data \<Rightarrow> string \<Rightarrow> string \<Rightarrow> nat option" where
  "getFirstUnFullRGLocWithDiffAz data db currentAz =
     firstUnFullDiffAz data db currentAz (DBRepGroups db data)"

definition joinForNodeHard :: "'c Data \<Rightarrow> string \<Rightarrow> ReplicaGroup \<Rightarrow> string \<Rightarrow> bool option" where
  "joinForNodeHard data db rg currentAz = Some (rg_Status rg = UnFull)"

definition joinForAzHard :: "'c Data \<Rightarrow> string \<Rightarrow> ReplicaGroup \<Rightarrow> string \<Rightarrow> bool option" where
  "joinForAzHard data db rg currentAz =
     (if rg_Status rg = UnFull then map_option Not (inAzSet data db rg currentAz) else Some False)"

text \<open>The inner loop of \<open>joinRpGroup\<close> from position \<open>i\<close>: the first group that can be joined and is not the
  group \<open>pre\<close> of the node's previous partition. The outer option is None on a panic.\<close>

fun findRG ::
  "(ReplicaGroup \<Rightarrow> bool option) \<Rightarrow> nat option \<Rightarrow> nat \<Rightarrow> ReplicaGroup list \<Rightarrow> nat option option" where
  "findRG join pre i [] = Some None"
| "findRG join pre i (rg # rgs) =
     (case join rg of
        None \<Rightarrow> None
      | Some b \<Rightarrow> if b \<and> pre \<noteq> Some (rg_ID rg) then Some (Some i) else findRG join pre (i + 1) rgs)"

type_synonym joinFn = "PtInfo list \<Rightarrow> ReplicaGroup \<Rightarrow> bool option"
type_synonym joinState = "PtInfo list \<times> ReplicaGroup list \<times> nat option"

definition joinPt :: "joinFn \<Rightarrow> int \<Rightarrow> nat \<Rightarrow> nat \<Rightarrow> joinState \<Rightarrow> joinState option" where
  "joinPt join replicasN rgStart ptLoc =
     (\<lambda>(view, rgs, pre).
        let pt = view ! ptLoc in
        case findRG (join view) pre rgStart (drop rgStart rgs) of
          None \<Rightarrow> None
        | Some (Some i) \<Rightarrow>
            Some (view[ptLoc := pt\<lparr>pt_RGID := rg_ID (rgs ! i)\<rparr>],
                  rgs[i := nextUnFull replicasN (addPeer (pt_PtId pt) (rgs ! i))], Some (rg_ID (rgs ! i)))
        | Some None \<Rightarrow>
            let n = u32 (length rgs) in
            Some (view[ptLoc := pt\<lparr>pt_RGID := n\<rparr>],
                  rgs @ [nextUnFull replicasN (NewReplicaGroup n (pt_PtId pt) [] UnFull 0)], Some n))"

fun joinLoop :: "joinFn \<Rightarrow> int \<Rightarrow> nat \<Rightarrow> nat \<Rightarrow> nat list \<Rightarrow> joinState \<Rightarrow> joinState option" where
  "joinLoop join replicasN rgStart nid [] s = Some s"
| "joinLoop join replicasN rgStart nid (l # ls) (view, rgs, pre) =
     (if pt_Owner (view ! l) = nid then
        case joinPt join replicasN rgStart l (view, rgs, pre) of
          None \<Rightarrow> None
        | Some s \<Rightarrow> joinLoop join replicasN rgStart nid ls s
      else joinLoop join replicasN rgStart nid ls (view, rgs, pre))"

text \<open>\<open>joinFunc\<close> reads the partitions and nodes of the current data, so the view it sees is passed in.\<close>

definition joinRpGroup ::
  "string \<Rightarrow> DataNode \<Rightarrow> int \<Rightarrow> nat \<Rightarrow> string \<Rightarrow> ('c Data \<Rightarrow> string \<Rightarrow> ReplicaGroup \<Rightarrow> string \<Rightarrow> bool option)
     \<Rightarrow> 'c Data \<Rightarrow> 'c Data \<times> err option" where
  "joinRpGroup db newNode replicasN rgStart currentNodeAz joinFunc data =
     (let view = DBPtView db data;
          join = (\<lambda>v rg. joinFunc (data\<lparr>PtView := AList.update db v (PtView data)\<rparr>) db rg currentNodeAz)
      in case joinLoop join replicasN rgStart (ni_ID newNode) [0..<length view] (view, DBRepGroups db data, None) of
           None \<Rightarrow> (data, Some nil_panic)
         | Some (view', rgs', _) \<Rightarrow>
             if view = [] then (data, None)
             else (data\<lparr>PtView := AList.update db view' (PtView data),
                        ReplicaGroups := (if rgs' = [] then ReplicaGroups data
                                          else AList.update db rgs' (ReplicaGroups data))\<rparr>, None))"

definition NodeHardChooseRG :: "string \<Rightarrow> DataNode \<Rightarrow> int \<Rightarrow> 'c Data \<Rightarrow> 'c Data \<times> err option" where
  "NodeHardChooseRG db newNode replicasN data =
     joinRpGroup db newNode replicasN (getFirstUnFullRGLoc (DBRepGroups db data)) [] joinForNodeHard data"

definition AzHardChooseRG :: "string \<Rightarrow> DataNode \<Rightarrow> int \<Rightarrow> 'c Data \<Rightarrow> 'c Data \<times> err option" where
  "AzHardChooseRG db newNode replicasN data =
     (case getFirstUnFullRGLocWithDiffAz data db (dn_Az newNode) of
        None \<Rightarrow> (data, Some nil_panic)
      | Some rgStart \<Rightarrow> joinRpGroup db newNode replicasN rgStart (dn_Az newNode) joinForAzHard data)"

definition chooseRG :: "Env \<Rightarrow> string \<Rightarrow> DataNode \<Rightarrow> int \<Rightarrow> 'c Data \<Rightarrow> 'c Data \<times> err option" where
  "chooseRG env db newNode replicaN data =
     (case env_repDisPolicy env of
        NodeHard \<Rightarrow> NodeHardChooseRG db newNode replicaN data
      | AzHard \<Rightarrow> AzHardChooseRG db newNode replicaN data)"

definition expandDBRG :: "string \<Rightarrow> 'c Data \<Rightarrow> 'c Data" where
  "expandDBRG db data = data\<lparr>ReplicaGroups := AList.update db (DBRepGroups db data) (ReplicaGroups data)\<rparr>"

definition NodeHardCreateDBRG :: "string \<Rightarrow> int \<Rightarrow> 'c Data \<Rightarrow> 'c Data \<times> err option" where
  "NodeHardCreateDBRG db replicaN data =
     loopE (\<lambda>n. NodeHardChooseRG db n replicaN) (DataNodes data) (expandDBRG db data)"

definition AzHardCreateDBRG :: "string \<Rightarrow> int \<Rightarrow> 'c Data \<Rightarrow> 'c Data \<times> err option" where
  "AzHardCreateDBRG db replicaN data =
     loopE (\<lambda>n. AzHardChooseRG db n replicaN) (DataNodes data) (expandDBRG db data)"

definition CreateDBReplication :: "Env \<Rightarrow> string \<Rightarrow> nat \<Rightarrow> 'c Data \<Rightarrow> 'c Data \<times> err option" where
  "CreateDBReplication env db replicaN data =
     (if replicaN > 1 then
        case env_repDisPolicy env of
          NodeHard \<Rightarrow> NodeHardCreateDBRG db (int replicaN) data
        | AzHard \<Rightarrow> AzHardCreateDBRG db (int replicaN) data
      else (data, None))"

definition expandDBPtView :: "Env \<Rightarrow> string \<Rightarrow> nat \<Rightarrow> DataNode \<Rightarrow> 'c Data \<Rightarrow> 'c Data \<times> err option" where
  "expandDBPtView env database ptNum newNode data =
     (let old = u32 (length (DBPtView database data)) in
      if ptNum = old then (data, None)
      else if ptNum < old then (data, Some (Panic ''assert failed''))
      else case DBReplicaN database data of
        None \<Rightarrow> (data, Some nil_panic)
      | Some replicaN \<Rightarrow>
          (case loopE (\<lambda>ptId. updatePtStatus env database ptId (ni_ID newNode) Offline) [old..<ptNum] data of
             (data', Some e) \<Rightarrow> (data', Some e)
           | (data', None) \<Rightarrow>
               if replicaN > 1 then chooseRG env database newNode replicaN data' else (data', None)))"

section \<open>Elections\<close>

definition UpdateReplication :: "string \<Rightarrow> nat \<Rightarrow> nat \<Rightarrow> Peer list \<Rightarrow> 'c Data \<Rightarrow> 'c Data \<times> err option" where
  "UpdateReplication database rgId masterId peers data =
     (case map_of (ReplicaGroups data) database of
        None \<Rightarrow> (data, Some (Errno ''DatabaseNotFound''))
      | Some rgs \<Rightarrow>
          if rgId < length rgs then
            (putRG database rgId (\<lambda>rg. rg\<lparr>rg_MasterPtID := masterId,
               rg_Peers := (if peers \<noteq> [] then peers else rg_Peers rg)\<rparr>) data, None)
          else (data, Some index_panic))"

definition GetNewRg :: "string \<Rightarrow> nat \<Rightarrow> nat \<Rightarrow> 'c Data \<Rightarrow> err + (nat \<times> Peer list)" where
  "GetNewRg db rgId newMasterPtId data =
     (case map_of (ReplicaGroups data) db of
        None \<Rightarrow> Inl (Errorf ''no rg of db'')
      | Some dbRgs \<Rightarrow>
          if rgId \<ge> u32 (length dbRgs) then Inl (Errorf ''rgId > len(dbRgs)'')
          else let rg = dbRgs ! rgId in
            if newMasterPtId = rg_MasterPtID rg then Inl (Errorf ''newMasterPtId == oldMasterPtId'')
            else
              let newPeers = \<lparr>pe_ID = rg_MasterPtID rg, pe_PtRole = Slave\<rparr>
                    # map (\<lambda>p. \<lparr>pe_ID = pe_ID p, pe_PtRole = Slave\<rparr>)
                        (filter (\<lambda>p. pe_ID p \<noteq> newMasterPtId) (rg_Peers rg));
                  found = (\<exists>p \<in> set (rg_Peers rg). pe_ID p = newMasterPtId)
              in if \<not> found \<or> length newPeers \<noteq> length (rg_Peers rg) then Inl (Errorf ''newMasterPtId find err'')
                 else Inr (newMasterPtId, newPeers))"

definition GetDBBriefInfo :: "string \<Rightarrow> 'c Data \<Rightarrow> DatabaseBriefInfo option" where
  "GetDBBriefInfo name data =
     map_option (\<lambda>di. \<lparr>dbi_Name = name, dbi_EnableTagArray = db_EnableTagArray di, dbi_Replicas = db_ReplicaN di\<rparr>)
       (map_of (Databases data) name)"

section \<open>Assignment is a round robin\<close>

lemma DBPtView_update [simp]:
  "DBPtView db (data\<lparr>PtView := AList.update db' v (PtView data')\<rparr>) =
     (if db = db' then v else (case map_of (PtView data') db of None \<Rightarrow> [] | Some v \<Rightarrow> v))"
  by (simp add: DBPtView_def)

definition newPt :: "nat \<Rightarrow> nat \<Rightarrow> PtInfo" where
  "newPt owner i = \<lparr>pt_Owner = owner, pt_Status = Offline, pt_PtId = i, pt_Ver = 1, pt_RGID = 0\<rparr>"

definition partialView :: "(nat \<Rightarrow> nat) \<Rightarrow> nat \<Rightarrow> nat \<Rightarrow> PtInfo list" where
  "partialView owner k n = map (\<lambda>i. if i < k then newPt (owner i) i else zeroPt) [0..<n]"

lemma length_partialView [simp]: "length (partialView owner k n) = n"
  by (simp add: partialView_def)

lemma partialView_0: "partialView owner 0 n = replicate n zeroPt"
  by (simp add: partialView_def map_replicate_const)

lemma partialView_Suc: "k < n \<Longrightarrow> (partialView owner k n)[k := newPt (owner k) k] = partialView owner (Suc k) n"
  by (rule nth_equalityI) (auto simp: partialView_def nth_list_update less_Suc_eq)

lemma updatePtStatus_next:
  assumes "k < ClusterPtNum data" "ClusterPtNum data < 2 ^ 32"
    and "map_of (PtView data) name = (if k = 0 then None else Some (partialView owner k (ClusterPtNum data)))"
  shows "updatePtStatus env name k (owner k) Offline data =
     (data\<lparr>PtView := AList.update name (partialView owner (Suc k) (ClusterPtNum data)) (PtView data)\<rparr>, None)"
proof -
  let ?n = "ClusterPtNum data"
  have view: "(case map_of (PtView data) name of None \<Rightarrow> replicate ?n zeroPt | Some v \<Rightarrow> v) =
      partialView owner k ?n"
    using assms(3) by (auto simp: partialView_0)
  have "partialView owner k ?n ! k = zeroPt" using assms(1) by (simp add: partialView_def)
  then have "(partialView owner k ?n)[k := (partialView owner k ?n ! k)\<lparr>pt_Owner := owner k,
      pt_Status := Offline, pt_PtId := k, pt_Ver := 1\<rparr>] = partialView owner (Suc k) ?n"
    using partialView_Suc [OF assms(1), of owner] by (simp add: newPt_def zeroPt_def)
  then show ?thesis
    using assms(1,2) by (simp add: updatePtStatus_def view Let_def zeroPt_def partialView_def)
qed

lemma assign_loop:
  assumes "k \<le> ClusterPtNum data" "ClusterPtNum data < 2 ^ 32" "map_of (PtView data) name = None"
  shows "loopE (\<lambda>i. updatePtStatus env name i (owner i) Offline) [0..<k] data =
     ((if k = 0 then data
       else data\<lparr>PtView := AList.update name (partialView owner k (ClusterPtNum data)) (PtView data)\<rparr>), None)"
  using assms(1)
proof (induction k)
  case (Suc k)
  let ?d = "if k = 0 then data
    else data\<lparr>PtView := AList.update name (partialView owner k (ClusterPtNum data)) (PtView data)\<rparr>"
  have "updatePtStatus env name k (owner k) Offline ?d =
      (?d\<lparr>PtView := AList.update name (partialView owner (Suc k) (ClusterPtNum ?d)) (PtView ?d)\<rparr>, None)"
    using Suc.prems assms by (intro updatePtStatus_next) auto
  with Suc show ?case by (auto simp: loopE_append update_swap)
qed simp

lemma assignPts_ok:
  assumes "nodes \<noteq> []" "ClusterPtNum data < 2 ^ 32" "map_of (PtView data) name = None"
  shows "\<exists>data'. assignPts env name nodes data = (data', None)
    \<and> DBPtView name data' =
        map (\<lambda>i. newPt (ni_ID (nodes ! (i mod length nodes))) i) [0..<ClusterPtNum data]
    \<and> data' = data\<lparr>PtView := PtView data'\<rparr>"
proof -
  let ?own = "\<lambda>i. ni_ID (nodes ! (i mod length nodes))"
  have "partialView ?own n n = map (\<lambda>i. newPt (?own i) i) [0..<n]" for n
    by (auto simp: partialView_def)
  then show ?thesis
    using assms assign_loop [OF order_refl assms(2,3), of env ?own]
    by (cases "ClusterPtNum data = 0") (auto simp: assignPts_def DBPtView_def)
qed

text \<open>C16: Creating the partition view of a new database assigns partition \<open>i\<close> to the \<open>i mod n\<close>-th of the
  writer nodes (of the live, not segregated writer nodes under shared storage), offline and with
  version 1, changes nothing else, and fails exactly when there is no such node.\<close>

theorem CreateDBPtView_round_robin:
  assumes "map_of (PtView data) name = None" "ClusterPtNum data < 2 ^ 32"
    and "nodes = (if env_haPolicy env = SharedStorage then GetAliveWriteNode data else GetWriteNode data)"
    and "CreateDBPtView env name data = (created, data', e)"
  shows "created \<and> (e \<noteq> None \<longleftrightarrow> nodes = []) \<and> data' = data\<lparr>PtView := PtView data'\<rparr>
    \<and> (nodes \<noteq> [] \<longrightarrow> DBPtView name data' =
         map (\<lambda>i. \<lparr>pt_Owner = ni_ID (nodes ! (i mod length nodes)), pt_Status = 3, pt_PtId = i, pt_Ver = 1, pt_RGID = 0\<rparr>)
           [0..<ClusterPtNum data])"
proof -
  have res: "created" "assignPts env name nodes data = (data', e)"
    using assms by (auto simp: CreateDBPtView_def assignPtForWAF_def assignPtForSS_def split: HaPolicy.splits)
  show ?thesis
  proof (cases "nodes = []")
    case True
    then show ?thesis using res by (auto simp: assignPts_def)
  next
    case False
    then show ?thesis using assignPts_ok [OF False assms(2,1), of env] res by (simp add: newPt_def)
  qed
qed

section \<open>Health of a group\<close>

definition rg_members :: "ReplicaGroup \<Rightarrow> nat list" where
  "rg_members rg = rg_MasterPtID rg # map pe_ID (rg_Peers rg)"

lemma onlinePtN_sum: "onlinePtN ptView rg = sum_list (map (countOnline ptView) (rg_members rg))"
proof -
  have "fold (\<lambda>p n. n + countOnline ptView (pe_ID p)) ps a = a + sum_list (map (countOnline ptView \<circ> pe_ID) ps)" for ps a
    by (induction ps arbitrary: a) auto
  then show ?thesis by (simp add: onlinePtN_def rg_members_def)
qed

lemma countOnline_distinct:
  "distinct (map pt_PtId ptView) \<Longrightarrow>
     countOnline ptView i = (if \<exists>p \<in> set ptView. pt_PtId p = i \<and> pt_Status p = Online then 1 else 0)"
proof (induction ptView)
  case (Cons p ptView)
  from Cons.prems have other: "\<forall>q \<in> set ptView. pt_PtId q \<noteq> pt_PtId p" by (auto simp: image_iff)
  show ?case
  proof (cases "pt_PtId p = i")
    case True
    then show ?thesis using other by (auto simp: countOnline_def filter_empty_conv)
  next
    case False
    then show ?thesis using Cons by (simp add: countOnline_def)
  qed
qed (simp add: countOnline_def)

definition onlineMembers :: "PtInfo list \<Rightarrow> ReplicaGroup \<Rightarrow> nat list" where
  "onlineMembers ptView rg =
     filter (\<lambda>i. list_ex (\<lambda>p. pt_PtId p = i \<and> pt_Status p = Online) ptView) (rg_members rg)"

lemma onlinePtN_members:
  assumes "distinct (map pt_PtId ptView)"
  shows "onlinePtN ptView rg = length (onlineMembers ptView rg)"
proof -
  have "sum_list (map (countOnline ptView) xs) =
      length (filter (\<lambda>i. list_ex (\<lambda>p. pt_PtId p = i \<and> pt_Status p = Online) ptView) xs)" for xs
    by (induction xs) (auto simp: countOnline_distinct [OF assms] list_ex_iff)
  then show ?thesis by (simp add: onlinePtN_sum onlineMembers_def)
qed


section \<open>The groups that joining builds\<close>

definition rgsWf :: "nat \<Rightarrow> ReplicaGroup list \<Rightarrow> bool" where
  "rgsWf N rgs \<longleftrightarrow>
     (\<forall>i < length rgs. rg_ID (rgs ! i) = i \<and> length (rg_members (rgs ! i)) \<le> N
        \<and> rg_Status (rgs ! i) = (if length (rg_members (rgs ! i)) = N then SubHealth else UnFull))"

definition placed :: "ReplicaGroup list \<Rightarrow> PtInfo \<Rightarrow> bool" where
  "placed rgs p \<longleftrightarrow> pt_RGID p < length rgs \<and> pt_PtId p \<in> set (rg_members (rgs ! pt_RGID p))"

definition allMembers :: "ReplicaGroup list \<Rightarrow> nat multiset" where
  "allMembers rgs = mset (concat (map rg_members rgs))"

lemma rg_hasPt_members: "rg_hasPt rg i \<longleftrightarrow> i \<in> set (rg_members rg)"
  by (auto simp: rg_hasPt_def rg_members_def image_iff)

lemma members_addPeer [simp]:
  "rg_members (nextUnFull n (addPeer i rg)) = rg_members rg @ [i]"
  "rg_ID (nextUnFull n (addPeer i rg)) = rg_ID rg"
  by (auto simp: rg_members_def nextUnFull_def addPeer_def)

lemma members_new [simp]:
  "rg_members (nextUnFull n (NewReplicaGroup i p [] 2 t)) = [p]"
  "rg_ID (nextUnFull n (NewReplicaGroup i p [] 2 t)) = i"
  by (auto simp: rg_members_def nextUnFull_def NewReplicaGroup_def)

lemma status_addPeer:
  "rg_Status rg = 2 \<Longrightarrow> rg_Status (nextUnFull (int n) (addPeer i rg)) =
     (if length (rg_members rg) + 1 = n then 1 else 2)"
  by (auto simp: nextUnFull_def addPeer_def rg_members_def)

lemma status_new: "rg_Status (nextUnFull (int n) (NewReplicaGroup i p [] 2 t)) = (if n = 1 then 1 else 2)"
  by (auto simp: nextUnFull_def NewReplicaGroup_def)

lemma findRG_Some:
  "findRG join pre i rgs = Some (Some j) \<Longrightarrow>
     i \<le> j \<and> j < i + length rgs \<and> join (rgs ! (j - i)) = Some True \<and> pre \<noteq> Some (rg_ID (rgs ! (j - i)))"
proof (induction rgs arbitrary: i)
  case (Cons rg rgs)
  show ?case
  proof (cases "join rg = Some True \<and> pre \<noteq> Some (rg_ID rg)")
    case True
    then have "i = j" using Cons.prems by simp
    with True show ?thesis by simp
  next
    case False
    then have "findRG join pre (i + 1) rgs = Some (Some j)"
      using Cons.prems by (auto split: option.splits if_splits)
    note this' = Cons.IH [OF this]
    then have "j - i = Suc (j - (i + 1))" by linarith
    then show ?thesis using this' by auto
  qed
qed simp

lemma rgsWf_grow:
  assumes "rgsWf N rgs" "i < length rgs" "rg_Status (rgs ! i) = 2"
  shows "rgsWf N (rgs[i := nextUnFull (int N) (addPeer p (rgs ! i))])"
proof -
  have "length (rg_members (rgs ! i)) < N"
    using assms unfolding rgsWf_def by (metis le_neq_implies_less numeral_eq_one_iff semiring_norm(85))
  then show ?thesis
    using assms status_addPeer [OF assms(3)] by (auto simp: rgsWf_def nth_list_update)
qed

lemma rgsWf_new:
  assumes "rgsWf N rgs" "1 \<le> N"
  shows "rgsWf N (rgs @ [nextUnFull (int N) (NewReplicaGroup (length rgs) p [] 2 0)])"
  using assms status_new [of N] by (auto simp: rgsWf_def nth_append less_Suc_eq)

lemma allMembers_grow:
  assumes "i < length rgs"
  shows "allMembers (rgs[i := nextUnFull n (addPeer p (rgs ! i))]) = add_mset p (allMembers rgs)"
proof -
  have "rgs = take i rgs @ rgs ! i # drop (Suc i) rgs" using assms by (simp add: id_take_nth_drop)
  then have "allMembers rgs = allMembers (take i rgs) + mset (rg_members (rgs ! i)) + allMembers (drop (Suc i) rgs)"
    unfolding allMembers_def by (metis (no_types) concat.simps(2) concat_append list.simps(9) map_append mset_append
        add.assoc)
  then show ?thesis using assms by (simp add: allMembers_def upd_conv_take_nth_drop)
qed

lemma placed_mono:
  assumes "placed rgs p"
  shows "placed (rgs[i := nextUnFull n (addPeer q (rgs ! i))]) p" "placed (rgs @ [rg]) p"
  using assms by (cases "i < length rgs"; auto simp: placed_def nth_list_update nth_append)+

text \<open>What one partition's step keeps: \<open>view'\<close> differs from \<open>view\<close> only in group ids.\<close>

definition sameButRG :: "PtInfo list \<Rightarrow> PtInfo list \<Rightarrow> bool" where
  "sameButRG view view' \<longleftrightarrow> map (\<lambda>p. p\<lparr>pt_RGID := 0\<rparr>) view = map (\<lambda>p. p\<lparr>pt_RGID := 0\<rparr>) view'"

lemma sameButRG_refl [simp]: "sameButRG v v" by (simp add: sameButRG_def)

lemma sameButRG_trans: "sameButRG u v \<Longrightarrow> sameButRG v w \<Longrightarrow> sameButRG u w" by (simp add: sameButRG_def)

lemma sameButRG_nth:
  assumes "sameButRG v w" "i < length v"
  shows "pt_PtId (w ! i) = pt_PtId (v ! i)" "pt_Owner (w ! i) = pt_Owner (v ! i)" "length w = length v"
proof -
  have len: "length w = length v" using assms(1) unfolding sameButRG_def by (metis length_map)
  then have "(v ! i)\<lparr>pt_RGID := 0\<rparr> = (w ! i)\<lparr>pt_RGID := 0\<rparr>"
    using assms unfolding sameButRG_def by (metis nth_map)
  then show "pt_PtId (w ! i) = pt_PtId (v ! i)" "pt_Owner (w ! i) = pt_Owner (v ! i)"
    by (metis PtInfo.select_convs(1,3) PtInfo.surjective PtInfo.update_convs(5))+
  show "length w = length v" by (rule len)
qed

lemma sameButRG_update: "i < length v \<Longrightarrow> sameButRG v (v[i := (v ! i)\<lparr>pt_RGID := r\<rparr>])"
  unfolding sameButRG_def by (auto simp: map_update intro!: nth_equalityI simp: nth_list_update)

definition joinUnFull :: "joinFn \<Rightarrow> bool" where
  "joinUnFull join \<longleftrightarrow> (\<forall>v rg. join v rg = Some True \<longrightarrow> rg_Status rg = 2)"

definition joined ::
  "nat \<Rightarrow> PtInfo list \<times> ReplicaGroup list \<Rightarrow> PtInfo list \<times> ReplicaGroup list \<Rightarrow> nat list \<Rightarrow> bool" where
  "joined N s s' ls \<longleftrightarrow>
     (let (view, rgs) = s; (view', rgs') = s' in
      rgsWf N rgs' \<and> sameButRG view view' \<and> length rgs' \<le> length rgs + length ls
      \<and> (\<forall>l \<in> set ls. placed rgs' (view' ! l))
      \<and> (\<forall>i < length view. placed rgs (view ! i) \<longrightarrow> placed rgs' (view' ! i))
      \<and> allMembers rgs' = allMembers rgs + mset (map (\<lambda>l. pt_PtId (view ! l)) ls))"

lemma joined_refl: "rgsWf N rgs \<Longrightarrow> joined N (view, rgs) (view, rgs) []"
  by (simp add: joined_def)

lemma joined_trans:
  assumes "joined N (v, r) (v1, r1) ls" "joined N (v1, r1) (v2, r2) ls'" "set (ls @ ls') \<subseteq> {0..<length v}"
  shows "joined N (v, r) (v2, r2) (ls @ ls')"
proof -
  have same: "sameButRG v v1" using assms(1) by (simp add: joined_def)
  note nth = sameButRG_nth [OF same]
  have "{#pt_PtId (v1 ! l). l \<in># mset ls'#} = {#pt_PtId (v ! l). l \<in># mset ls'#}"
    using nth(1) assms(3) by (intro image_mset_cong) auto
  moreover have "length v1 = length v" using same unfolding sameButRG_def by (metis length_map)
  ultimately show ?thesis
    using assms unfolding joined_def by (auto intro: sameButRG_trans simp: subset_iff)
qed

lemma joinPt_joined:
  assumes wf: "rgsWf N rgs" "1 \<le> N" and l: "l < length view" and small: "length rgs < 2 ^ 32"
    and join: "joinUnFull join"
    and step: "joinPt join (int N) st l (view, rgs, pre) = Some (view', rgs', pre')"
  shows "joined N (view, rgs) (view', rgs') [l]"
proof -
  let ?p = "view ! l"
  consider (old) i where "findRG (join view) pre st (drop st rgs) = Some (Some i)"
    | (new) "findRG (join view) pre st (drop st rgs) = Some None"
    using step by (auto simp: joinPt_def Let_def split: option.splits)
  then show ?thesis
  proof cases
    case old
    note f = findRG_Some [OF old]
    have i: "i < length rgs" using f by auto
    moreover have "drop st rgs ! (i - st) = rgs ! i" using f i nth_drop [of st rgs "i - st"] by simp
    ultimately have un: "rg_Status (rgs ! i) = 2" using f join unfolding joinUnFull_def by metis
    have res: "view' = view[l := ?p\<lparr>pt_RGID := rg_ID (rgs ! i)\<rparr>]"
      "rgs' = rgs[i := nextUnFull (int N) (addPeer (pt_PtId ?p) (rgs ! i))]"
      using step old by (auto simp: joinPt_def Let_def)
    have "rg_ID (rgs ! i) = i" using wf(1) i by (simp add: rgsWf_def)
    then have "placed rgs' (view' ! l)" using l i by (simp add: res placed_def)
    then show ?thesis
      using rgsWf_grow [OF wf(1) i un] sameButRG_update [OF l] allMembers_grow [OF i] placed_mono(1) l
      by (auto simp: joined_def res nth_list_update)
  next
    case new
    have res: "view' = view[l := ?p\<lparr>pt_RGID := length rgs\<rparr>]"
      "rgs' = rgs @ [nextUnFull (int N) (NewReplicaGroup (length rgs) (pt_PtId ?p) [] 2 0)]"
      using step new small by (auto simp: joinPt_def Let_def)
    have "placed rgs' (view' ! l)" using l by (simp add: res placed_def)
    then show ?thesis
      using rgsWf_new [OF wf] sameButRG_update [OF l] placed_mono(2) l
      by (auto simp: joined_def res nth_list_update allMembers_def)
  qed
qed

lemma joinLoop_joined:
  assumes "rgsWf N rgs" "1 \<le> N" "set ls \<subseteq> {0..<length view}" "length rgs + length ls < 2 ^ 32" "joinUnFull join"
    and "joinLoop join (int N) st nid ls (view, rgs, pre) = Some (view', rgs', pre')"
  shows "joined N (view, rgs) (view', rgs') (filter (\<lambda>l. pt_Owner (view ! l) = nid) ls)"
  using assms
proof (induction ls arbitrary: view rgs pre)
  case Nil
  then show ?case by (simp add: joined_refl)
next
  case (Cons l ls)
  show ?case
  proof (cases "pt_Owner (view ! l) = nid")
    case False
    with Cons show ?thesis by simp
  next
    case True
    then obtain v1 r1 p1 where step: "joinPt join (int N) st l (view, rgs, pre) = Some (v1, r1, p1)"
      and rest: "joinLoop join (int N) st nid ls (v1, r1, p1) = Some (view', rgs', pre')"
      using Cons.prems(6) by (auto split: option.splits)
    have j1: "joined N (view, rgs) (v1, r1) [l]"
      using joinPt_joined [OF Cons.prems(1,2) _ _ Cons.prems(5) step] Cons.prems(3,4) by simp
    then have wf1: "rgsWf N r1" and same: "sameButRG view v1" and len: "length r1 \<le> length rgs + 1"
      by (auto simp: joined_def)
    have lv: "length v1 = length view" using same unfolding sameButRG_def by (metis length_map)
    have "joined N (v1, r1) (view', rgs') (filter (\<lambda>l. pt_Owner (v1 ! l) = nid) ls)"
      using Cons.IH [OF wf1 Cons.prems(2) _ _ Cons.prems(5) rest] Cons.prems(3,4) lv len by simp
    moreover have "filter (\<lambda>l. pt_Owner (v1 ! l) = nid) ls = filter (\<lambda>l. pt_Owner (view ! l) = nid) ls"
      using sameButRG_nth(2) [OF same] Cons.prems(3) by (intro filter_cong) auto
    ultimately show ?thesis
      using joined_trans [OF j1] True Cons.prems(3) by fastforce
  qed
qed

lemma findRG_total: "(\<And>rg. join rg \<noteq> None) \<Longrightarrow> findRG join pre i rgs \<noteq> None"
  by (induction rgs arbitrary: i) (auto split: option.splits)

lemma joinLoop_total:
  assumes "\<And>v rg. join v rg \<noteq> None"
  shows "joinLoop join n st nid ls s \<noteq> None"
proof -
  have "joinPt join n st l s \<noteq> None" for l s
    using findRG_total [of "join (fst s)"] assms
    by (cases s) (auto simp: joinPt_def Let_def split: option.splits)
  then show ?thesis
  proof (induction ls arbitrary: s)
    case (Cons l ls)
    obtain view rgs pre where s: "s = (view, rgs, pre)" by (cases s)
    obtain s' where "joinPt join n st l s = Some s'" using Cons.prems by fastforce
    then show ?case using Cons.IH [OF Cons.prems] by (simp add: s)
  qed (cases s, simp)
qed

lemma DBRepGroups_update [simp]:
  "DBRepGroups db (data\<lparr>PtView := v\<rparr>) = DBRepGroups db data"
  "DBRepGroups db (data\<lparr>PtView := v, ReplicaGroups := AList.update db r m\<rparr>) = r"
  "DBRepGroups db (data\<lparr>ReplicaGroups := AList.update db r m\<rparr>) = r"
  by (simp_all add: DBRepGroups_def)

lemma NodeHardChooseRG_joined:
  assumes "rgsWf N (DBRepGroups db data)" "1 \<le> N" "length (DBRepGroups db data) + length (DBPtView db data) < 2 ^ 32"
  obtains data' where "NodeHardChooseRG db n (int N) data = (data', None)" "DataNodes data' = DataNodes data"
    "joined N (DBPtView db data, DBRepGroups db data) (DBPtView db data', DBRepGroups db data')
       (filter (\<lambda>l. pt_Owner (DBPtView db data ! l) = ni_ID n) [0..<length (DBPtView db data)])"
proof -
  let ?v = "DBPtView db data" and ?r = "DBRepGroups db data"
  let ?join = "\<lambda>v rg. joinForNodeHard (data\<lparr>PtView := AList.update db v (PtView data)\<rparr>) db rg []"
  have join: "?join v rg = Some (rg_Status rg = 2)" for v rg by (simp add: joinForNodeHard_def)
  obtain v' r' p' where loop: "joinLoop ?join (int N) (getFirstUnFullRGLoc ?r) (ni_ID n) [0..<length ?v] (?v, ?r, None) =
      Some (v', r', p')"
    using joinLoop_total [of ?join] join by (metis option.exhaust option.simps(3) prod_cases3)
  have j: "joined N (?v, ?r) (v', r') (filter (\<lambda>l. pt_Owner (?v ! l) = ni_ID n) [0..<length ?v])"
    using joinLoop_joined [OF assms(1,2) _ _ _ loop] assms(3) join by (auto simp: joinUnFull_def)
  show ?thesis
  proof (cases "?v = []")
    case True
    then show ?thesis using that [of data] loop j joined_refl [OF assms(1)]
      by (simp add: NodeHardChooseRG_def joinRpGroup_def Let_def)
  next
    case False
    let ?d = "data\<lparr>PtView := AList.update db v' (PtView data),
      ReplicaGroups := (if r' = [] then ReplicaGroups data else AList.update db r' (ReplicaGroups data))\<rparr>"
    have "NodeHardChooseRG db n (int N) data = (?d, None)"
      using loop False by (simp add: NodeHardChooseRG_def joinRpGroup_def Let_def)
    moreover have "DBRepGroups db ?d = r'"
    proof (cases "r' = []")
      case True
      then have "allMembers ?r = {#}" using j by (auto simp: joined_def allMembers_def)
      then have "?r = []" by (cases ?r) (auto simp: allMembers_def rg_members_def)
      then show ?thesis using True by (simp add: DBRepGroups_def)
    qed (simp add: DBRepGroups_def)
    ultimately show ?thesis using that [of ?d] j by (auto simp: DBPtView_def)
  qed
qed

lemma createRG_loop:
  assumes "rgsWf N (DBRepGroups db data)" "1 \<le> N"
    "length (DBRepGroups db data) + length ns * length (DBPtView db data) + length (DBPtView db data) < 2 ^ 32"
  shows "\<exists>data'. loopE (\<lambda>n. NodeHardChooseRG db n (int N)) ns data = (data', None)
    \<and> joined N (DBPtView db data, DBRepGroups db data) (DBPtView db data', DBRepGroups db data')
       (concat (map (\<lambda>n. filter (\<lambda>l. pt_Owner (DBPtView db data ! l) = ni_ID n)
          [0..<length (DBPtView db data)]) ns))"
  using assms
proof (induction ns arbitrary: data)
  case Nil
  then show ?case by (simp add: joined_refl)
next
  case (Cons n ns)
  let ?v = "DBPtView db data"
  let ?own = "\<lambda>v n. filter (\<lambda>l. pt_Owner (v ! l) = ni_ID n) [0..<length v]"
  have small0: "length (DBRepGroups db data) + length ?v < 2 ^ 32" using Cons.prems(3) by simp
  obtain d1 where d1: "NodeHardChooseRG db n (int N) data = (d1, None)"
    "joined N (?v, DBRepGroups db data) (DBPtView db d1, DBRepGroups db d1) (?own ?v n)"
    using NodeHardChooseRG_joined [OF Cons.prems(1,2) small0, of n] by blast
  then have wf1: "rgsWf N (DBRepGroups db d1)" and same: "sameButRG ?v (DBPtView db d1)"
    and len: "length (DBRepGroups db d1) \<le> length (DBRepGroups db data) + length (?own ?v n)"
    by (auto simp: joined_def)
  have lv: "length (DBPtView db d1) = length ?v" using same unfolding sameButRG_def by (metis length_map)
  have "length (?own ?v n) \<le> length ?v" by (metis length_filter_le length_upt minus_nat.diff_0)
  then have small: "length (DBRepGroups db d1) + length ns * length (DBPtView db d1) + length (DBPtView db d1) < 2 ^ 32"
    using Cons.prems(3) len by (simp add: lv)
  obtain data' where d': "loopE (\<lambda>n. NodeHardChooseRG db n (int N)) ns d1 = (data', None)"
    "joined N (DBPtView db d1, DBRepGroups db d1) (DBPtView db data', DBRepGroups db data')
       (concat (map (?own (DBPtView db d1)) ns))"
    using Cons.IH [OF wf1 Cons.prems(2) small] by blast
  have "?own (DBPtView db d1) m = ?own ?v m" for m
    using sameButRG_nth(2) [OF same] lv by (auto intro!: filter_cong)
  then have eq: "map (?own (DBPtView db d1)) ns = map (?own ?v) ns" by (intro map_cong) auto
  have "set (?own ?v n @ concat (map (?own ?v) ns)) \<subseteq> {0..<length ?v}" by auto
  then have "joined N (?v, DBRepGroups db data) (DBPtView db data', DBRepGroups db data')
      (?own ?v n @ concat (map (?own ?v) ns))"
    using joined_trans [OF d1(2) d'(2) [unfolded eq]] by blast
  then show ?case using d1(1) d'(1) by auto
qed

lemma filter_owner_concat:
  assumes "distinct (map ni_ID ns)"
  shows "mset (concat (map (\<lambda>n. filter (\<lambda>l. own l = ni_ID n) ls) ns)) =
     mset (filter (\<lambda>l. own l \<in> ni_ID ` set ns) ls)"
  using assms
proof (induction ns)
  case (Cons n ns)
  have "mset (filter (\<lambda>l. own l \<in> ni_ID ` set (n # ns)) ls) =
      mset (filter (\<lambda>l. own l = ni_ID n) ls) + mset (filter (\<lambda>l. own l \<in> ni_ID ` set ns) ls)"
    using Cons.prems by (induction ls) auto
  with Cons show ?case by simp
qed simp

text \<open>C9: Creating the replica groups of a new database (node-hard distribution) ends without a panic;
  the groups are numbered by their position, none has more members than replicas, and a group is
  sub-healthy when it is full and unfull otherwise. Every partition owned by a data node is a member
  of exactly one group, the one that its group id names, and there are no other members.\<close>

theorem NodeHardCreateDBRG_groups:
  assumes "DBRepGroups db data = []" "1 \<le> replicaN"
    and "distinct (map ni_ID (DataNodes data))" "distinct (map pt_PtId (DBPtView db data))"
    and "length (DataNodes data) * length (DBPtView db data) + length (DBPtView db data) < 2 ^ 32"
    and "NodeHardCreateDBRG db (int replicaN) data = (data', e)"
  shows "e = None \<and> rgsWf replicaN (DBRepGroups db data')
    \<and> distinct (concat (map rg_members (DBRepGroups db data')))
    \<and> set (concat (map rg_members (DBRepGroups db data'))) =
        pt_PtId ` {p \<in> set (DBPtView db data). pt_Owner p \<in> ni_ID ` set (DataNodes data)}
    \<and> sameButRG (DBPtView db data) (DBPtView db data')
    \<and> (\<forall>p \<in> set (DBPtView db data'). pt_Owner p \<in> ni_ID ` set (DataNodes data) \<longrightarrow>
         pt_RGID p < length (DBRepGroups db data') \<and> rg_hasPt (DBRepGroups db data' ! pt_RGID p) (pt_PtId p))"
proof -
  let ?v = "DBPtView db data" and ?v' = "DBPtView db data'" and ?r' = "DBRepGroups db data'"
  let ?ids = "ni_ID ` set (DataNodes data)"
  let ?ls = "concat (map (\<lambda>n. filter (\<lambda>l. pt_Owner (?v ! l) = ni_ID n) [0..<length ?v]) (DataNodes data))"
  have x: "DBPtView db (expandDBRG db data) = ?v" "DBRepGroups db (expandDBRG db data) = []"
    using assms(1) by (simp_all add: expandDBRG_def DBPtView_def)
  have wf0: "rgsWf replicaN []" by (simp add: rgsWf_def)
  obtain d where d: "loopE (\<lambda>n. NodeHardChooseRG db n (int replicaN)) (DataNodes data) (expandDBRG db data) = (d, None)"
    "joined replicaN (?v, []) (DBPtView db d, DBRepGroups db d) ?ls"
    using createRG_loop [of replicaN db "expandDBRG db data" "DataNodes data", unfolded x, OF wf0 assms(2)] assms(5)
    by auto
  then have e: "e = None" and d': "data' = d" using assms(6) by (simp_all add: NodeHardCreateDBRG_def)
  have j: "joined replicaN (?v, []) (?v', ?r') ?ls" using d(2) d' by simp
  let ?fs = "filter (\<lambda>l. pt_Owner (?v ! l) \<in> ?ids) [0..<length ?v]"
  have ms: "mset ?ls = mset ?fs" by (rule filter_owner_concat [OF assms(3)])
  have ls: "set ?ls = {l. l < length ?v \<and> pt_Owner (?v ! l) \<in> ?ids}"
    using mset_eq_setD [OF ms] by auto
  have "mset (concat (map rg_members ?r')) = image_mset (\<lambda>l. pt_PtId (?v ! l)) (mset ?ls)"
    using j by (simp add: joined_def allMembers_def)
  then have mem: "mset (concat (map rg_members ?r')) = mset (map (\<lambda>l. pt_PtId (?v ! l)) ?fs)"
    unfolding ms by simp
  have "inj_on (\<lambda>l. pt_PtId (?v ! l)) (set ?fs)"
    using assms(4) by (auto simp: inj_on_def distinct_conv_nth)
  then have "distinct (map (\<lambda>l. pt_PtId (?v ! l)) ?fs)" by (simp add: distinct_map)
  then have dist: "distinct (concat (map rg_members ?r'))"
    using mset_eq_imp_distinct_iff [OF mem] by blast
  have set: "set (concat (map rg_members ?r')) = pt_PtId ` {p \<in> set ?v. pt_Owner p \<in> ?ids}"
    unfolding mset_eq_setD [OF mem] by (auto simp: in_set_conv_nth)
  have same: "sameButRG ?v ?v'" and wf: "rgsWf replicaN ?r'" and pl: "\<forall>l \<in> set ?ls. placed ?r' (?v' ! l)"
    using j by (auto simp: joined_def)
  have "placed ?r' p" if "p \<in> set ?v'" "pt_Owner p \<in> ?ids" for p
  proof -
    obtain l where "l < length ?v'" "p = ?v' ! l" using \<open>p \<in> set ?v'\<close> by (metis in_set_conv_nth)
    moreover have "length ?v' = length ?v" using same unfolding sameButRG_def by (metis length_map)
    ultimately show ?thesis using pl that(2) sameButRG_nth(2) [OF same] unfolding ls by auto
  qed
  then show ?thesis using e wf dist set same by (auto simp: placed_def rg_hasPt_members)
qed

section \<open>Elections keep the members\<close>

lemma filter_one_mset:
  "Suc (length (filter (\<lambda>p. f p \<noteq> m) ps)) = length ps \<Longrightarrow>
     mset (map f ps) = add_mset m (mset (map f (filter (\<lambda>p. f p \<noteq> m) ps)))"
proof (induction ps)
  case (Cons p ps)
  show ?case
  proof (cases "f p = m")
    case True
    with Cons.prems have "length (filter (\<lambda>p. f p \<noteq> m) ps) = length ps" by simp
    then have "\<forall>p \<in> set ps. f p \<noteq> m" using length_filter_less [of _ ps "\<lambda>p. f p \<noteq> m"] by fastforce
    then have "filter (\<lambda>p. f p \<noteq> m) ps = ps" by (simp add: filter_id_conv)
    with True show ?thesis by simp
  qed (use Cons in auto)
qed simp

text \<open>C17: An election, computed by \<open>GetNewRg\<close> and applied by \<open>UpdateReplication\<close>, makes a former peer the
  master and the former master a peer, and keeps the members of the group.\<close>

theorem election_permutes_members:
  assumes "GetNewRg db rgId newMaster data = Inr (m, peers)"
    and "UpdateReplication db rgId m peers data = (data', e)"
  shows "e = None \<and> m = newMaster \<and> rg_MasterPtID (DBRepGroups db data' ! rgId) = newMaster
    \<and> newMaster \<noteq> rg_MasterPtID (DBRepGroups db data ! rgId)
    \<and> (\<forall>p \<in> set (rg_Peers (DBRepGroups db data' ! rgId)). pe_PtRole p = 1)
    \<and> mset (rg_members (DBRepGroups db data' ! rgId)) = mset (rg_members (DBRepGroups db data ! rgId))
    \<and> rg_Status (DBRepGroups db data' ! rgId) = rg_Status (DBRepGroups db data ! rgId)"
proof -
  obtain rgs where rgs: "map_of (ReplicaGroups data) db = Some rgs"
    using assms(1) by (auto simp: GetNewRg_def split: option.splits)
  let ?rg = "rgs ! rgId"
  let ?ps = "filter (\<lambda>p. pe_ID p \<noteq> newMaster) (rg_Peers ?rg)"
  have lt: "rgId < u32 (length rgs)" and ne: "newMaster \<noteq> rg_MasterPtID ?rg" and m: "m = newMaster"
    and peers: "peers = \<lparr>pe_ID = rg_MasterPtID ?rg, pe_PtRole = 1\<rparr>
        # map (\<lambda>p. \<lparr>pe_ID = pe_ID p, pe_PtRole = 1\<rparr>) ?ps"
    and len: "Suc (length ?ps) = length (rg_Peers ?rg)"
    using assms(1) by (auto simp: GetNewRg_def rgs Let_def split: if_splits)
  have lt': "rgId < length rgs"
    using lt mod_less_eq_dividend [of "length rgs" "2 ^ 32"] by (simp add: u32_def)
  have res: "e = None" "DBRepGroups db data' ! rgId = ?rg\<lparr>rg_MasterPtID := m, rg_Peers := peers\<rparr>"
    using assms(2) lt' peers by (auto simp: UpdateReplication_def rgs putRG_def DBRepGroups_def)
  have "mset (rg_members (?rg\<lparr>rg_MasterPtID := m, rg_Peers := peers\<rparr>)) = mset (rg_members ?rg)"
    using filter_one_mset [OF len] m peers by (simp add: rg_members_def comp_def)
  then show ?thesis using res m ne peers by (auto simp: DBRepGroups_def rgs)
qed

section \<open>Examples\<close>

definition exampleNode :: "nat \<Rightarrow> DataNode" where
  "exampleNode i =
     \<lparr>ni_ID = i, ni_Host = [], ni_RPCAddr = [], ni_TCPHost = [], ni_Status = 1, ni_LTime = 0, ni_GossipAddr = [],
      ni_SegregateStatus = 0, ni_Role = [], dn_ConnID = 1, dn_AliveConnID = 1, dn_Index = 0, dn_Az = []\<rparr>"

definition exampleCluster :: "nat \<Rightarrow> string Data" where
  "exampleCluster ptNum =
     zeroData\<lparr>ClusterPtNum := ptNum, DataNodes := [exampleNode 1, exampleNode 2],
       PtView := [(''db'', map (\<lambda>i. newPt (if i mod 2 = 0 then 1 else 2) i) [0..<ptNum])]\<rparr>"

definition exampleEnv :: Env where
  "exampleEnv = \<lparr>env_haPolicy = Replication, env_repDisPolicy = NodeHard, env_SchemaCleanEn = False,
     env_logKeeper = False, env_MaxNanoTime = 9223372036854775806, env_HashID = length,
     env_Perm = (\<lambda>_ n. [0..<n])\<rparr>"

lemma exampleCluster_simps [simp]:
  "DataNodes (exampleCluster n) = [exampleNode 1, exampleNode 2]" "DBRepGroups ''db'' (exampleCluster n) = []"
  "DBPtView ''db'' (exampleCluster n) = map (\<lambda>i. newPt (if i mod 2 = 0 then 1 else 2) i) [0..<n]"
  "ClusterPtNum (exampleCluster n) = n" "ni_ID (exampleNode i) = i"
  by (simp_all add: exampleCluster_def exampleNode_def DBRepGroups_def DBPtView_def zeroData_def)

theorem CreateDBPtView_round_robin_witness:
  "DBPtView ''new'' (fst (snd (CreateDBPtView exampleEnv ''new'' (exampleCluster 2)))) =
     [\<lparr>pt_Owner = 1, pt_Status = 3, pt_PtId = 0, pt_Ver = 1, pt_RGID = 0\<rparr>,
      \<lparr>pt_Owner = 2, pt_Status = 3, pt_PtId = 1, pt_Ver = 1, pt_RGID = 0\<rparr>]"
proof -
  have nodes: "GetWriteNode (exampleCluster 2) = [exampleNode 1, exampleNode 2]"
    by (simp add: GetWriteNode_def IsNodeWriter_def) (simp add: exampleNode_def)
  have none: "map_of (PtView (exampleCluster 2)) ''new'' = None"
    by (simp add: exampleCluster_def)
  show ?thesis
    using CreateDBPtView_round_robin [OF none, of "[exampleNode 1, exampleNode 2]" exampleEnv
        "fst (CreateDBPtView exampleEnv ''new'' (exampleCluster 2))"
        "fst (snd (CreateDBPtView exampleEnv ''new'' (exampleCluster 2)))"
        "snd (snd (CreateDBPtView exampleEnv ''new'' (exampleCluster 2)))"]
    by (simp add: nodes exampleEnv_def upt_rec)
qed


theorem NodeHardCreateDBRG_groups_witness:
  "rgsWf 2 (DBRepGroups ''db'' (fst (NodeHardCreateDBRG ''db'' (int 2) (exampleCluster 4))))"
  using NodeHardCreateDBRG_groups [of "''db''" "exampleCluster 4" 2
      "fst (NodeHardCreateDBRG ''db'' (int 2) (exampleCluster 4))"
      "snd (NodeHardCreateDBRG ''db'' (int 2) (exampleCluster 4))"]
  by (simp add: comp_def newPt_def upt_rec)

theorem election_permutes_members_witness:
  "rg_MasterPtID (DBRepGroups ''db'' (fst (UpdateReplication ''db'' 0 5 [\<lparr>pe_ID = 3, pe_PtRole = 1\<rparr>]
     ((exampleCluster 2)\<lparr>ReplicaGroups := [(''db'', [NewReplicaGroup 0 3 [\<lparr>pe_ID = 5, pe_PtRole = 1\<rparr>] 1 0])]\<rparr>))) ! 0) = 5"
  using election_permutes_members [of "''db''" 0 5
      "(exampleCluster 2)\<lparr>ReplicaGroups := [(''db'', [NewReplicaGroup 0 3 [\<lparr>pe_ID = 5, pe_PtRole = 1\<rparr>] 1 0])]\<rparr>"
      5 "[\<lparr>pe_ID = 3, pe_PtRole = 1\<rparr>]"]
  by (simp add: GetNewRg_def UpdateReplication_def NewReplicaGroup_def)


end
