(* ===== verification/MetaShards.thy ===== *)
theory MetaShards
  imports MetaRP MetaPt
begin

text \<open>
  Shard groups and index groups of a policy: creation for a timestamp, splitting of a range-sharded
  group, expansion when partitions are added, deletion marks and pruning (\<open>data.go\<close>). The operations
  change a policy through a pointer and the id counters of \<open>Data\<close>; here they take and return both.
  The lemmas show that a timestamp finds its group after it has been created, that groups stay
  sorted, that the shards of a split group partition the shard keys, and that ids are never reused.
\<close>

section \<open>Finding and changing a policy\<close>

definition data_Database :: "string \<Rightarrow> 'c Data \<Rightarrow> DatabaseInfo option" where
  "data_Database name data = map_of (Databases data) name"

definition data_GetDatabase :: "string \<Rightarrow> 'c Data \<Rightarrow> err + DatabaseInfo" where
  "data_GetDatabase name data =
     (case data_Database name data of
        None \<Rightarrow> Inl (Errno ''DatabaseNotFound'')
      | Some dbi \<Rightarrow> if db_MarkDeleted dbi then Inl (Errno ''DatabaseIsBeingDelete'') else Inr dbi)"

definition data_RetentionPolicy :: "string \<Rightarrow> string \<Rightarrow> 'c Data \<Rightarrow> err + RetentionPolicyInfo" where
  "data_RetentionPolicy database name data =
     (case data_GetDatabase database data of
        Inl e \<Rightarrow> Inl e
      | Inr di \<Rightarrow> db_GetRetentionPolicy di name)"

definition putDB :: "string \<Rightarrow> (DatabaseInfo \<Rightarrow> DatabaseInfo) \<Rightarrow> 'c Data \<Rightarrow> 'c Data" where
  "putDB database f data = data\<lparr>Databases := mmodify database f (Databases data)\<rparr>"

definition putRP :: "string \<Rightarrow> string \<Rightarrow> (RetentionPolicyInfo \<Rightarrow> RetentionPolicyInfo) \<Rightarrow> 'c Data \<Rightarrow> 'c Data" where
  "putRP database policy f =
     putDB database (\<lambda>di. di\<lparr>db_RetentionPolicies := mmodify (rpKey di policy) f (db_RetentionPolicies di)\<rparr>)"

definition checkStoreReady :: "'c Data \<Rightarrow> err option" where
  "checkStoreReady data = (if ClusterPtNum data = 0 then Some (Err ''ErrStorageNodeNotReady'') else None)"

section \<open>Index groups\<close>

definition clipEnd :: "Env \<Rightarrow> time \<Rightarrow> time" where
  "clipEnd env t = (if t > Unix0 (env_MaxNanoTime env) then Unix0 (env_MaxNanoTime env + 1) else t)"

definition newIndexes :: "nat \<Rightarrow> nat \<Rightarrow> IndexInfo list" where
  "newIndexes maxID n = map (\<lambda>i. \<lparr>ii_ID = u64 (maxID + i + 1), ii_Owners = [i], ii_MarkDelete = False\<rparr>) [0..<n]"

definition CreateIndexGroup ::
  "Env \<Rightarrow> time \<Rightarrow> nat \<Rightarrow> nat \<Rightarrow> RetentionPolicyInfo \<Rightarrow> 'c Data \<Rightarrow> IndexGroupInfo \<times> RetentionPolicyInfo \<times> 'c Data" where
  "CreateIndexGroup env timestamp engineType ptNum rpi data =
     (let start = Truncate timestamp (rp_IndexGroupDuration rpi);
          igi = \<lparr>ig_ID = u64 (MaxIndexGroupID data + 1), ig_StartTime = start,
                 ig_EndTime = clipEnd env (start + rp_IndexGroupDuration rpi),
                 ig_Indexes = newIndexes (MaxIndexID data) ptNum, ig_DeletedAt = 0, ig_EngineType = engineType\<rparr>
      in (igi, rpi\<lparr>rp_IndexGroups := sortIndexGroups (rp_IndexGroups rpi @ [igi])\<rparr>,
          data\<lparr>MaxIndexGroupID := u64 (MaxIndexGroupID data + 1), MaxIndexID := u64 (MaxIndexID data + ptNum)\<rparr>))"

definition createIndexGroupIfNeeded ::
  "Env \<Rightarrow> time \<Rightarrow> nat \<Rightarrow> nat \<Rightarrow> RetentionPolicyInfo \<Rightarrow> 'c Data \<Rightarrow> IndexGroupInfo \<times> RetentionPolicyInfo \<times> 'c Data" where
  "createIndexGroupIfNeeded env timestamp engineType ptNum rpi data =
     (case find (\<lambda>g. ig_EngineType g = engineType \<and> ig_Contains g timestamp) (rp_IndexGroups rpi) of
        None \<Rightarrow> CreateIndexGroup env timestamp engineType ptNum rpi data
      | Some g \<Rightarrow>
          if length (ig_Indexes g) \<ge> ptNum then (g, rpi, data)
          else CreateIndexGroup env timestamp engineType ptNum rpi data)"

section \<open>Creating the shard group of a timestamp\<close>

definition newShardGroup ::
  "Env \<Rightarrow> time \<Rightarrow> nat \<Rightarrow> nat \<Rightarrow> RetentionPolicyInfo \<Rightarrow> 'c Data \<Rightarrow> ShardGroupInfo \<times> 'c Data" where
  "newShardGroup env timestamp engineType version rpi data =
     (let start = Truncate timestamp (rp_ShardGroupDuration rpi) in
      (\<lparr>sg_ID = u64 (MaxShardGroupID data + 1), sg_StartTime = start,
        sg_EndTime = clipEnd env (start + rp_ShardGroupDuration rpi), sg_DeletedAt = 0, sg_Shards = [],
        sg_TruncatedAt = 0, sg_EngineType = engineType, sg_Version = version\<rparr>,
       data\<lparr>MaxShardGroupID := u64 (MaxShardGroupID data + 1)\<rparr>))"

definition newShard :: "nat \<Rightarrow> nat \<Rightarrow> nat list \<Rightarrow> nat \<Rightarrow> string \<Rightarrow> string \<Rightarrow> ShardInfo" where
  "newShard i tier owners indexID mn mx =
     \<lparr>sh_ID = i, sh_Owners = owners, sh_Min = mn, sh_Max = mx, sh_Tier = tier, sh_IndexID = indexID,
      sh_DownSampleID = 0, sh_DownSampleLevel = 0, sh_ReadOnly = False, sh_MarkDelete = False\<rparr>"

text \<open>
  \<open>createShards\<close>: hash sharding makes one shard per partition; range sharding copies the key ranges of
  the last group. A shard is owned by the partitions \<open>ptId\<close> with \<open>ptId mod shardN = i\<close>.
\<close>

definition createShards ::
  "IndexGroupInfo \<Rightarrow> RetentionPolicyInfo \<Rightarrow> MeasurementInfo \<Rightarrow> nat \<Rightarrow> ShardGroupInfo \<Rightarrow> 'c Data
     \<Rightarrow> ShardGroupInfo \<times> 'c Data" where
  "createShards igi rpi msti tier sgi data =
     (let shardN = ClusterPtNum data;
          range = (ms_ShardKeys msti \<noteq> [] \<and> ski_Type (hd (ms_ShardKeys msti)) = RANGE);
          lastSgi = (if range \<and> rp_ShardGroups rpi \<noteq> [] then Some (last (rp_ShardGroups rpi)) else None);
          n = (if range then (case lastSgi of None \<Rightarrow> 1 | Some l \<Rightarrow> length (sg_Shards l)) else shardN);
          mk = (\<lambda>i. let owners = filter (\<lambda>ptId. ptId mod shardN = i) [0..<shardN];
                        bounds = (case lastSgi of None \<Rightarrow> ([], [])
                                  | Some l \<Rightarrow> (sh_Min (sg_Shards l ! i), sh_Max (sg_Shards l ! i)))
                    in newShard (u64 (MaxShardID data + i + 1)) tier owners
                         (if owners = [] then 0 else ii_ID (ig_Indexes igi ! last owners)) (fst bounds) (snd bounds))
      in (sgi\<lparr>sg_Shards := map mk [0..<n]\<rparr>, data\<lparr>MaxShardID := u64 (MaxShardID data + n)\<rparr>))"

text \<open>\<open>mapShards\<close>: the first \<open>numOfShards\<close> entries of a permutation, sorted; None is a slice out of range.\<close>

definition mapShards :: "Env \<Rightarrow> string \<Rightarrow> ShardInfo list \<Rightarrow> int \<Rightarrow> nat list option" where
  "mapShards env mstName shards numOfShards =
     (if 0 \<le> numOfShards \<and> numOfShards \<le> int (length shards)
      then Some (sort (take (nat numOfShards) (env_Perm env (env_HashID env mstName) (length shards))))
      else None)"

definition mapShardsMst :: "Env \<Rightarrow> ShardGroupInfo \<Rightarrow> string \<Rightarrow> MeasurementInfo \<Rightarrow> MeasurementInfo option" where
  "mapShardsMst env sgi mstName msti =
     (if ms_InitNumOfShards msti = 0 then Some msti
      else case ms_ShardIdexes msti of
        None \<Rightarrow> Some msti
      | Some m \<Rightarrow> map_option (\<lambda>idx. msti\<lparr>ms_ShardIdexes := Some (AList.update (sg_ID sgi) idx m)\<rparr>)
                   (mapShards env mstName (sg_Shards sgi) (ms_InitNumOfShards msti)))"

definition mapShardsToMst :: "Env \<Rightarrow> ShardGroupInfo \<Rightarrow> RetentionPolicyInfo \<Rightarrow> RetentionPolicyInfo option" where
  "mapShardsToMst env sgi rpi =
     (let ms = map (\<lambda>(k, m). (k, mapShardsMst env sgi k m)) (rp_Measurements rpi) in
      if None \<in> snd ` set ms then None
      else Some (rpi\<lparr>rp_Measurements := map (\<lambda>(k, m). (k, the m)) ms\<rparr>))"

text \<open>The part of \<open>CreateShardGroup\<close> after its checks, for the measurement \<open>msti\<close> that the range loop found.\<close>

definition addShardGroup ::
  "Env \<Rightarrow> time \<Rightarrow> nat \<Rightarrow> nat \<Rightarrow> nat \<Rightarrow> MeasurementInfo \<Rightarrow> RetentionPolicyInfo \<Rightarrow> 'c Data
     \<Rightarrow> err + (RetentionPolicyInfo \<times> 'c Data)" where
  "addShardGroup env timestamp tier engineType version msti rpi data =
     (let (igi, rpi1, d1) = createIndexGroupIfNeeded env timestamp engineType (ClusterPtNum data) rpi data;
          (sgi0, d2) = newShardGroup env timestamp engineType version rpi1 d1;
          (sgi, d3) = createShards igi rpi1 msti tier sgi0 d2
      in if ms_ShardKeys msti = [] then Inl index_panic
         else case (if ski_Type (hd (ms_ShardKeys msti)) = HASH then mapShardsToMst env sgi rpi1 else Some rpi1) of
           None \<Rightarrow> Inl index_panic
         | Some rpi2 \<Rightarrow> Inr (rpi2\<lparr>rp_ShardGroups := sortShardGroups (rp_ShardGroups rpi2 @ [sgi])\<rparr>, d3))"

definition CreateShardGroup ::
  "Env \<Rightarrow> string \<Rightarrow> string \<Rightarrow> time \<Rightarrow> nat \<Rightarrow> nat \<Rightarrow> nat \<Rightarrow> 'c Data \<Rightarrow> 'c Data \<times> err option" where
  "CreateShardGroup env database policy timestamp tier engineType version data =
     (case checkStoreReady data of
        Some e \<Rightarrow> (data, Some e)
      | None \<Rightarrow>
          (case data_RetentionPolicy database policy data of
             Inl e \<Rightarrow> (data, Some e)
           | Inr rpi \<Rightarrow>
               if rp_ShardGroupByTimestampAndEngineType rpi timestamp engineType \<noteq> None then (data, None)
               else (case rp_Measurements rpi of
                 [] \<Rightarrow> (data, Some (Errorf ''there is no measurement in database''))
               | (_, msti) # _ \<Rightarrow>
                   (case addShardGroup env timestamp tier engineType version msti rpi data of
                      Inl e \<Rightarrow> (data, Some e)
                    | Inr (rpi', data') \<Rightarrow> (putRP database policy (\<lambda>_. rpi') data', None)))))"

definition GetTierOfShardGroup ::
  "Env \<Rightarrow> time \<Rightarrow> string \<Rightarrow> string \<Rightarrow> time \<Rightarrow> nat \<Rightarrow> nat \<Rightarrow> 'c Data \<Rightarrow> err + (ShardGroupInfo option \<times> nat)" where
  "GetTierOfShardGroup env now database policy timestamp defaultTier engineType data =
     (case data_RetentionPolicy database policy data of
        Inl e \<Rightarrow> Inl e
      | Inr rpi \<Rightarrow>
          (case rp_ShardGroupByTimestampAndEngineType rpi timestamp engineType of
             Some sgi \<Rightarrow> Inr (Some sgi, 0)
           | None \<Rightarrow>
               let endTime = clipEnd env (Truncate timestamp (rp_ShardGroupDuration rpi) + rp_ShardGroupDuration rpi)
               in Inr (None, if rp_HotDuration rpi > 0 \<and> endTime + rp_HotDuration rpi < now then Warm else defaultTier)))"

definition data_ShardGroups :: "string \<Rightarrow> string \<Rightarrow> 'c Data \<Rightarrow> err + ShardGroupInfo list" where
  "data_ShardGroups database policy data =
     (case data_RetentionPolicy database policy data of
        Inl e \<Rightarrow> Inl e
      | Inr rpi \<Rightarrow> Inr (filter (\<lambda>g. \<not> sg_Deleted g) (rp_ShardGroups rpi)))"

definition data_ShardGroupsByTimeRange :: "string \<Rightarrow> string \<Rightarrow> time \<Rightarrow> time \<Rightarrow> 'c Data \<Rightarrow> err + ShardGroupInfo list" where
  "data_ShardGroupsByTimeRange database policy tmin tmax data =
     (case data_RetentionPolicy database policy data of
        Inl e \<Rightarrow> Inl e
      | Inr rpi \<Rightarrow> Inr (filter (\<lambda>g. \<not> (sg_Deleted g \<or> \<not> sg_Overlaps g tmin tmax)) (rp_ShardGroups rpi)))"

definition data_ShardGroupByTimestampAndEngineType ::
  "string \<Rightarrow> string \<Rightarrow> time \<Rightarrow> nat \<Rightarrow> 'c Data \<Rightarrow> err + ShardGroupInfo option" where
  "data_ShardGroupByTimestampAndEngineType database policy timestamp engineType data =
     (case data_RetentionPolicy database policy data of
        Inl e \<Rightarrow> Inl e
      | Inr rpi \<Rightarrow> Inr (rp_ShardGroupByTimestampAndEngineType rpi timestamp engineType))"

section \<open>Splitting the newest group of a range-sharded policy\<close>

record ReShardingInfo =
  rs_Database :: string
  rs_Rp :: string
  rs_ShardGroupID :: nat
  rs_SplitTime :: int
  rs_Bounds :: "string list"

definition createIndexGroup :: "time \<Rightarrow> RetentionPolicyInfo \<Rightarrow> 'c Data \<Rightarrow> RetentionPolicyInfo \<times> 'c Data" where
  "createIndexGroup startTime rp data =
     (let endTime = sg_EndTime (last (rp_ShardGroups rp));
          endTime' = (case findLast (\<lambda>g. ig_Overlaps g startTime endTime) (rp_IndexGroups rp) of
                        None \<Rightarrow> endTime | Some g \<Rightarrow> ig_EndTime g);
          igi = \<lparr>ig_ID = u64 (MaxIndexGroupID data + 1), ig_StartTime = startTime, ig_EndTime = endTime',
                 ig_Indexes = newIndexes (MaxIndexID data) (ClusterPtNum data), ig_DeletedAt = 0, ig_EngineType = 0\<rparr>
      in (rp\<lparr>rp_IndexGroups := sortIndexGroups (rp_IndexGroups rp @ [igi])\<rparr>,
          data\<lparr>MaxIndexGroupID := u64 (MaxIndexGroupID data + 1),
               MaxIndexID := u64 (MaxIndexID data + ClusterPtNum data)\<rparr>))"

text \<open>
  The shards of \<open>CreateShardGroupWithBounds\<close>: shard \<open>i\<close> holds the keys from bound \<open>i - 1\<close> up to bound
  \<open>i\<close> and belongs to the first partition congruent to \<open>i\<close>, if there is one.
\<close>

definition boundedShards :: "nat \<Rightarrow> nat \<Rightarrow> nat \<Rightarrow> IndexGroupInfo \<Rightarrow> string list \<Rightarrow> ShardInfo list" where
  "boundedShards maxID ptNum tier igi bounds =
     (let shardN = length bounds + 1 in
      map (\<lambda>i. let owner = find (\<lambda>ptId. ptId mod shardN = i) [0..<ptNum] in
               newShard (u64 (maxID + i + 1)) tier
                 (case owner of None \<Rightarrow> [] | Some ptId \<Rightarrow> [ptId])
                 (case owner of None \<Rightarrow> 0 | Some ptId \<Rightarrow> ii_ID (ig_Indexes igi ! ptId))
                 (if i > 0 then bounds ! (i - 1) else [])
                 (if i \<noteq> shardN - 1 then bounds ! i else []))
        [0..<shardN])"

definition CreateShardGroupWithBounds ::
  "time \<Rightarrow> string list \<Rightarrow> nat \<Rightarrow> RetentionPolicyInfo \<Rightarrow> 'c Data \<Rightarrow> err + (RetentionPolicyInfo \<times> 'c Data)" where
  "CreateShardGroupWithBounds startTime bounds engineType rp data =
     (let lastSg = last (rp_ShardGroups rp);
          igi = last (rp_IndexGroups rp);
          shardN = length bounds + 1
      in if sg_Shards lastSg = []
            \<or> (\<exists>ptId < min shardN (ClusterPtNum data). length (ig_Indexes igi) \<le> ptId) then Inl index_panic
         else
           let sgi = \<lparr>sg_ID = u64 (MaxShardGroupID data + 1), sg_StartTime = startTime,
                      sg_EndTime = sg_EndTime lastSg, sg_DeletedAt = 0,
                      sg_Shards = boundedShards (MaxShardID data) (ClusterPtNum data)
                        (sh_Tier (hd (sg_Shards lastSg))) igi bounds,
                      sg_TruncatedAt = 0, sg_EngineType = engineType, sg_Version = 0\<rparr>
           in Inr (rp\<lparr>rp_ShardGroups := sortShardGroups (rp_ShardGroups rp @ [sgi])\<rparr>,
                   data\<lparr>MaxShardGroupID := u64 (MaxShardGroupID data + 1),
                        MaxShardID := u64 (MaxShardID data + shardN)\<rparr>))"

definition ReSharding :: "ReShardingInfo \<Rightarrow> 'c Data \<Rightarrow> 'c Data \<times> err option" where
  "ReSharding info data =
     (case data_RetentionPolicy (rs_Database info) (rs_Rp info) data of
        Inl e \<Rightarrow> (data, Some e)
      | Inr rp \<Rightarrow>
          if rp_ShardGroups rp = [] then (data, Some (Err ''ErrShardGroupNotFound''))
          else if sg_ID (last (rp_ShardGroups rp)) \<noteq> rs_ShardGroupID info
            then (data, Some (Errorf ''ErrShardGroupAlreadyReSharding''))
          else
            let startTime = Unix0 (rs_SplitTime info + 1);
                (rp1, d1) = createIndexGroup startTime rp data
            in case CreateShardGroupWithBounds startTime (rs_Bounds info)
                      (sg_EngineType (last (rp_ShardGroups rp))) rp1 d1 of
                 Inl e \<Rightarrow> (data, Some e)
               | Inr (rp2, d2) \<Rightarrow> (putRP (rs_Database info) (rs_Rp info) (\<lambda>_. rp2) d2, None))"

section \<open>Expanding the groups to new partitions\<close>

text \<open>A walk that changes each element and threads the state; an error (a panic) stops it.\<close>

fun walkE :: "('a \<Rightarrow> 's \<Rightarrow> err + ('a \<times> 's)) \<Rightarrow> 'a list \<Rightarrow> 's \<Rightarrow> err + ('a list \<times> 's)" where
  "walkE f [] s = Inr ([], s)"
| "walkE f (x # xs) s =
     (case f x s of
        Inl e \<Rightarrow> Inl e
      | Inr (y, s') \<Rightarrow> (case walkE f xs s' of Inl e \<Rightarrow> Inl e | Inr (ys, s'') \<Rightarrow> Inr (y # ys, s'')))"

definition expandIndexes :: "nat \<Rightarrow> IndexGroupInfo \<Rightarrow> 'c Data \<Rightarrow> err + (IndexGroupInfo \<times> 'c Data)" where
  "expandIndexes ptNum ig data =
     (let n = length (ig_Indexes ig) in
      Inr (ig\<lparr>ig_Indexes := ig_Indexes ig @
             map (\<lambda>i. \<lparr>ii_ID = u64 (MaxIndexID data + (i - n) + 1), ii_Owners = [i], ii_MarkDelete = False\<rparr>) [n..<ptNum]\<rparr>,
           data\<lparr>MaxIndexID := u64 (MaxIndexID data + (ptNum - n))\<rparr>))"

definition expandShard ::
  "Env \<Rightarrow> nat \<Rightarrow> nat \<Rightarrow> ShardGroupInfo \<times> RetentionPolicyInfo \<times> 'c Data
     \<Rightarrow> (ShardGroupInfo \<times> RetentionPolicyInfo \<times> 'c Data) \<times> err option" where
  "expandShard env ptNum i s =
     (case s of (sg, rp, data) \<Rightarrow>
        let (igi, rp', data') = createIndexGroupIfNeeded env (sg_StartTime sg) (sg_EngineType sg) ptNum rp data in
        if i = 0 then (s, Some index_panic)
        else ((sg\<lparr>sg_Shards := sg_Shards sg @
                  [newShard (u64 (MaxShardID data' + 1)) (sh_Tier (sg_Shards sg ! (i - 1))) [i]
                     (ii_ID (ig_Indexes igi ! i)) [] []]\<rparr>,
               rp', data'\<lparr>MaxShardID := u64 (MaxShardID data' + 1)\<rparr>), None))"

definition expandShards ::
  "Env \<Rightarrow> nat \<Rightarrow> ShardGroupInfo \<Rightarrow> RetentionPolicyInfo \<times> 'c Data
     \<Rightarrow> err + (ShardGroupInfo \<times> RetentionPolicyInfo \<times> 'c Data)" where
  "expandShards env ptNum sg s =
     (case loopE (expandShard env ptNum) [length (sg_Shards sg)..<ptNum] (sg, s) of
        (_, Some e) \<Rightarrow> Inl e
      | (s', None) \<Rightarrow> Inr s')"

definition expandRP :: "Env \<Rightarrow> nat \<Rightarrow> RetentionPolicyInfo \<Rightarrow> 'c Data \<Rightarrow> err + (RetentionPolicyInfo \<times> 'c Data)" where
  "expandRP env ptNum rp data =
     (if shardingType rp = RANGE then Inr (rp, data)
      else case walkE (expandIndexes ptNum) (rp_IndexGroups rp) data of
        Inl e \<Rightarrow> Inl e
      | Inr (igs, d1) \<Rightarrow>
          (case walkE (expandShards env ptNum) (rp_ShardGroups rp) (rp\<lparr>rp_IndexGroups := igs\<rparr>, d1) of
             Inl e \<Rightarrow> Inl e
           | Inr (sgs, rp2, d2) \<Rightarrow> Inr (rp2\<lparr>rp_ShardGroups := sgs\<rparr>, d2)))"

definition walkMap :: "('v \<Rightarrow> 's \<Rightarrow> err + ('v \<times> 's)) \<Rightarrow> (string, 'v) gomap \<Rightarrow> 's \<Rightarrow> err + ((string, 'v) gomap \<times> 's)" where
  "walkMap f m = walkE (\<lambda>(k, v) s. case f v s of Inl e \<Rightarrow> Inl e | Inr (v', s') \<Rightarrow> Inr ((k, v'), s')) (sort_key fst m)"

definition expandDB :: "Env \<Rightarrow> nat \<Rightarrow> DatabaseInfo \<Rightarrow> 'c Data \<Rightarrow> err + (DatabaseInfo \<times> 'c Data)" where
  "expandDB env ptNum db data =
     (case walkMap (expandRP env ptNum) (db_RetentionPolicies db) data of
        Inl e \<Rightarrow> Inl e
      | Inr (rps, data') \<Rightarrow> Inr (db\<lparr>db_RetentionPolicies := rps\<rparr>, data'))"

text \<open>\<open>ExpandGroups\<close> walks the databases and their policies in the order of their names.\<close>

definition ExpandGroups :: "Env \<Rightarrow> 'c Data \<Rightarrow> err + 'c Data" where
  "ExpandGroups env data =
     (case walkMap (expandDB env (ClusterPtNum data)) (Databases data) data of
        Inl e \<Rightarrow> Inl e
      | Inr (dbs, data') \<Rightarrow> Inr (data'\<lparr>Databases := dbs\<rparr>))"

section \<open>Deleting and pruning groups\<close>

abbreviation (input) MarkDelete :: int where "MarkDelete \<equiv> 0"
abbreviation (input) CancelDelete :: int where "CancelDelete \<equiv> 1"

definition DeleteIndexGroup :: "time \<Rightarrow> string \<Rightarrow> string \<Rightarrow> nat \<Rightarrow> 'c Data \<Rightarrow> 'c Data \<times> err option" where
  "DeleteIndexGroup now database policy i data =
     (case data_RetentionPolicy database policy data of
        Inl e \<Rightarrow> (data, Some e)
      | Inr _ \<Rightarrow>
          (putRP database policy (\<lambda>rpi. rpi\<lparr>rp_IndexGroups :=
             updFirst (\<lambda>g. ig_ID g = i) (\<lambda>g. g\<lparr>ig_DeletedAt := now\<rparr>) (rp_IndexGroups rpi)\<rparr>) data, None))"

definition DeleteShardGroup ::
  "time \<Rightarrow> string \<Rightarrow> string \<Rightarrow> nat \<Rightarrow> int \<Rightarrow> int \<Rightarrow> 'c Data \<Rightarrow> 'c Data \<times> err option" where
  "DeleteShardGroup now database policy i deletedAt deleteType data =
     (case data_RetentionPolicy database policy data of
        Inl e \<Rightarrow> (data, Some e)
      | Inr _ \<Rightarrow>
          (putRP database policy (\<lambda>rpi. rpi\<lparr>rp_ShardGroups :=
             updFirst (\<lambda>g. sg_ID g = i)
               (\<lambda>g. g\<lparr>sg_DeletedAt := if deleteType = CancelDelete then 0
                                      else if deletedAt \<noteq> 0 then Unix0 deletedAt else now\<rparr>)
               (rp_ShardGroups rpi)\<rparr>) data, None))"

definition markIndex :: "nat \<Rightarrow> IndexGroupInfo \<Rightarrow> IndexGroupInfo" where
  "markIndex i g =
     (if i \<ge> ii_ID (hd (ig_Indexes g)) \<and> i \<le> ii_ID (last (ig_Indexes g)) then
        let pos = sortSearch (length (ig_Indexes g)) (\<lambda>k. ii_ID (ig_Indexes g ! k) \<ge> i) in
        g\<lparr>ig_Indexes := (ig_Indexes g)[pos := (ig_Indexes g ! pos)\<lparr>ii_MarkDelete := True\<rparr>]\<rparr>
      else g)"

fun pruneIndexLoop :: "nat \<Rightarrow> IndexGroupInfo list \<Rightarrow> err + IndexGroupInfo list" where
  "pruneIndexLoop i [] = Inr []"
| "pruneIndexLoop i (g # gs) =
     (if ig_Indexes g = [] then Inl index_panic
      else let g' = markIndex i g in
           case pruneIndexLoop i gs of
             Inl e \<Rightarrow> Inl e
           | Inr gs' \<Rightarrow> Inr (if ig_canDelete g' then gs' else g' # gs'))"

definition markShard :: "nat \<Rightarrow> ShardGroupInfo \<Rightarrow> ShardGroupInfo" where
  "markShard i g =
     (if i \<ge> sh_ID (hd (sg_Shards g)) \<and> i \<le> sh_ID (last (sg_Shards g)) then
        let pos = sortSearch (length (sg_Shards g)) (\<lambda>k. sh_ID (sg_Shards g ! k) \<ge> i) in
        g\<lparr>sg_Shards := (sg_Shards g)[pos := (sg_Shards g ! pos)\<lparr>sh_MarkDelete := True\<rparr>]\<rparr>
      else g)"

definition forgetShardGroup :: "nat \<Rightarrow> MeasurementInfo \<Rightarrow> MeasurementInfo" where
  "forgetShardGroup gid msti =
     (if ms_InitNumOfShards msti = 0 then msti
      else msti\<lparr>ms_ShardIdexes := map_option (AList.delete gid) (ms_ShardIdexes msti)\<rparr>)"

record PruneState =
  ps_Measurements :: "(string, MeasurementInfo) gomap"
  ps_endTime :: int
  ps_deleteSg :: bool

fun pruneShardLoop :: "nat \<Rightarrow> ShardGroupInfo list \<Rightarrow> PruneState \<Rightarrow> err + (ShardGroupInfo list \<times> PruneState)" where
  "pruneShardLoop i [] s = Inr ([], s)"
| "pruneShardLoop i (g # gs) s =
     (if sg_Shards g = [] then Inl index_panic
      else let g' = markShard i g in
           if \<not> IsZero (sg_DeletedAt g') \<and> sg_canDelete g' then
             pruneShardLoop i gs
               \<lparr>ps_Measurements = mmap (forgetShardGroup (sg_ID g')) (ps_Measurements s),
                ps_endTime = (if UnixNano (sg_EndTime g') > ps_endTime s then UnixNano (sg_EndTime g') else ps_endTime s),
                ps_deleteSg = True\<rparr>
           else case pruneShardLoop i gs s of
             Inl e \<Rightarrow> Inl e
           | Inr (gs', s') \<Rightarrow> Inr (g' # gs', s'))"

definition TimeReserveHigh32 :: "int \<Rightarrow> int" where
  "TimeReserveHigh32 t = i32 (t div 2 ^ 32)"

definition mst_SchemaClean :: "int \<Rightarrow> MeasurementInfo \<Rightarrow> MeasurementInfo" where
  "mst_SchemaClean sgEndTime msti =
     (if ms_EngineType msti \<noteq> TSSTORE then msti
      else let endTime = TimeReserveHigh32 sgEndTime in
           msti\<lparr>ms_Schema := filter (\<lambda>(k, v). \<not> sv_EndTime v \<le> endTime) (ms_Schema msti)\<rparr>)"

definition SchemaClean :: "int \<Rightarrow> RetentionPolicyInfo \<Rightarrow> RetentionPolicyInfo" where
  "SchemaClean sgEndTime rp = rp\<lparr>rp_Measurements := mmap (mst_SchemaClean sgEndTime) (rp_Measurements rp)\<rparr>"

definition pruneIndexRP :: "nat \<Rightarrow> RetentionPolicyInfo \<Rightarrow> err + RetentionPolicyInfo" where
  "pruneIndexRP i rp =
     (case pruneIndexLoop i (rp_IndexGroups rp) of
        Inl e \<Rightarrow> Inl e | Inr gs \<Rightarrow> Inr (rp\<lparr>rp_IndexGroups := gs\<rparr>))"

definition pruneShardRP :: "Env \<Rightarrow> nat \<Rightarrow> RetentionPolicyInfo \<Rightarrow> err + RetentionPolicyInfo" where
  "pruneShardRP env i rp =
     (case pruneShardLoop i (rp_ShardGroups rp)
             \<lparr>ps_Measurements = rp_Measurements rp, ps_endTime = 0, ps_deleteSg = False\<rparr> of
        Inl e \<Rightarrow> Inl e
      | Inr (gs, s) \<Rightarrow>
          let rp' = rp\<lparr>rp_ShardGroups := gs, rp_Measurements := ps_Measurements s\<rparr> in
          Inr (if env_SchemaCleanEn env \<and> ps_deleteSg s then SchemaClean (ps_endTime s) rp' else rp'))"

text \<open>\<open>WalkDatabases\<close> and \<open>WalkRetentionPolicy\<close> for a policy operation that may panic.\<close>

fun mapE :: "('v \<Rightarrow> err + 'w) \<Rightarrow> ('k, 'v) gomap \<Rightarrow> err + ('k, 'w) gomap" where
  "mapE f [] = Inr []"
| "mapE f ((k, v) # m) =
     (case f v of
        Inl e \<Rightarrow> Inl e
      | Inr v' \<Rightarrow> (case mapE f m of Inl e \<Rightarrow> Inl e | Inr m' \<Rightarrow> Inr ((k, v') # m')))"

definition walkRPs :: "(RetentionPolicyInfo \<Rightarrow> err + RetentionPolicyInfo) \<Rightarrow> 'c Data \<Rightarrow> 'c Data \<times> err option" where
  "walkRPs f data =
     (case mapE (\<lambda>db. case mapE f (db_RetentionPolicies db) of
                   Inl e \<Rightarrow> Inl e | Inr rps \<Rightarrow> Inr (db\<lparr>db_RetentionPolicies := rps\<rparr>)) (Databases data) of
        Inl e \<Rightarrow> (data, Some e)
      | Inr dbs \<Rightarrow> (data\<lparr>Databases := dbs\<rparr>, None))"

definition pruneIndexGroups :: "nat \<Rightarrow> 'c Data \<Rightarrow> 'c Data \<times> err option" where
  "pruneIndexGroups i = walkRPs (pruneIndexRP i)"

definition pruneShardGroups :: "Env \<Rightarrow> nat \<Rightarrow> 'c Data \<Rightarrow> 'c Data \<times> err option" where
  "pruneShardGroups env i = walkRPs (pruneShardRP env i)"

definition PruneGroups :: "Env \<Rightarrow> bool \<Rightarrow> nat \<Rightarrow> 'c Data \<Rightarrow> 'c Data \<times> err option" where
  "PruneGroups env shardGroup i = (if shardGroup then pruneShardGroups env i else pruneIndexGroups i)"

section \<open>Dropping a shard, tiers and down-sampling\<close>

text \<open>\<open>DropShard\<close>: the loops over the maps run in the order of the association lists; only the first
  group with the shard is changed.\<close>

definition dropFrom :: "time \<Rightarrow> nat \<Rightarrow> ShardGroupInfo \<Rightarrow> ShardGroupInfo" where
  "dropFrom now i sg =
     sg\<lparr>sg_Shards := delFirst (\<lambda>s. sh_ID s = i) (sg_Shards sg),
        sg_DeletedAt := if length (sg_Shards sg) = 1 then now else sg_DeletedAt sg\<rparr>"

definition hasShard :: "nat \<Rightarrow> ShardGroupInfo \<Rightarrow> bool" where
  "hasShard i sg = list_ex (\<lambda>s. sh_ID s = i) (sg_Shards sg)"

definition rpHasShard :: "nat \<Rightarrow> RetentionPolicyInfo \<Rightarrow> bool" where
  "rpHasShard i rp = list_ex (hasShard i) (rp_ShardGroups rp)"

definition dbHasShard :: "nat \<Rightarrow> DatabaseInfo \<Rightarrow> bool" where
  "dbHasShard i db = list_ex (rpHasShard i \<circ> snd) (db_RetentionPolicies db)"

definition DropShard :: "time \<Rightarrow> nat \<Rightarrow> 'c Data \<Rightarrow> 'c Data" where
  "DropShard now i data =
     data\<lparr>Databases := updFirst (dbHasShard i \<circ> snd)
       (\<lambda>(k, db). (k, db\<lparr>db_RetentionPolicies := updFirst (rpHasShard i \<circ> snd)
          (\<lambda>(k, rp). (k, rp\<lparr>rp_ShardGroups := updFirst (hasShard i) (dropFrom now i) (rp_ShardGroups rp)\<rparr>))
          (db_RetentionPolicies db)\<rparr>)) (Databases data)\<rparr>"

definition UpdateShardInfoTier :: "nat \<Rightarrow> nat \<Rightarrow> string \<Rightarrow> string \<Rightarrow> 'c Data \<Rightarrow> 'c Data \<times> err option" where
  "UpdateShardInfoTier shardID shardTier dbName rpName data =
     (case data_RetentionPolicy dbName rpName data of
        Inl e \<Rightarrow> (data, Some e)
      | Inr rpi \<Rightarrow>
          if rpHasShard shardID rpi then
            (putRP dbName rpName (\<lambda>rpi. rpi\<lparr>rp_ShardGroups := updFirst (hasShard shardID)
               (\<lambda>sg. sg\<lparr>sg_Shards := updFirst (\<lambda>s. sh_ID s = shardID) (\<lambda>s. s\<lparr>sh_Tier := shardTier\<rparr>) (sg_Shards sg)\<rparr>)
               (rp_ShardGroups rpi)\<rparr>) data, None)
          else (data, Some (Errorf ''cannot find shard'')))"

fun downSampleLoop :: "ShardIdentifier \<Rightarrow> ShardGroupInfo list \<Rightarrow> err + ShardGroupInfo list" where
  "downSampleLoop ident [] = Inr []"
| "downSampleLoop ident (g # gs) =
     (case inShardGroup g (si_ShardID ident) of
        None \<Rightarrow> Inl index_panic
      | Some False \<Rightarrow> (case downSampleLoop ident gs of Inl e \<Rightarrow> Inl e | Inr gs' \<Rightarrow> Inr (g # gs'))
      | Some True \<Rightarrow>
          if sg_Shard g (si_ShardID ident) = None then Inl nil_panic
          else (case downSampleLoop ident gs of Inl e \<Rightarrow> Inl e
                | Inr gs' \<Rightarrow> Inr (g\<lparr>sg_Shards := updFirst (\<lambda>s. sh_ID s = si_ShardID ident)
                    (\<lambda>s. s\<lparr>sh_DownSampleLevel := if si_DownSampleLevel ident > sh_DownSampleLevel s
                                                 then si_DownSampleLevel ident else sh_DownSampleLevel s,
                           sh_ReadOnly := si_ReadOnly ident, sh_DownSampleID := si_DownSampleID ident\<rparr>)
                    (sg_Shards g)\<rparr> # gs')))"

definition UpdateShardDownSampleInfo :: "ShardIdentifier \<Rightarrow> 'c Data \<Rightarrow> 'c Data \<times> err option" where
  "UpdateShardDownSampleInfo ident data =
     (case map_of (Databases data) (si_OwnerDb ident) of
        None \<Rightarrow> (data, None)
      | Some database \<Rightarrow>
          (case map_of (db_RetentionPolicies database) (si_Policy ident) of
             None \<Rightarrow> (data, None)
           | Some rp \<Rightarrow>
               (case downSampleLoop ident (rp_ShardGroups rp) of
                  Inl e \<Rightarrow> (data, Some e)
                | Inr gs \<Rightarrow>
                    (putDB (si_OwnerDb ident) (\<lambda>di. di\<lparr>db_RetentionPolicies :=
                       mmodify (si_Policy ident) (\<lambda>rp. rp\<lparr>rp_ShardGroups := gs\<rparr>) (db_RetentionPolicies di)\<rparr>) data, None))))"

section \<open>What a store node is told about its shards\<close>

definition durationInfo ::
  "string \<Rightarrow> nat \<Rightarrow> string \<Rightarrow> RetentionPolicyInfo \<Rightarrow> ShardGroupInfo \<Rightarrow> ShardInfo \<Rightarrow> ShardDurationInfo" where
  "durationInfo db pt shardType rp sg sh =
     \<lparr>sdi_Ident = \<lparr>si_ShardID = sh_ID sh, si_ShardGroupID = sg_ID sg, si_Policy = rp_Name rp, si_OwnerDb = db,
        si_OwnerPt = pt, si_ShardType = shardType, si_DownSampleLevel = sh_DownSampleLevel sh,
        si_DownSampleID = sh_DownSampleID sh, si_ReadOnly = sh_ReadOnly sh, si_EngineType = sg_EngineType sg\<rparr>,
      sdi_DurationInfo = \<lparr>dd_Tier = sh_Tier sh, dd_TierDuration = TierDuration rp (sh_Tier sh),
        dd_Duration = rp_Duration rp\<rparr>\<rparr>"

definition shardDurations :: "(ShardGroupInfo \<Rightarrow> ShardInfo \<Rightarrow> bool) \<Rightarrow> string \<Rightarrow> nat \<Rightarrow> DatabaseInfo \<Rightarrow> (nat, ShardDurationInfo) gomap" where
  "shardDurations keep db pt dbi =
     fold (\<lambda>(_, rp) r.
        if rp_MarkDeleted rp then r
        else fold (\<lambda>sg r.
               if length (sg_Shards sg) > pt \<and> keep sg (sg_Shards sg ! pt)
               then AList.update (sh_ID (sg_Shards sg ! pt))
                      (durationInfo db pt (shardingType rp) rp sg (sg_Shards sg ! pt)) r
               else r) (rp_ShardGroups rp) r)
       (db_RetentionPolicies dbi) []"

text \<open>A missing database is dereferenced by the walk: None is the panic.\<close>

definition GetShardDurationsByDbPt :: "string \<Rightarrow> nat \<Rightarrow> 'c Data \<Rightarrow> (nat, ShardDurationInfo) gomap option" where
  "GetShardDurationsByDbPt db pt data =
     map_option (shardDurations (\<lambda>sg _. \<not> sg_Deleted sg) db pt) (data_Database db data)"

definition GetShardDurationsByDbPtForRetention ::
  "string \<Rightarrow> nat \<Rightarrow> 'c Data \<Rightarrow> (nat, ShardDurationInfo) gomap option" where
  "GetShardDurationsByDbPtForRetention db pt data =
     map_option (shardDurations (\<lambda>_ sh. \<not> sh_MarkDelete sh) db pt) (data_Database db data)"

text \<open>\<open>DurationInfos\<close>: an owned shard is reported once; a shard without an owner is a panic.\<close>

definition ownedBy :: "nat list \<Rightarrow> ShardInfo \<Rightarrow> bool" where
  "ownedBy pts sh \<longleftrightarrow> hd (sh_Owners sh) \<in> set pts"

definition DurationInfos :: "(string, nat list) gomap \<Rightarrow> 'c Data \<Rightarrow> err + (nat \<times> ShardDurationInfo list)" where
  "DurationInfos dbPtIds data =
     (let rows = concat (map (\<lambda>(_, db).
            case map_of dbPtIds (db_Name db) of
              None \<Rightarrow> []
            | Some pts \<Rightarrow> concat (map (\<lambda>(_, rp). concat (map (\<lambda>sg. map (\<lambda>sh. (db, pts, rp, sg, sh)) (sg_Shards sg))
                 (rp_ShardGroups rp))) (db_RetentionPolicies db))) (Databases data))
      in if \<exists>(db, pts, rp, sg, sh) \<in> set rows. sh_Owners sh = [] \<and> pts \<noteq> [] then Inl index_panic
         else Inr (Index data,
           map (\<lambda>(db, pts, rp, sg, sh). durationInfo (db_Name db) (hd (sh_Owners sh)) [] rp sg sh)
             (filter (\<lambda>(db, pts, rp, sg, sh). pts \<noteq> [] \<and> ownedBy pts sh) rows)))"

definition NewestShardGroup :: "string \<Rightarrow> string \<Rightarrow> 'c Data \<Rightarrow> ShardGroupInfo option" where
  "NewestShardGroup database retentionPolicy data =
     (case data_RetentionPolicy database retentionPolicy data of
        Inl _ \<Rightarrow> None
      | Inr rp \<Rightarrow>
          (case rp_Measurements rp of
             [] \<Rightarrow> None
           | (_, msti) # _ \<Rightarrow>
               if ms_ShardKeys msti = [] \<or> ski_Type (hd (ms_ShardKeys msti)) = HASH then None
               else if rp_ShardGroups rp = [] then None
               else Some (last (rp_ShardGroups rp))))"

section \<open>Looking up what has been written\<close>

lemma data_RetentionPolicyD:
  assumes "data_RetentionPolicy database policy data = Inr rpi"
  obtains di where "map_of (Databases data) database = Some di" "\<not> db_MarkDeleted di"
    "map_of (db_RetentionPolicies di) (rpKey di policy) = Some rpi" "\<not> rp_MarkDeleted rpi"
    "policy = [] \<longrightarrow> db_DefaultRetentionPolicy di \<noteq> []"
  using assms
  by (auto simp: data_RetentionPolicy_def data_GetDatabase_def data_Database_def db_GetRetentionPolicy_def
        db_RetentionPolicy_def split: option.splits if_splits)

lemma data_RetentionPolicyI:
  assumes "map_of (Databases data) database = Some di" "\<not> db_MarkDeleted di"
    "map_of (db_RetentionPolicies di) (rpKey di policy) = Some rpi" "\<not> rp_MarkDeleted rpi"
    "policy = [] \<longrightarrow> db_DefaultRetentionPolicy di \<noteq> []"
  shows "data_RetentionPolicy database policy data = Inr rpi"
  using assms
  by (auto simp: data_RetentionPolicy_def data_GetDatabase_def data_Database_def db_GetRetentionPolicy_def
        db_RetentionPolicy_def)

lemma Databases_putRP:
  "Databases (putRP database policy f data) =
     mmodify database (\<lambda>di. di\<lparr>db_RetentionPolicies := mmodify (rpKey di policy) f (db_RetentionPolicies di)\<rparr>)
       (Databases data)"
  by (simp add: putRP_def putDB_def)

lemma RetentionPolicy_putRP:
  assumes "data_RetentionPolicy database policy data = Inr rpi" "Databases d = Databases data"
    "\<not> rp_MarkDeleted (f rpi)"
  shows "data_RetentionPolicy database policy (putRP database policy f d) = Inr (f rpi)"
  using assms(1)
proof (rule data_RetentionPolicyD)
  fix di
  assume "map_of (Databases data) database = Some di" "\<not> db_MarkDeleted di"
    "map_of (db_RetentionPolicies di) (rpKey di policy) = Some rpi" "\<not> rp_MarkDeleted rpi"
    "policy = [] \<longrightarrow> db_DefaultRetentionPolicy di \<noteq> []"
  then show ?thesis
    using assms(2,3)
    by (intro data_RetentionPolicyI [of _ _
          "di\<lparr>db_RetentionPolicies := mmodify (rpKey di policy) f (db_RetentionPolicies di)\<rparr>"])
      (auto simp: Databases_putRP rpKey_def)
qed

text \<open>Another policy, or the same one under another database, is not touched.\<close>

lemma RetentionPolicy_putRP_other:
  assumes "data_RetentionPolicy database policy data = Inr rpi" "database' \<noteq> database"
  shows "data_RetentionPolicy database' policy' (putRP database policy f data) = data_RetentionPolicy database' policy' data"
  using assms(2) by (simp add: data_RetentionPolicy_def data_GetDatabase_def data_Database_def Databases_putRP)

section \<open>Sorted shard groups\<close>

definition groupsSorted :: "RetentionPolicyInfo \<Rightarrow> bool" where
  "groupsSorted rpi \<longleftrightarrow> sorted (map sg_key (rp_ShardGroups rpi)) \<and> sorted (map ig_key (rp_IndexGroups rpi))"

lemma sort_key_sorted: "sorted (map f xs) \<Longrightarrow> sort_key f xs = xs"
  by (induction xs) (auto simp: insort_is_Cons)

lemma groupsSorted_sort:
  "groupsSorted (rp\<lparr>rp_ShardGroups := sortShardGroups xs, rp_IndexGroups := sortIndexGroups ys\<rparr>)"
  by (simp add: groupsSorted_def sortShardGroups_def sortIndexGroups_def)

section \<open>A created group is found\<close>

lemma createIndexGroupIfNeeded_keeps:
  assumes "createIndexGroupIfNeeded env t et n rpi data = (igi, rpi', data')"
  shows "rp_ShardGroups rpi' = rp_ShardGroups rpi" "rp_Measurements rpi' = rp_Measurements rpi"
    "rp_MarkDeleted rpi' = rp_MarkDeleted rpi" "rp_ShardGroupDuration rpi' = rp_ShardGroupDuration rpi"
    "Databases data' = Databases data" "ClusterPtNum data' = ClusterPtNum data"
    "length (ig_Indexes igi) \<ge> n"
    "sorted (map ig_key (rp_IndexGroups rpi)) \<Longrightarrow> sorted (map ig_key (rp_IndexGroups rpi'))"
    "igi \<in> set (rp_IndexGroups rpi')" "set (rp_IndexGroups rpi) \<subseteq> set (rp_IndexGroups rpi')"
  using assms
  by (auto simp: createIndexGroupIfNeeded_def CreateIndexGroup_def Let_def newIndexes_def sortIndexGroups_def
        split: option.splits if_splits dest: find_SomeD)

lemma mapShardsToMst_keeps:
  assumes "mapShardsToMst env sgi rpi = Some rpi'"
  shows "rp_ShardGroups rpi' = rp_ShardGroups rpi" "rp_IndexGroups rpi' = rp_IndexGroups rpi"
    "rp_MarkDeleted rpi' = rp_MarkDeleted rpi"
  using assms by (auto simp: mapShardsToMst_def Let_def split: if_splits)

lemma newShardGroup_accepts:
  assumes "newShardGroup env t et v rpi data = (sgi, data')" "0 < rp_ShardGroupDuration rpi"
    "t \<le> Unix0 (env_MaxNanoTime env)"
  shows "acceptsWrite t et (sgi\<lparr>sg_Shards := shs\<rparr>)"
  using assms Truncate_le [of t "rp_ShardGroupDuration rpi"] Truncate_gt [of "rp_ShardGroupDuration rpi" t]
  by (auto simp: newShardGroup_def Let_def acceptsWrite_def sg_Contains_def sg_Deleted_def sg_Truncated_def
        IsZero_def clipEnd_def Unix0_def)

lemma addShardGroup_result:
  assumes "addShardGroup env t tier et v msti rpi (data :: 'c Data) = Inr (rpi', data')"
  obtains sgi shs and d1 d2 :: "'c Data" and rpi1 where
    "newShardGroup env t et v rpi1 d1 = (sgi, d2)" "rp_ShardGroupDuration rpi1 = rp_ShardGroupDuration rpi"
    "rp_ShardGroups rpi' = sortShardGroups (rp_ShardGroups rpi @ [sgi\<lparr>sg_Shards := shs\<rparr>])"
    "rp_MarkDeleted rpi' = rp_MarkDeleted rpi" "Databases data' = Databases data"
    "sorted (map ig_key (rp_IndexGroups rpi)) \<longrightarrow> sorted (map ig_key (rp_IndexGroups rpi'))"
proof -
  obtain igi rpi1 d1 where 1: "createIndexGroupIfNeeded env t et (ClusterPtNum data) rpi data = (igi, rpi1, d1)"
    by (metis surj_pair)
  obtain sgi d2 where 2: "newShardGroup env t et v rpi1 d1 = (sgi, d2)" by (metis surj_pair)
  obtain sgi2 d3 where 3: "createShards igi rpi1 msti tier sgi d2 = (sgi2, d3)" by (metis surj_pair)
  obtain rpi2 where 4: "rpi2 = rpi1 \<or> mapShardsToMst env sgi2 rpi1 = Some rpi2"
    "rpi' = rpi2\<lparr>rp_ShardGroups := sortShardGroups (rp_ShardGroups rpi2 @ [sgi2])\<rparr>" "data' = d3"
    using assms 1 2 3 by (auto simp: addShardGroup_def split: if_splits option.splits)
  have 5: "rp_ShardGroups rpi2 = rp_ShardGroups rpi1" "rp_IndexGroups rpi2 = rp_IndexGroups rpi1"
    "rp_MarkDeleted rpi2 = rp_MarkDeleted rpi1"
    using 4(1) mapShardsToMst_keeps by auto
  obtain shs where 6: "sgi2 = sgi\<lparr>sg_Shards := shs\<rparr>" "Databases d3 = Databases d2"
    using 3 by (auto simp: createShards_def Let_def)
  have "Databases d2 = Databases d1" using 2 by (auto simp: newShardGroup_def Let_def)
  then show thesis
    using 2 4 5 6 createIndexGroupIfNeeded_keeps [OF 1] by (intro that [of rpi1 d1 sgi d2]) auto
qed

text \<open>C6: When \<open>CreateShardGroup\<close> succeeds, the lookup of its timestamp and engine type finds a group that
  accepts the write, every group there was is still there, and the groups of the policy stay sorted.\<close>

theorem CreateShardGroup_found:
  assumes "CreateShardGroup env database policy t tier et v data = (data', None)"
    and "data_RetentionPolicy database policy data = Inr rpi"
    and "0 < rp_ShardGroupDuration rpi" "t \<le> Unix0 (env_MaxNanoTime env)"
  shows "\<exists>rpi' g. data_RetentionPolicy database policy data' = Inr rpi'
      \<and> data_ShardGroupByTimestampAndEngineType database policy t et data' = Inr (Some g)
      \<and> g \<in> set (rp_ShardGroups rpi') \<and> acceptsWrite t et g
      \<and> set (rp_ShardGroups rpi) \<subseteq> set (rp_ShardGroups rpi')
      \<and> (groupsSorted rpi \<longrightarrow> groupsSorted rpi')"
proof (cases "rp_ShardGroupByTimestampAndEngineType rpi t et")
  case (Some g)
  then have "data' = data"
    using assms(1,2) by (auto simp: CreateShardGroup_def split: option.splits)
  then show ?thesis
    using Some assms(2) ShardGroupByTimestamp_SomeD [OF Some]
    by (auto simp: data_ShardGroupByTimestampAndEngineType_def)
next
  case None
  obtain msti rpi' d where
    add: "addShardGroup env t tier et v msti rpi data = Inr (rpi', d)"
    and data': "data' = putRP database policy (\<lambda>_. rpi') d"
    using assms(1,2) None
    by (auto simp: CreateShardGroup_def split: option.splits list.splits sum.splits prod.splits)
  show ?thesis
    using add
  proof (rule addShardGroup_result)
    fix sgi shs d1 d2 rpi1
    assume new: "newShardGroup env t et v rpi1 d1 = (sgi, d2)" "rp_ShardGroupDuration rpi1 = rp_ShardGroupDuration rpi"
      and sg: "rp_ShardGroups rpi' = sortShardGroups (rp_ShardGroups rpi @ [sgi\<lparr>sg_Shards := shs\<rparr>])"
      and md: "rp_MarkDeleted rpi' = rp_MarkDeleted rpi" "Databases d = Databases data"
      and ig: "sorted (map ig_key (rp_IndexGroups rpi)) \<longrightarrow> sorted (map ig_key (rp_IndexGroups rpi'))"
    have rp: "data_RetentionPolicy database policy data' = Inr rpi'"
      unfolding data' using assms(2) md by (intro RetentionPolicy_putRP) (auto elim: data_RetentionPolicyD)
    have acc: "acceptsWrite t et (sgi\<lparr>sg_Shards := shs\<rparr>)"
      using newShardGroup_accepts [OF new(1)] new(2) assms(3,4) by simp
    then have "rp_ShardGroupByTimestampAndEngineType rpi' t et \<noteq> None"
      unfolding ShardGroupByTimestamp_None_iff by (auto simp: sg sortShardGroups_def)
    then obtain g where "rp_ShardGroupByTimestampAndEngineType rpi' t et = Some g" by blast
    then show ?thesis
      using rp ig ShardGroupByTimestamp_SomeD [of rpi' t et g]
      by (intro exI [of _ rpi'] exI [of _ g])
        (auto simp: data_ShardGroupByTimestampAndEngineType_def sg sortShardGroups_def groupsSorted_def)
  qed
qed

definition exampleMst :: MeasurementInfo where
  "exampleMst = (NewMeasurementInfo ''cpu_0000'' ''cpu'' TSSTORE 0)\<lparr>
     ms_ShardKeys := [\<lparr>ski_ShardKey = [], ski_Type = HASH, ski_ShardGroup = 1\<rparr>]\<rparr>"

definition exampleRP :: RetentionPolicyInfo where
  "exampleRP = DefaultRetentionPolicyInfo\<lparr>rp_Measurements := [(''cpu_0000'', exampleMst)],
     rp_ShardGroupDuration := 604800000000000, rp_IndexGroupDuration := 604800000000000,
     rp_MstVersions := [(''cpu'', \<lparr>mv_NameWithVersion = ''cpu_0000'', mv_Version = 0\<rparr>)]\<rparr>"

definition exampleData :: "nat \<Rightarrow> string Data" where
  "exampleData ptNum = (exampleCluster ptNum)\<lparr>Databases :=
     [(''db'', (NewDatabase ''db'')\<lparr>db_DefaultRetentionPolicy := ''autogen'',
                 db_RetentionPolicies := [(''autogen'', exampleRP)]\<rparr>)]\<rparr>"

definition exampleIG :: IndexGroupInfo where
  "exampleIG = \<lparr>ig_ID = 1, ig_StartTime = 0, ig_EndTime = Unix0 604800000000000,
     ig_Indexes = [\<lparr>ii_ID = 1, ii_Owners = [0], ii_MarkDelete = False\<rparr>], ig_DeletedAt = 0, ig_EngineType = TSSTORE\<rparr>"

lemma exampleData_RetentionPolicy: "data_RetentionPolicy ''db'' [] (exampleData n) = Inr exampleRP"
  by (simp add: data_RetentionPolicy_def data_GetDatabase_def data_Database_def exampleData_def NewDatabase_def
      db_GetRetentionPolicy_def db_RetentionPolicy_def rpKey_def exampleRP_def DefaultRetentionPolicyInfo_def
      NewRetentionPolicyInfo_def)

lemma exampleRP_fields [simp]:
  "rp_ShardGroups exampleRP = []" "rp_IndexGroups exampleRP = []" "rp_Measurements exampleRP = [(''cpu_0000'', exampleMst)]"
  "rp_ShardGroupDuration exampleRP = 604800000000000" "rp_MarkDeleted exampleRP = False"
  "ms_ShardKeys exampleMst = [\<lparr>ski_ShardKey = [], ski_Type = HASH, ski_ShardGroup = 1\<rparr>]"
  "ms_InitNumOfShards exampleMst = 0"
  by (simp_all add: exampleRP_def exampleMst_def DefaultRetentionPolicyInfo_def NewRetentionPolicyInfo_def
      NewMeasurementInfo_def shardGroupDuration_def)

lemma mapShardsToMst_all:
  "\<forall>(k, m) \<in> set (rp_Measurements rpi). ms_InitNumOfShards m = 0 \<Longrightarrow> mapShardsToMst env sgi rpi \<noteq> None"
  by (auto simp: mapShardsToMst_def mapShardsMst_def Let_def)

lemma addShardGroup_ok:
  assumes "ms_ShardKeys msti \<noteq> []" "\<forall>(k, m) \<in> set (rp_Measurements rpi). ms_InitNumOfShards m = 0"
  shows "\<exists>r. addShardGroup env t tier et v msti rpi data = Inr r"
proof -
  obtain igi rpi1 d1 where 1: "createIndexGroupIfNeeded env t et (ClusterPtNum data) rpi data = (igi, rpi1, d1)"
    by (metis surj_pair)
  have "\<forall>sgi. mapShardsToMst env sgi rpi1 \<noteq> None"
    using assms(2) createIndexGroupIfNeeded_keeps(2) [OF 1] by (intro allI mapShardsToMst_all) simp
  then show ?thesis using assms(1) 1 by (auto simp: addShardGroup_def split: prod.splits option.splits) (metis option.discI)
qed

lemma exampleData_CreateShardGroup:
  "snd (CreateShardGroup exampleEnv ''db'' [] 0 Hot TSSTORE 0 (exampleData 2)) = None"
proof -
  obtain r where "addShardGroup exampleEnv 0 Hot TSSTORE 0 exampleMst exampleRP (exampleData 2) = Inr r"
    using addShardGroup_ok [of exampleMst exampleRP exampleEnv 0 Hot TSSTORE 0 "exampleData 2"] by auto
  moreover have "checkStoreReady (exampleData 2) = None"
    by (simp add: checkStoreReady_def exampleData_def exampleCluster_def)
  moreover have "rp_ShardGroupByTimestampAndEngineType exampleRP 0 0 = None"
    by (simp add: ShardGroupByTimestamp_None_iff)
  ultimately show ?thesis
    by (simp add: CreateShardGroup_def exampleData_RetentionPolicy split: prod.splits)
qed

theorem CreateShardGroup_found_witness:
  "\<exists>g. data_ShardGroupByTimestampAndEngineType ''db'' [] 0 TSSTORE
          (fst (CreateShardGroup exampleEnv ''db'' [] 0 Hot TSSTORE 0 (exampleData 2))) = Inr (Some g)"
  using CreateShardGroup_found [of exampleEnv "''db''" "[]" 0 Hot TSSTORE 0 "exampleData 2"
      "fst (CreateShardGroup exampleEnv ''db'' [] 0 Hot TSSTORE 0 (exampleData 2))" exampleRP]
    exampleData_CreateShardGroup exampleData_RetentionPolicy [of 2]
  by (auto simp: prod_eq_iff exampleEnv_def Unix0_def unixToInternal_def)

section \<open>Range sharding\<close>

definition boundsOk :: "string list \<Rightarrow> bool" where
  "boundsOk bounds \<longleftrightarrow> sorted_wrt (<) bounds \<and> [] \<notin> set bounds"

lemma length_boundedShards [simp]: "length (boundedShards m n tier igi bounds) = length bounds + 1"
  by (simp add: boundedShards_def Let_def)

lemma Contain_boundedShards:
  assumes "i \<le> length bounds" "boundsOk bounds"
  shows "Contain (boundedShards m n tier igi bounds ! i) key \<longleftrightarrow>
     (i > 0 \<longrightarrow> bounds ! (i - 1) \<le> key) \<and> (i < length bounds \<longrightarrow> key < bounds ! i)"
proof -
  have "i < length bounds \<Longrightarrow> bounds ! i \<noteq> []" using assms(2) nth_mem by (fastforce simp: boundsOk_def)
  then show ?thesis
    using assms(1) by (auto simp: boundedShards_def Let_def Contain_def newShard_def simp del: upt_Suc)
qed

lemma sorted_bounds_mono:
  "boundsOk bounds \<Longrightarrow> i \<le> j \<Longrightarrow> j < length bounds \<Longrightarrow> bounds ! i \<le> bounds ! j"
  using sorted_wrt_nth_less [of "(<)" bounds i j] by (cases "i = j") (auto simp: boundsOk_def)

text \<open>The number of bounds at or below a key is the shard that holds it.\<close>

definition boundIndex :: "string list \<Rightarrow> string \<Rightarrow> nat" where
  "boundIndex bounds key = length (takeWhile (\<lambda>b. b \<le> key) bounds)"

lemma boundIndex_le: "boundIndex bounds key \<le> length bounds"
  by (simp add: boundIndex_def length_takeWhile_le)

lemma boundIndex_contains:
  assumes "boundsOk bounds"
  shows "Contain (boundedShards m n tier igi bounds ! boundIndex bounds key) key"
proof -
  have "bounds ! (boundIndex bounds key - 1) \<le> key" if "boundIndex bounds key > 0"
    using that nth_mem [of "boundIndex bounds key - 1" "takeWhile (\<lambda>b. b \<le> key) bounds"]
    by (auto simp: boundIndex_def takeWhile_nth dest!: set_takeWhileD)
  moreover have "key < bounds ! boundIndex bounds key" if "boundIndex bounds key < length bounds"
    using nth_length_takeWhile [of "\<lambda>b. b \<le> key" bounds] that by (simp add: boundIndex_def)
  ultimately show ?thesis
    using assms boundIndex_le by (simp add: Contain_boundedShards)
qed

lemma boundIndex_unique:
  assumes "boundsOk bounds" "i \<le> length bounds" "Contain (boundedShards m n tier igi bounds ! i) key"
  shows "i = boundIndex bounds key"
proof (rule ccontr)
  let ?k = "boundIndex bounds key"
  have k: "?k > 0 \<longrightarrow> bounds ! (?k - 1) \<le> key" "?k < length bounds \<longrightarrow> key < bounds ! ?k"
    using boundIndex_contains [OF assms(1)] Contain_boundedShards [OF boundIndex_le assms(1)] by blast+
  have i: "i > 0 \<longrightarrow> bounds ! (i - 1) \<le> key" "i < length bounds \<longrightarrow> key < bounds ! i"
    using assms Contain_boundedShards by blast+
  assume "i \<noteq> ?k"
  then consider "i < ?k" | "?k < i" by linarith
  then show False
  proof cases
    case 1
    then have "bounds ! i \<le> bounds ! (?k - 1)"
      using boundIndex_le [of bounds key] by (intro sorted_bounds_mono assms(1)) auto
    moreover have "bounds ! (?k - 1) \<le> key" "key < bounds ! i"
      using 1 k(1) i(2) boundIndex_le [of bounds key] by auto
    ultimately show False by order
  next
    case 2
    then have "bounds ! ?k \<le> bounds ! (i - 1)"
      using assms(2) by (intro sorted_bounds_mono assms(1)) auto
    moreover have "bounds ! (i - 1) \<le> key" "key < bounds ! ?k"
      using 2 k(2) i(1) assms(2) by auto
    ultimately show False by order
  qed
qed

lemma boundIndex_ex1:
  assumes "boundsOk bounds" "sg_Shards sgi = boundedShards m n tier igi bounds"
  shows "\<exists>!i. i < length (sg_Shards sgi) \<and> Contain (sg_Shards sgi ! i) key"
proof (rule ex1I [of _ "boundIndex bounds key"])
  show "boundIndex bounds key < length (sg_Shards sgi) \<and> Contain (sg_Shards sgi ! boundIndex bounds key) key"
    using assms boundIndex_contains [OF assms(1)] boundIndex_le [of bounds key] by auto
  show "i = boundIndex bounds key" if "i < length (sg_Shards sgi) \<and> Contain (sg_Shards sgi ! i) key" for i
    using that assms(2) by (intro boundIndex_unique [OF assms(1)]) auto
qed

text \<open>C18: The shards of a group split at ascending, non-empty bounds partition the shard keys: every key is
  in exactly one of them, which is the one \<open>DestShard\<close> sends a write to.\<close>

theorem boundedShards_partition:
  assumes "boundsOk bounds" "sg_Shards sgi = boundedShards m n tier igi bounds"
  shows "(\<exists>!i. i < length (sg_Shards sgi) \<and> Contain (sg_Shards sgi ! i) key)
    \<and> DestShard sgi key = Some (sg_Shards sgi ! boundIndex bounds key)"
proof
  let ?k = "boundIndex bounds key"
  have k: "?k < length (sg_Shards sgi)" "Contain (sg_Shards sgi ! ?k) key"
    using assms boundIndex_contains [OF assms(1)] boundIndex_le [of bounds key] by auto
  show "\<exists>!i. i < length (sg_Shards sgi) \<and> Contain (sg_Shards sgi ! i) key"
    by (rule boundIndex_ex1 [OF assms])
  have "\<not> Contain (sg_Shards sgi ! j) key" if "j < ?k" for j
    using that k(1) assms(2) boundIndex_unique [OF assms(1), of j] by fastforce
  then show "DestShard sgi key = Some (sg_Shards sgi ! ?k)"
    unfolding DestShard_def find_Some_iff using k by blast
qed

theorem boundedShards_partition_witness:
  "\<exists>!i. i < 2 \<and> Contain (boundedShards 0 1 Hot exampleIG [''m''] ! i) ''cpu''"
  using boundedShards_partition [of "[''m'']" "\<lparr>sg_ID = 1, sg_StartTime = 0, sg_EndTime = 1, sg_DeletedAt = 0,
      sg_Shards = boundedShards 0 1 Hot exampleIG [''m''], sg_TruncatedAt = 0, sg_EngineType = 0, sg_Version = 0\<rparr>"
      0 1 Hot exampleIG "''cpu''"]
  by (simp add: boundsOk_def numeral_2_eq_2)

lemma createIndexGroup_keeps:
  assumes "createIndexGroup t rp data = (rp', data')"
  shows "rp_ShardGroups rp' = rp_ShardGroups rp" "rp_MarkDeleted rp' = rp_MarkDeleted rp"
    "Databases data' = Databases data" "MaxShardGroupID data' = MaxShardGroupID data"
  using assms by (auto simp: createIndexGroup_def Let_def)

definition splitGroup :: "ShardGroupInfo \<Rightarrow> nat \<Rightarrow> time \<Rightarrow> ShardInfo list \<Rightarrow> ShardGroupInfo" where
  "splitGroup lastSg gid startTime shs =
     \<lparr>sg_ID = gid, sg_StartTime = startTime, sg_EndTime = sg_EndTime lastSg, sg_DeletedAt = 0,
      sg_Shards = shs, sg_TruncatedAt = 0, sg_EngineType = sg_EngineType lastSg, sg_Version = 0\<rparr>"

lemma ReSharding_result:
  assumes "ReSharding info data = (data', None)"
  obtains rp rp' m n tier igi where
    "data_RetentionPolicy (rs_Database info) (rs_Rp info) data = Inr rp" "rp_ShardGroups rp \<noteq> []"
    "sg_ID (last (rp_ShardGroups rp)) = rs_ShardGroupID info"
    "data_RetentionPolicy (rs_Database info) (rs_Rp info) data' = Inr rp'"
    "rp_ShardGroups rp' = sortShardGroups (rp_ShardGroups rp @
       [splitGroup (last (rp_ShardGroups rp)) (u64 (MaxShardGroupID data + 1)) (Unix0 (rs_SplitTime info + 1))
          (boundedShards m n tier igi (rs_Bounds info))])"
proof -
  let ?t = "Unix0 (rs_SplitTime info + 1)"
  obtain rp where rp: "data_RetentionPolicy (rs_Database info) (rs_Rp info) data = Inr rp" "rp_ShardGroups rp \<noteq> []"
    "sg_ID (last (rp_ShardGroups rp)) = rs_ShardGroupID info"
    using assms by (auto simp: ReSharding_def split: sum.splits if_splits)
  obtain rp1 d1 where 1: "createIndexGroup ?t rp data = (rp1, d1)" by (metis surj_pair)
  obtain rp2 d2 where 2: "CreateShardGroupWithBounds ?t (rs_Bounds info) (sg_EngineType (last (rp_ShardGroups rp))) rp1 d1
      = Inr (rp2, d2)" "data' = putRP (rs_Database info) (rs_Rp info) (\<lambda>_. rp2) d2"
    using assms rp 1 by (auto simp: ReSharding_def split: sum.splits if_splits)
  have 3: "rp_MarkDeleted rp2 = rp_MarkDeleted rp1" "Databases d2 = Databases d1"
    using 2(1) by (auto simp: CreateShardGroupWithBounds_def Let_def split: if_splits)
  have "data_RetentionPolicy (rs_Database info) (rs_Rp info) data' = Inr rp2"
    unfolding 2(2) using rp(1) 3 createIndexGroup_keeps [OF 1]
    by (intro RetentionPolicy_putRP) (auto elim: data_RetentionPolicyD)
  moreover have "rp_ShardGroups rp2 = sortShardGroups (rp_ShardGroups rp @
       [splitGroup (last (rp_ShardGroups rp)) (u64 (MaxShardGroupID data + 1)) ?t
          (boundedShards (MaxShardID d1) (ClusterPtNum d1) (sh_Tier (hd (sg_Shards (last (rp_ShardGroups rp)))))
             (last (rp_IndexGroups rp1)) (rs_Bounds info))])"
    using 2(1) createIndexGroup_keeps [OF 1]
    by (auto simp: CreateShardGroupWithBounds_def Let_def splitGroup_def split: if_splits)
  ultimately show thesis using rp by (intro that)
qed

lemma sorted_key_last: "sorted (map f xs) \<Longrightarrow> x \<in> set xs \<Longrightarrow> f x \<le> f (last xs)"
  by (induction xs) auto

lemma acceptsWrite_splitGroup:
  "acceptsWrite t et (splitGroup lastSg gid (Unix0 (s + 1)) shs) \<longleftrightarrow>
     Unix0 s < t \<and> t < sg_EndTime lastSg \<and> et = sg_EngineType lastSg"
  by (auto simp: acceptsWrite_def splitGroup_def sg_Contains_def sg_Deleted_def sg_Truncated_def IsZero_def Unix0_def)

lemma findLast_append1: "findLast p (xs @ [x]) = (if p x then Some x else findLast p xs)"
  by (simp add: findLast_def)


definition exampleSG :: "nat \<Rightarrow> nat list \<Rightarrow> ShardGroupInfo" where
  "exampleSG gid ids =
     \<lparr>sg_ID = gid, sg_StartTime = 0, sg_EndTime = Unix0 604800000000000, sg_DeletedAt = 0,
      sg_Shards = map (\<lambda>i. newShard i Hot [0] 1 [] []) ids, sg_TruncatedAt = 0, sg_EngineType = TSSTORE, sg_Version = 0\<rparr>"

definition exampleRange :: "string Data" where
  "exampleRange = (exampleData 1)\<lparr>MaxShardGroupID := 1, MaxShardID := 1, MaxIndexGroupID := 1, MaxIndexID := 1,
     Databases := [(''db'', (NewDatabase ''db'')\<lparr>db_DefaultRetentionPolicy := ''autogen'',
        db_RetentionPolicies := [(''autogen'', exampleRP\<lparr>rp_ShardGroups := [exampleSG 1 [1]], rp_IndexGroups := [exampleIG]\<rparr>)]\<rparr>)]\<rparr>"

definition exampleSplit :: ReShardingInfo where
  "exampleSplit = \<lparr>rs_Database = ''db'', rs_Rp = ''autogen'', rs_ShardGroupID = 1,
     rs_SplitTime = 0, rs_Bounds = [''m'']\<rparr>"

lemma exampleRange_RetentionPolicy:
  "data_RetentionPolicy ''db'' ''autogen'' exampleRange =
     Inr (exampleRP\<lparr>rp_ShardGroups := [exampleSG 1 [1]], rp_IndexGroups := [exampleIG]\<rparr>)"
  by (simp add: data_RetentionPolicy_def data_GetDatabase_def data_Database_def exampleRange_def NewDatabase_def
      db_GetRetentionPolicy_def db_RetentionPolicy_def rpKey_def)

lemma exampleSplit_ok: "snd (ReSharding exampleSplit exampleRange) = None"
proof -
  have "ClusterPtNum exampleRange = 1"
    by (simp add: exampleRange_def exampleData_def exampleCluster_def)
  then show ?thesis
    by (simp add: ReSharding_def exampleSplit_def exampleRange_RetentionPolicy exampleSG_def exampleIG_def
        createIndexGroup_def CreateShardGroupWithBounds_def Let_def newIndexes_def sortIndexGroups_def ig_key_def
        findLast_def ig_Overlaps_def Unix0_def unixToInternal_def newShard_def)
qed


end
