(* ===== verification/MetaNodes.thy ===== *)
theory MetaNodes
  imports MetaShards
begin

text \<open>
  The nodes of the cluster (\<open>data.go\<close>, \<open>nodeinfo.go\<close>): registration of store, SQL and meta nodes, their
  status as the gossip layer reports it, segregation and removal. A node is identified by the TCP
  address it registers with; the lemmas show that the ids handed out keep naming one address, that
  partitions follow a registration, and which status reports are accepted.
\<close>

section \<open>Lookups\<close>

definition GetNodeIndex :: "nat \<Rightarrow> 'c Data \<Rightarrow> err + nat" where
  "GetNodeIndex nodeId data =
     (case find (\<lambda>i. ni_ID (DataNodes data ! i) = nodeId) [0..<length (DataNodes data)] of
        None \<Rightarrow> Inl (Errno ''DataNodeNotFound'') | Some i \<Rightarrow> Inr i)"

definition GetNodeIndexV2 :: "nat \<Rightarrow> 'c Data \<Rightarrow> err + nat" where
  "GetNodeIndexV2 nodeId data =
     (case find (\<lambda>n. ni_ID n = nodeId) (DataNodes data) of
        None \<Rightarrow> Inl (Errno ''DataNodeNotFound'') | Some n \<Rightarrow> Inr (dn_Index n))"

definition GetSqlNodeIndex :: "nat \<Rightarrow> 'c Data \<Rightarrow> err + nat" where
  "GetSqlNodeIndex nodeId data =
     (case find (\<lambda>n. ni_ID n = nodeId) (SqlNodes data) of
        None \<Rightarrow> Inl (Errno ''SqlNodeNotFound'') | Some n \<Rightarrow> Inr (dn_Index n))"

definition CheckDataNodeAlive :: "nat \<Rightarrow> 'c Data \<Rightarrow> err option" where
  "CheckDataNodeAlive nodeId data =
     (case GetNodeIndex nodeId data of
        Inl _ \<Rightarrow> Some (Errorf ''dataNode not found'')
      | Inr i \<Rightarrow>
          if ni_SegregateStatus (DataNodes data ! i) \<noteq> Normal then Some (Errorf ''dataNode is segregated'')
          else if ni_Status (DataNodes data ! i) \<noteq> StatusAlive then Some (Errno ''DataNoAlive'')
          else None)"

definition DataNodeAlive :: "nat \<Rightarrow> 'c Data \<Rightarrow> bool" where
  "DataNodeAlive i data =
     (case find (\<lambda>n. ni_ID n = i) (DataNodes data) of None \<Rightarrow> False | Some n \<Rightarrow> ni_Status n = StatusAlive)"

definition SqlNode :: "nat \<Rightarrow> 'c Data \<Rightarrow> DataNode option" where
  "SqlNode i data = find (\<lambda>n. ni_ID n = i) (SqlNodes data)"

definition DataNodeByHttpHost :: "string \<Rightarrow> 'c Data \<Rightarrow> DataNode option" where
  "DataNodeByHttpHost httpAddr data = find (\<lambda>n. ni_Host n = httpAddr) (DataNodes data)"

definition SqlNodeByHttpHost :: "string \<Rightarrow> 'c Data \<Rightarrow> DataNode option" where
  "SqlNodeByHttpHost httpAddr data = find (\<lambda>n. ni_TCPHost n = httpAddr) (SqlNodes data)"

text \<open>\<open>strings.Split(host, ":")[0]\<close>: the part before the first colon.\<close>

definition hostOf :: "string \<Rightarrow> string" where
  "hostOf addr = takeWhile (\<lambda>c. c \<noteq> CHR '':'') addr"

definition DataNodeByIp :: "string \<Rightarrow> 'c Data \<Rightarrow> DataNode option" where
  "DataNodeByIp nodeIp data = find (\<lambda>n. hostOf (ni_TCPHost n) = nodeIp) (DataNodes data)"

definition DataNodeIDs :: "'c Data \<Rightarrow> nat list" where
  "DataNodeIDs data = sort (map ni_ID (DataNodes data))"

definition GetNodeIDs :: "'c Data \<Rightarrow> nat list" where
  "GetNodeIDs data = map ni_ID (DataNodes data)"

definition GetAliveDataNodeNum :: "'c Data \<Rightarrow> nat" where
  "GetAliveDataNodeNum data = length (filter (\<lambda>n. ni_Status n = StatusAlive) (DataNodes data))"

definition GetSegregateStatusByNodeId :: "nat \<Rightarrow> 'c Data \<Rightarrow> nat" where
  "GetSegregateStatusByNodeId nodeId data =
     (case find (\<lambda>n. ni_ID n = nodeId) (DataNodes data) of None \<Rightarrow> Normal | Some n \<Rightarrow> ni_SegregateStatus n)"

fun GetNodeIdsByNodeLst :: "string list \<Rightarrow> 'c Data \<Rightarrow> err + (nat list \<times> string list)" where
  "GetNodeIdsByNodeLst [] data = Inr ([], [])"
| "GetNodeIdsByNodeLst (host # hosts) data =
     (case find (\<lambda>n. hostOf (ni_TCPHost n) = host) (DataNodes data) of
        None \<Rightarrow> Inl (Errorf ''some limit node ip is not correct'')
      | Some n \<Rightarrow> (case GetNodeIdsByNodeLst hosts data of
                     Inl e \<Rightarrow> Inl e
                   | Inr (ids, addrs) \<Rightarrow> Inr (ni_ID n # ids, ni_TCPHost n # addrs)))"

fun GetNodeSegregateStatus :: "nat list \<Rightarrow> 'c Data \<Rightarrow> err + nat list" where
  "GetNodeSegregateStatus [] data = Inr []"
| "GetNodeSegregateStatus (i # ids) data =
     (case find (\<lambda>n. ni_ID n = i) (DataNodes data) of
        None \<Rightarrow> Inl (Errorf ''some node id is not find'')
      | Some n \<Rightarrow> (case GetNodeSegregateStatus ids data of
                     Inl e \<Rightarrow> Inl e | Inr r \<Rightarrow> Inr (ni_SegregateStatus n # r)))"

definition GetAllNodeSegregateStatus :: "'c Data \<Rightarrow> nat list" where
  "GetAllNodeSegregateStatus data = map ni_SegregateStatus (DataNodes data)"

section \<open>Indexes of the operation log that a node has applied\<close>

text \<open>The loop goes on when the new index is the old one, and then reports that there is no such node.\<close>

fun setIndexLoop :: "nat \<Rightarrow> nat \<Rightarrow> DataNode list \<Rightarrow> DataNode list \<times> err option" where
  "setIndexLoop nodeId newIndex [] = ([], Some (Errorf ''node not find err''))"
| "setIndexLoop nodeId newIndex (n # ns) =
     (if ni_ID n = nodeId \<and> newIndex > dn_Index n then (n\<lparr>dn_Index := newIndex\<rparr> # ns, None)
      else if ni_ID n = nodeId \<and> newIndex < dn_Index n then (n # ns, Some (Errorf ''newIndex err''))
      else case setIndexLoop nodeId newIndex ns of (ns', e) \<Rightarrow> (n # ns', e))"

definition SetSqlNodeIndex :: "nat \<Rightarrow> nat \<Rightarrow> 'c Data \<Rightarrow> 'c Data \<times> err option" where
  "SetSqlNodeIndex nodeId newIndex data =
     (case setIndexLoop nodeId newIndex (SqlNodes data) of (ns, e) \<Rightarrow> (data\<lparr>SqlNodes := ns\<rparr>, e))"

definition SetDataNodeIndex :: "nat \<Rightarrow> nat \<Rightarrow> 'c Data \<Rightarrow> 'c Data \<times> err option" where
  "SetDataNodeIndex nodeId newIndex data =
     (case setIndexLoop nodeId newIndex (DataNodes data) of (ns, e) \<Rightarrow> (data\<lparr>DataNodes := ns\<rparr>, e))"

definition UpdateNodeTmpIndex :: "int \<Rightarrow> nat \<Rightarrow> nat \<Rightarrow> 'c Data \<Rightarrow> 'c Data \<times> err option" where
  "UpdateNodeTmpIndex role index nodeID data =
     (if role = 0 then SetSqlNodeIndex nodeID index data
      else if role = 1 then SetDataNodeIndex nodeID index data
      else (data, Some (Errorf ''UpdateNodeTmpIndex err meta'')))"

section \<open>Registration\<close>

definition newNode :: "nat \<Rightarrow> string \<Rightarrow> string \<Rightarrow> string \<Rightarrow> string \<Rightarrow> string \<Rightarrow> nat \<Rightarrow> DataNode" where
  "newNode i host tcpHost role az gossipAddr connID =
     \<lparr>ni_ID = i, ni_Host = host, ni_RPCAddr = [], ni_TCPHost = tcpHost, ni_Status = 0, ni_LTime = 0,
      ni_GossipAddr = gossipAddr, ni_SegregateStatus = 0, ni_Role = role, dn_ConnID = connID, dn_AliveConnID = 0,
      dn_Index = 0, dn_Az = az\<rparr>"

text \<open>An existing node with the same TCP address is the same node: its id is reused.\<close>

definition chooseID :: "nat \<Rightarrow> string \<Rightarrow> (nat \<times> string) list \<Rightarrow> nat \<times> nat" where
  "chooseID maxID tcpHost others =
     (let existingID = (case find (\<lambda>(_, h). h = tcpHost) others of None \<Rightarrow> 0 | Some (i, _) \<Rightarrow> i) in
      if existingID = 0 then (u64 (maxID + 1), u64 (maxID + 1)) else (existingID, maxID))"

definition CreateDataNode ::
  "Env \<Rightarrow> string \<Rightarrow> string \<Rightarrow> string \<Rightarrow> string \<Rightarrow> 'c Data \<Rightarrow> 'c Data \<times> (err + nat)" where
  "CreateDataNode env host tcpHost role az data0 =
     (let connID = u64 (MaxConnID data0 + 1);
          data = data0\<lparr>MaxConnID := connID\<rparr>
      in case find (\<lambda>n. ni_TCPHost n = tcpHost) (DataNodes data) of
           Some n \<Rightarrow>
             (data\<lparr>DataNodes := updFirst (\<lambda>n. ni_TCPHost n = tcpHost) (\<lambda>n. n\<lparr>dn_ConnID := connID\<rparr>) (DataNodes data)\<rparr>,
              Inr (ni_ID n))
         | None \<Rightarrow>
             let (i, maxID) = chooseID (MaxNodeID data) tcpHost (map (\<lambda>n. (ni_ID n, ni_TCPHost n)) (MetaNodes data));
                 dn = newNode i host tcpHost role az [] connID;
                 d1 = data\<lparr>MaxNodeID := maxID, DataNodes := sort_key ni_ID (DataNodes data @ [dn])\<rparr>;
                 d2 = initDataNodePtView (ClusterPtNum d1) d1
             in if role = ''reader'' then (d2, Inr i)
                else case loopE (\<lambda>db. expandDBPtView env db (ClusterPtNum d2) dn) (map fst (PtView d2)) d2 of
                  (d3, Some e) \<Rightarrow> (d3, Inl e)
                | (d3, None) \<Rightarrow>
                    if ExpandShardsEnable d3 then
                      case ExpandGroups env d3 of Inl e \<Rightarrow> (d3, Inl e) | Inr d4 \<Rightarrow> (d4, Inr i)
                    else (d3, Inr i))"

definition CreateSqlNode :: "string \<Rightarrow> string \<Rightarrow> 'c Data \<Rightarrow> 'c Data \<times> (err + nat)" where
  "CreateSqlNode httpHost gossipAddr data0 =
     (let connID = u64 (MaxConnID data0 + 1);
          data = data0\<lparr>MaxConnID := connID\<rparr>
      in case find (\<lambda>n. ni_TCPHost n = httpHost) (SqlNodes data) of
           Some n \<Rightarrow>
             (data\<lparr>SqlNodes := updFirst (\<lambda>n. ni_TCPHost n = httpHost) (\<lambda>n. n\<lparr>dn_ConnID := connID\<rparr>) (SqlNodes data)\<rparr>,
              Inr (ni_ID n))
         | None \<Rightarrow>
             let (i, maxID) = chooseID (MaxNodeID data) httpHost (map (\<lambda>n. (ni_ID n, ni_TCPHost n)) (MetaNodes data))
             in (data\<lparr>MaxNodeID := maxID,
                      SqlNodes := SqlNodes data @ [newNode i [] httpHost [] [] gossipAddr connID]\<rparr>, Inr i))"

definition SetDataNode :: "nat \<Rightarrow> string \<Rightarrow> string \<Rightarrow> 'c Data \<Rightarrow> 'c Data \<times> err option" where
  "SetDataNode nodeID host tcpHost data =
     (if \<exists>n \<in> set (DataNodes data). ni_Host n = host then (data, Some (Err ''ErrNodeExists''))
      else (data\<lparr>DataNodes := DataNodes data @ [newNode nodeID host tcpHost [] [] [] 0]\<rparr>, None))"

definition CreateMetaNode :: "string \<Rightarrow> string \<Rightarrow> string \<Rightarrow> 'c Data \<Rightarrow> 'c Data \<times> err option" where
  "CreateMetaNode httpAddr rpcAddr tcpAddr data =
     (if \<exists>n \<in> set (MetaNodes data). ni_Host n = httpAddr then (data, None)
      else let (i, maxID) = chooseID (MaxNodeID data) tcpAddr (map (\<lambda>n. (ni_ID n, ni_TCPHost n)) (DataNodes data));
               n = \<lparr>ni_ID = i, ni_Host = httpAddr, ni_RPCAddr = rpcAddr, ni_TCPHost = tcpAddr, ni_Status = 0,
                    ni_LTime = 0, ni_GossipAddr = [], ni_SegregateStatus = 0, ni_Role = []\<rparr>
           in (data\<lparr>MaxNodeID := maxID, MetaNodes := sort_key ni_ID (MetaNodes data @ [n])\<rparr>, None))"

definition SetMetaNode :: "string \<Rightarrow> string \<Rightarrow> string \<Rightarrow> 'c Data \<Rightarrow> 'c Data \<times> err option" where
  "SetMetaNode httpAddr rpcAddr tcpAddr data =
     (case MetaNodes data of
        [] \<Rightarrow> CreateMetaNode httpAddr rpcAddr tcpAddr data
      | [n] \<Rightarrow> (data\<lparr>MetaNodes := [n\<lparr>ni_Host := httpAddr, ni_TCPHost := tcpAddr\<rparr>]\<rparr>, None)
      | _ \<Rightarrow> (data, Some (Errorf ''more than 1 in the metastore'')))"

definition DeleteMetaNode :: "nat \<Rightarrow> 'c Data \<Rightarrow> 'c Data \<times> err option" where
  "DeleteMetaNode i data =
     (if i = 0 then (data, Some (Err ''ErrNodeIDRequired''))
      else let nodes = filter (\<lambda>n. ni_ID n \<noteq> i) (MetaNodes data) in
           if length nodes = length (MetaNodes data) then (data, Some (Err ''ErrNodeNotFound''))
           else (data\<lparr>MetaNodes := nodes\<rparr>, None))"

section \<open>Status reports\<close>

text \<open>
  \<open>net.SplitHostPort\<close> of the Go library, as far as its host result is used: an address that is not
  \<open>host:port\<close> or \<open>[host]:port\<close> gives the empty host.
\<close>

definition lastColon :: "string \<Rightarrow> nat option" where
  "lastColon s = findLast (\<lambda>i. s ! i = CHR '':'') [0..<length s]"

definition splitHost :: "string \<Rightarrow> string" where
  "splitHost hostport =
     (case lastColon hostport of
        None \<Rightarrow> []
      | Some i \<Rightarrow>
          if hd hostport = CHR ''['' then
            (case find (\<lambda>j. hostport ! j = CHR '']'') [0..<length hostport] of
               None \<Rightarrow> []
             | Some e \<Rightarrow>
                 if e + 1 \<noteq> i then []
                 else if CHR ''['' \<in> set (drop 1 hostport) \<or> CHR '']'' \<in> set (drop (e + 1) hostport) then []
                 else drop 1 (take e hostport))
          else let host = take i hostport in
            if CHR '':'' \<in> set host \<or> CHR ''['' \<in> set hostport \<or> CHR '']'' \<in> set hostport then [] else host)"

definition UpdateNodeStatus :: "Env \<Rightarrow> nat \<Rightarrow> int \<Rightarrow> nat \<Rightarrow> string \<Rightarrow> 'c Data \<Rightarrow> 'c Data \<times> err option" where
  "UpdateNodeStatus env i status lTime gossipPort data =
     (if \<not> TakeOverEnabled data then (data, None)
      else case data_DataNode i data of
        None \<Rightarrow> (data, Some (Errno ''DataNodeNotFound''))
      | Some dn \<Rightarrow>
          if lTime < ni_LTime dn then (data, Some (Errno ''OlderEvent''))
          else if env_haPolicy env = SharedStorage \<and> status = StatusAlive \<and> dn_ConnID dn = dn_AliveConnID dn
            then (data, Some (Errno ''DataNodeSplitBrain''))
          else
            let dn' = dn\<lparr>ni_Status := status, ni_LTime := lTime,
                         dn_AliveConnID := (if status = StatusAlive then dn_ConnID dn else dn_AliveConnID dn),
                         ni_GossipAddr := (if ni_GossipAddr dn = []
                                           then splitHost (ni_Host dn) @ '':'' @ gossipPort else ni_GossipAddr dn)\<rparr>
            in updatePtViewStatus env i Offline
                 (data\<lparr>DataNodes := updFirst (\<lambda>n. ni_ID n = i) (\<lambda>_. dn') (DataNodes data)\<rparr>))"

definition UpdateSqlNodeStatus :: "nat \<Rightarrow> int \<Rightarrow> nat \<Rightarrow> 'c Data \<Rightarrow> 'c Data \<times> err option" where
  "UpdateSqlNodeStatus i status lTime data =
     (case SqlNode i data of
        None \<Rightarrow> (data, Some (Errno ''SqlNodeNotFound''))
      | Some dn \<Rightarrow>
          if lTime < ni_LTime dn then (data, Some (Errno ''OlderEvent''))
          else
            (data\<lparr>SqlNodes := updFirst (\<lambda>n. ni_ID n = i)
               (\<lambda>dn. dn\<lparr>ni_Status := status, ni_LTime := lTime,
                        dn_AliveConnID := (if status = StatusAlive then dn_ConnID dn else dn_AliveConnID dn)\<rparr>)
               (SqlNodes data)\<rparr>, None))"

definition ClusterChangeState :: "nat \<Rightarrow> int \<Rightarrow> 'c Data \<Rightarrow> 'c Data \<times> bool" where
  "ClusterChangeState nodeID newState data =
     (data\<lparr>DataNodes := updFirst (\<lambda>n. ni_ID n = nodeID) (\<lambda>n. n\<lparr>ni_Status := newState\<rparr>) (DataNodes data)\<rparr>,
      \<exists>n \<in> set (DataNodes data). ni_ID n = nodeID)"

definition MarkTakeover :: "bool \<Rightarrow> 'c Data \<Rightarrow> 'c Data" where
  "MarkTakeover enable data = data\<lparr>TakeOverEnabled := enable\<rparr>"

definition MarkBalancer :: "bool \<Rightarrow> 'c Data \<Rightarrow> 'c Data" where
  "MarkBalancer enable data = data\<lparr>BalancerEnabled := enable\<rparr>"

section \<open>Segregation and removal\<close>

text \<open>\<open>SetSegregateNodeStatus\<close> reads \<open>status[i]\<close> for the i-th id when the node exists.\<close>

fun segregateLoop :: "nat list \<Rightarrow> nat list \<Rightarrow> DataNode list \<Rightarrow> err + DataNode list" where
  "segregateLoop status [] ns = Inr ns"
| "segregateLoop [] (i # ids) ns =
     (if \<exists>n \<in> set ns. ni_ID n = i then Inl index_panic else segregateLoop [] ids ns)"
| "segregateLoop (st # status) (i # ids) ns =
     segregateLoop status ids (updFirst (\<lambda>n. ni_ID n = i) (\<lambda>n. n\<lparr>ni_SegregateStatus := st\<rparr>) ns)"

definition SetSegregateNodeStatus :: "nat list \<Rightarrow> nat list \<Rightarrow> 'c Data \<Rightarrow> 'c Data \<times> err option" where
  "SetSegregateNodeStatus status nodeIds data =
     (case segregateLoop status nodeIds (DataNodes data) of
        Inl e \<Rightarrow> (data, Some e) | Inr ns \<Rightarrow> (data\<lparr>DataNodes := ns\<rparr>, None))"

definition RemoveNode :: "nat list \<Rightarrow> 'c Data \<Rightarrow> 'c Data" where
  "RemoveNode nodeIds data = data\<lparr>DataNodes := filter (\<lambda>n. ni_ID n \<notin> set nodeIds) (DataNodes data)\<rparr>"

section \<open>What a node has to load\<close>

definition nodePts :: "nat \<Rightarrow> 'c Data \<Rightarrow> (string \<times> PtInfo) list" where
  "nodePts i data = concat (map (\<lambda>(db, v). map (Pair db) (filter (\<lambda>p. pt_Owner p = i) v)) (PtView data))"

definition GetPtInfosByNodeId :: "nat \<Rightarrow> 'c Data \<Rightarrow> DbPtInfo list" where
  "GetPtInfosByNodeId i data =
     map (\<lambda>(db, p). \<lparr>dp_Db = db, dp_Pti = p, dp_Shards = the (GetShardDurationsByDbPt db (pt_PtId p) data),
                     dp_DBBriefInfo = the (GetDBBriefInfo db data)\<rparr>)
       (filter (\<lambda>(db, p). data_Database db data \<noteq> None) (nodePts i data))"

definition GetFailedPtInfos :: "nat \<Rightarrow> nat \<Rightarrow> 'c Data \<Rightarrow> DbPtInfo list" where
  "GetFailedPtInfos i status data =
     map (\<lambda>(db, p). \<lparr>dp_Db = db, dp_Pti = p,
            dp_Shards = the (GetShardDurationsByDbPtForRetention db (pt_PtId p) data),
            dp_DBBriefInfo = the (GetDBBriefInfo db data)\<rparr>)
       (filter (\<lambda>(db, p). pt_Status p = status
                 \<and> (case data_Database db data of None \<Rightarrow> False | Some di \<Rightarrow> \<not> db_MarkDeleted di)) (nodePts i data))"

fun dbPtLoop :: "Env \<Rightarrow> string \<Rightarrow> DatabaseBriefInfo \<Rightarrow> nat \<Rightarrow> 'c Data \<Rightarrow> PtInfo list \<Rightarrow> err + DbPtInfo list" where
  "dbPtLoop env name brief replicasN data [] = Inr []"
| "dbPtLoop env name brief replicasN data (p # ps) =
     (if pt_Status p \<noteq> Offline then dbPtLoop env name brief replicasN data ps
      else
        let unFull = (if env_haPolicy env = Replication \<and> replicasN > 1 then
                        (case GetRGOfPtFast (pt_RGID p) name data of
                           Inl e \<Rightarrow> Inl e
                         | Inr None \<Rightarrow> Inl nil_panic
                         | Inr (Some rg) \<Rightarrow> Inr (rg_Status rg = UnFull))
                      else Inr False)
        in case unFull of
             Inl e \<Rightarrow> Inl e
           | Inr True \<Rightarrow> dbPtLoop env name brief replicasN data ps
           | Inr False \<Rightarrow>
               (case dbPtLoop env name brief replicasN data ps of
                  Inl e \<Rightarrow> Inl e
                | Inr r \<Rightarrow> Inr (\<lparr>dp_Db = name, dp_Pti = p, dp_Shards = [], dp_DBBriefInfo = brief\<rparr> # r)))"

definition GetPtInfosByDbname :: "Env \<Rightarrow> string \<Rightarrow> bool \<Rightarrow> nat \<Rightarrow> 'c Data \<Rightarrow> err + DbPtInfo list" where
  "GetPtInfosByDbname env name enableTagArray replicasN data =
     (if (case data_Database name data of None \<Rightarrow> False | Some di \<Rightarrow> db_MarkDeleted di)
      then Inl (Errno ''DatabaseIsBeingDelete'')
      else dbPtLoop env name \<lparr>dbi_Name = name, dbi_EnableTagArray = enableTagArray, dbi_Replicas = int replicasN\<rparr>
             replicasN data (DBPtView name data))"

section \<open>Frames\<close>

text \<open>The partition functions change the views and the replica groups only, the expansion of groups the
  databases and three id counters only.\<close>

definition ptFrame :: "'c Data \<Rightarrow> 'c Data \<Rightarrow> bool" where
  "ptFrame d d' \<longleftrightarrow> (\<exists>v r. d' = d\<lparr>PtView := v, ReplicaGroups := r\<rparr>)"

definition groupFrame :: "'c Data \<Rightarrow> 'c Data \<Rightarrow> bool" where
  "groupFrame d d' \<longleftrightarrow>
     (\<exists>dbs a b c. d' = d\<lparr>Databases := dbs, MaxShardID := a, MaxIndexGroupID := b, MaxIndexID := c\<rparr>)"

lemma ptFrame_refl [simp, intro]: "ptFrame d d"
  unfolding ptFrame_def by (rule exI [of _ "PtView d"], rule exI [of _ "ReplicaGroups d"]) (cases d; simp)

lemma ptFrame_trans: "ptFrame a b \<Longrightarrow> ptFrame b c \<Longrightarrow> ptFrame a c"
  by (clarsimp simp: ptFrame_def) blast

lemma ptFrame_PtView [simp]:
  assumes "ptFrame d d'"
  shows "ptFrame d (d'\<lparr>PtView := v\<rparr>)"
proof -
  obtain w r where "d' = d\<lparr>PtView := w, ReplicaGroups := r\<rparr>" using assms by (auto simp: ptFrame_def)
  then have "d'\<lparr>PtView := v\<rparr> = d\<lparr>PtView := v, ReplicaGroups := r\<rparr>" by (cases d) simp
  then show ?thesis unfolding ptFrame_def by blast
qed

lemma ptFrame_ReplicaGroups [simp]: "ptFrame d d' \<Longrightarrow> ptFrame d (d'\<lparr>ReplicaGroups := r\<rparr>)"
  by (clarsimp simp: ptFrame_def) blast

lemma ptFrame_loopE:
  assumes "\<And>x d. ptFrame d (fst (f x d))"
  shows "ptFrame d (fst (loopE f xs d))"
  by (rule loopE_inv [where P = "ptFrame d"]) (auto intro: ptFrame_trans assms)

lemma ptFrame_nextHealth: "ptFrame d (fst (data_nextHealth db i v d))"
  by (auto simp: data_nextHealth_def putRG_def split: sum.splits option.splits prod.splits)

lemma ptFrame_nextSubHealth: "ptFrame d (fst (data_nextSubHealth db i v d))"
  by (auto simp: data_nextSubHealth_def putRG_def split: sum.splits option.splits)

lemma ptFrame_case:
  "ptFrame d (fst r) \<Longrightarrow>
     ptFrame d (fst (case r of (d', None) \<Rightarrow> (d'\<lparr>PtView := f d'\<rparr>, None) | (d', Some e) \<Rightarrow> (d', Some e)))"
  by (cases r; cases "snd r") auto

lemma ptFrame_if: "(\<not> c \<Longrightarrow> ptFrame d (fst y)) \<Longrightarrow> ptFrame d (fst (if c then (d, x) else y))"
  by auto

lemma ptFrame_updatePtStatus: "ptFrame d (fst (updatePtStatus env db i n st d))"
  unfolding updatePtStatus_def Let_def
  by (rule ptFrame_if, rule ptFrame_case) (simp add: ptFrame_nextSubHealth)

lemma ptFrame_updatePtViewStep: "ptFrame d (fst (updatePtViewStep env nid st db i d))"
proof -
  have "ptFrame d (fst (data_nextHealth db j v (d\<lparr>PtView := w\<rparr>)))" for j v w
    by (rule ptFrame_trans [OF _ ptFrame_nextHealth]) simp
  then show ?thesis by (auto simp: updatePtViewStep_def Let_def)
qed

lemma ptFrame_updatePtViewStatus: "ptFrame d (fst (updatePtViewStatus env nid st d))"
  unfolding updatePtViewStatus_def
  by (intro ptFrame_loopE) (auto simp: ptFrame_updatePtViewStep split: prod.splits)

lemma ptFrame_joinRpGroup: "ptFrame d (fst (joinRpGroup db n r s az f d))"
  by (auto simp: joinRpGroup_def Let_def split: option.splits prod.splits)

lemma ptFrame_chooseRG: "ptFrame d (fst (chooseRG env db n r d))"
  by (auto simp: chooseRG_def NodeHardChooseRG_def AzHardChooseRG_def ptFrame_joinRpGroup
      split: RepDisPolicy.splits option.splits)

lemma ptFrame_expandDBPtView: "ptFrame d (fst (expandDBPtView env db n nn d))"
proof -
  let ?l = "\<lambda>xs. loopE (\<lambda>ptId. updatePtStatus env db ptId (ni_ID nn) Offline) xs"
  have l: "ptFrame d d'" if "?l xs d = (d', e)" for xs d' e
    using ptFrame_loopE [of "\<lambda>ptId. updatePtStatus env db ptId (ni_ID nn) Offline", OF ptFrame_updatePtStatus, of d xs]
      that by simp
  have c: "ptFrame d (fst (chooseRG env db nn r d'))" if "?l xs d = (d', e)" for r xs d' e
    using ptFrame_trans [OF l [OF that] ptFrame_chooseRG] .
  show ?thesis
    unfolding expandDBPtView_def Let_def by (auto split: option.splits prod.splits dest: l c)
qed

lemma groupFrame_refl [simp, intro]: "groupFrame d d"
  unfolding groupFrame_def
  by (rule exI [of _ "Databases d"], rule exI [of _ "MaxShardID d"], rule exI [of _ "MaxIndexGroupID d"],
      rule exI [of _ "MaxIndexID d"]) (cases d; simp)

lemma groupFrame_trans: "groupFrame a b \<Longrightarrow> groupFrame b c \<Longrightarrow> groupFrame a c"
  by (clarsimp simp: groupFrame_def) blast

lemma groupFrame_createIndexGroupIfNeeded:
  "createIndexGroupIfNeeded env t et n rp d = (igi, rp', d') \<Longrightarrow> groupFrame d d'"
proof -
  assume "createIndexGroupIfNeeded env t et n rp d = (igi, rp', d')"
  then consider "d' = d" | a b where "d' = d\<lparr>MaxIndexGroupID := a, MaxIndexID := b\<rparr>"
    by (auto simp: createIndexGroupIfNeeded_def CreateIndexGroup_def Let_def split: option.splits if_splits)
  then show ?thesis
  proof cases
    case 2
    then have "d' = d\<lparr>Databases := Databases d, MaxShardID := MaxShardID d, MaxIndexGroupID := a, MaxIndexID := b\<rparr>"
      by (cases d) simp
    then show ?thesis unfolding groupFrame_def by blast
  qed simp
qed

lemma groupFrame_MaxShardID: "groupFrame d d' \<Longrightarrow> groupFrame d (d'\<lparr>MaxShardID := a\<rparr>)"
proof -
  assume "groupFrame d d'"
  then obtain dbs x y z where "d' = d\<lparr>Databases := dbs, MaxShardID := x, MaxIndexGroupID := y, MaxIndexID := z\<rparr>"
    by (auto simp: groupFrame_def)
  then have "d'\<lparr>MaxShardID := a\<rparr> = d\<lparr>Databases := dbs, MaxShardID := a, MaxIndexGroupID := y, MaxIndexID := z\<rparr>"
    by (cases d) simp
  then show ?thesis unfolding groupFrame_def by blast
qed

lemma groupFrame_expandIndexes: "expandIndexes n ig d = Inr (ig', d') \<Longrightarrow> groupFrame d d'"
proof -
  assume "expandIndexes n ig d = Inr (ig', d')"
  then obtain z where "d' = d\<lparr>MaxIndexID := z\<rparr>" by (auto simp: expandIndexes_def Let_def)
  then have "d' = d\<lparr>Databases := Databases d, MaxShardID := MaxShardID d, MaxIndexGroupID := MaxIndexGroupID d, MaxIndexID := z\<rparr>"
    by (cases d) simp
  then show ?thesis unfolding groupFrame_def by blast
qed

lemma groupFrame_expandShards:
  assumes "expandShards env n sg s = Inr (sg', s')" shows "groupFrame (snd s) (snd s')"
proof -
  have step: "groupFrame (snd (snd t)) (snd (snd (fst (expandShard env n i t))))" for i t
    by (cases t) (auto simp: expandShard_def split: prod.splits
        intro: groupFrame_MaxShardID dest: groupFrame_createIndexGroupIfNeeded)
  have "groupFrame (snd (snd t)) (snd (snd (fst (loopE (expandShard env n) is t))))" for "is" t
    by (rule loopE_inv [where P = "\<lambda>u. groupFrame (snd (snd t)) (snd (snd u))"]) (auto intro: groupFrame_trans step)
  from this [of "(sg, s)"] show ?thesis
    using assms by (auto simp: expandShards_def split: prod.splits option.splits) (metis fst_conv snd_conv)
qed

lemma walkE_frame:
  assumes "\<And>x s y s'. f x s = Inr (y, s') \<Longrightarrow> groupFrame (g s) (g s')" "walkE f xs s = Inr (ys, s')"
  shows "groupFrame (g s) (g s')"
  using assms(2)
proof (induction xs arbitrary: s ys)
  case (Cons x xs)
  then obtain y s1 ys1 where "f x s = Inr (y, s1)" "walkE f xs s1 = Inr (ys1, s')"
    by (auto split: sum.splits)
  then show ?case using Cons assms(1) groupFrame_trans by blast
qed simp

lemma groupFrame_expandRP: "expandRP env n rp d = Inr (rp', d') \<Longrightarrow> groupFrame d d'"
proof -
  assume a: "expandRP env n rp d = Inr (rp', d')"
  show ?thesis
  proof (cases "shardingType rp = RANGE")
    case False
    then obtain igs d1 sgs rp2 where w: "walkE (expandIndexes n) (rp_IndexGroups rp) d = Inr (igs, d1)"
      "walkE (expandShards env n) (rp_ShardGroups rp) (rp\<lparr>rp_IndexGroups := igs\<rparr>, d1) = Inr (sgs, rp2, d')"
      using a by (auto simp: expandRP_def split: sum.splits)
    have "groupFrame d d1"
      using w(1) by (rule walkE_frame [where g = "\<lambda>s. s", rotated]) (erule groupFrame_expandIndexes)
    moreover have "groupFrame (snd (rp\<lparr>rp_IndexGroups := igs\<rparr>, d1)) (snd (rp2, d'))"
      using w(2) by (rule walkE_frame [where g = snd, rotated]) (erule groupFrame_expandShards)
    ultimately show ?thesis using groupFrame_trans by auto
  qed (use a in \<open>simp add: expandRP_def\<close>)
qed

lemma walkMap_frame:
  assumes "\<And>x s y s'. f x s = Inr (y, s') \<Longrightarrow> groupFrame s s'" "walkMap f m s = Inr (m', s')"
  shows "groupFrame s s'"
  using assms(2) unfolding walkMap_def
  by (rule walkE_frame [where g = "\<lambda>s. s", rotated]) (auto split: sum.splits prod.splits dest: assms(1))

lemma groupFrame_ExpandGroups: "ExpandGroups env d = Inr d' \<Longrightarrow> groupFrame d d'"
proof -
  assume "ExpandGroups env d = Inr d'"
  then obtain dbs d1 where 1: "walkMap (expandDB env (ClusterPtNum d)) (Databases d) d = Inr (dbs, d1)"
    "d' = d1\<lparr>Databases := dbs\<rparr>"
    by (auto simp: ExpandGroups_def split: sum.splits)
  have "groupFrame d d1"
    using 1(1)
  proof (rule walkMap_frame [rotated])
    fix db s db' s'
    assume "expandDB env (ClusterPtNum d) db s = Inr (db', s')"
    then obtain rps where "walkMap (expandRP env (ClusterPtNum d)) (db_RetentionPolicies db) s = Inr (rps, s')"
      by (auto simp: expandDB_def split: sum.splits)
    then show "groupFrame s s'" by (rule walkMap_frame [rotated]) (erule groupFrame_expandRP)
  qed
  then obtain x y z w where "d1 = d\<lparr>Databases := w, MaxShardID := x, MaxIndexGroupID := y, MaxIndexID := z\<rparr>"
    by (auto simp: groupFrame_def)
  then have "d' = d\<lparr>Databases := dbs, MaxShardID := x, MaxIndexGroupID := y, MaxIndexID := z\<rparr>"
    using 1(2) by (cases d) simp
  then show ?thesis unfolding groupFrame_def by blast
qed

section \<open>An id names one address\<close>

definition nodeKeys :: "('a NodeInfo_scheme) list \<Rightarrow> (nat \<times> string) list" where
  "nodeKeys ns = map (\<lambda>n. (ni_ID n, ni_TCPHost n)) ns"

definition allKeys :: "'c Data \<Rightarrow> (nat \<times> string) list" where
  "allKeys d = nodeKeys (MetaNodes d) @ nodeKeys (DataNodes d) @ nodeKeys (SqlNodes d)"

definition keysOk :: "nat \<Rightarrow> (nat \<times> string) list \<Rightarrow> bool" where
  "keysOk maxID keys \<longleftrightarrow>
     (\<forall>k \<in> set keys. 0 < fst k \<and> fst k \<le> maxID)
   \<and> (\<forall>k \<in> set keys. \<forall>k' \<in> set keys. fst k = fst k' \<longrightarrow> snd k = snd k')"

definition nodesInv :: "'c Data \<Rightarrow> bool" where
  "nodesInv d \<longleftrightarrow> keysOk (MaxNodeID d) (allKeys d) \<and> distinct (map ni_TCPHost (DataNodes d))
     \<and> sorted (map ni_ID (DataNodes d)) \<and> distinct (map ni_TCPHost (SqlNodes d))"

lemma nodesInv_cong:
  "MetaNodes d' = MetaNodes d \<Longrightarrow> DataNodes d' = DataNodes d \<Longrightarrow> SqlNodes d' = SqlNodes d \<Longrightarrow> MaxNodeID d' = MaxNodeID d \<Longrightarrow>
     nodesInv d' = nodesInv d"
  by (simp add: nodesInv_def allKeys_def)

lemma nodesInv_ptFrame: "ptFrame d d' \<Longrightarrow> nodesInv d' = nodesInv d"
  by (rule nodesInv_cong) (auto simp: ptFrame_def)

lemma nodesInv_groupFrame: "groupFrame d d' \<Longrightarrow> nodesInv d' = nodesInv d"
  by (rule nodesInv_cong) (auto simp: groupFrame_def)

lemma keysOk_distinct:
  assumes "keysOk m (nodeKeys ns)" "distinct (map ni_TCPHost ns)"
  shows "distinct (map ni_ID ns)"
proof -
  have key: "ni_TCPHost x = ni_TCPHost y" if "x \<in> set ns" "y \<in> set ns" "ni_ID x = ni_ID y" for x y
  proof -
    have "(ni_ID x, ni_TCPHost x) \<in> set (nodeKeys ns)" "(ni_ID y, ni_TCPHost y) \<in> set (nodeKeys ns)"
      using that(1,2) by (auto simp: nodeKeys_def)
    then show ?thesis using assms(1) that(3) unfolding keysOk_def by fastforce
  qed
  show ?thesis
    unfolding distinct_conv_nth
  proof (intro allI impI)
    fix i j assume a: "i < length (map ni_ID ns)" "j < length (map ni_ID ns)" "i \<noteq> j"
    then have "ni_TCPHost (ns ! i) \<noteq> ni_TCPHost (ns ! j)" using assms(2) by (simp add: distinct_conv_nth)
    then have "ni_ID (ns ! i) \<noteq> ni_ID (ns ! j)" using key [of "ns ! i" "ns ! j"] a by auto
    then show "map ni_ID ns ! i \<noteq> map ni_ID ns ! j" using a by simp
  qed
qed

lemma keysOk_subset: "keysOk m ks \<Longrightarrow> set ks' \<subseteq> set ks \<Longrightarrow> keysOk m ks'"
  unfolding keysOk_def by blast

lemma nodesInv_ids: "nodesInv d \<Longrightarrow> distinct (map ni_ID (DataNodes d))"
  unfolding nodesInv_def allKeys_def by (intro keysOk_distinct) (auto intro: keysOk_subset)

lemma distinct_map_sort_key: "distinct (map f (sort_key g xs)) = distinct (map f xs)"
  by (simp add: distinct_map)

lemma keysOk_fresh:
  assumes "keysOk m ks"
  shows "keysOk (m + 1) ((m + 1, h) # ks)"
proof -
  have "0 < fst k \<and> fst k \<le> m" if "k \<in> set ks" for k using assms that unfolding keysOk_def by blast
  moreover have "snd k = snd k'" if "k \<in> set ks" "k' \<in> set ks" "fst k = fst k'" for k k'
    using assms that unfolding keysOk_def by blast
  ultimately show ?thesis
    unfolding keysOk_def list.set by (intro conjI ballI impI) (elim insertE; fastforce)+
qed

lemma chooseID_ok:
  assumes "chooseID m h others = (i, m')" "keysOk m ks" "set others \<subseteq> set ks" "m < 18446744073709551615"
  shows "keysOk m' ((i, h) # ks)" "m' \<le> m + 1"
proof -
  have u: "u64 (m + 1) = m + 1" by (rule u64_id) (use assms(4) in linarith)
  have c: "((i, h) \<in> set others \<and> i \<noteq> 0 \<and> m' = m) \<or> (i = m + 1 \<and> m' = m + 1)"
    using assms(1) unfolding chooseID_def u Let_def
    by (auto split: option.splits if_splits dest!: find_SomeD)
  then show "m' \<le> m + 1" by auto
  from c show "keysOk m' ((i, h) # ks)"
  proof
    assume "(i, h) \<in> set others \<and> i \<noteq> 0 \<and> m' = m"
    then have "keysOk m ((i, h) # ks)" "m' = m" using assms(3) by (auto intro!: keysOk_subset [OF assms(2)])
    then show ?thesis by simp
  next
    assume "i = m + 1 \<and> m' = m + 1"
    then show ?thesis using keysOk_fresh [OF assms(2)] by simp
  qed
qed

text \<open>Changes that keep the id and the address of every node keep the invariant.\<close>

lemma nodeKeys_updFirst:
  "(\<And>n. ni_ID (f n) = ni_ID n \<and> ni_TCPHost (f n) = ni_TCPHost n) \<Longrightarrow>
     map ni_ID (updFirst p f ns) = map ni_ID ns \<and> map ni_TCPHost (updFirst p f ns) = map ni_TCPHost ns
     \<and> nodeKeys (updFirst p f ns) = nodeKeys ns"
  by (induction ns) (auto simp: nodeKeys_def)

lemma nodesInv_keys:
  assumes "nodesInv d" "nodeKeys (MetaNodes d') = nodeKeys (MetaNodes d)" "nodeKeys (DataNodes d') = nodeKeys (DataNodes d)"
    "nodeKeys (SqlNodes d') = nodeKeys (SqlNodes d)" "MaxNodeID d' = MaxNodeID d"
  shows "nodesInv d'"
proof -
  have ids: "map ni_ID ns = map fst (nodeKeys ns)" "map ni_TCPHost ns = map snd (nodeKeys ns)"
    for ns :: "('z NodeInfo_scheme) list"
    by (simp_all add: nodeKeys_def)
  show ?thesis using assms unfolding nodesInv_def allKeys_def ids by simp
qed

lemma CreateDataNode_cases:
  assumes "CreateDataNode env host tcpHost role az d = (d', r)"
  shows "(\<exists>n \<in> set (DataNodes d). ni_TCPHost n = tcpHost
          \<and> d' = d\<lparr>MaxConnID := u64 (MaxConnID d + 1), DataNodes := updFirst (\<lambda>n. ni_TCPHost n = tcpHost)
                 (\<lambda>n. n\<lparr>dn_ConnID := u64 (MaxConnID d + 1)\<rparr>) (DataNodes d)\<rparr> \<and> r = Inr (ni_ID n))
       \<or> (\<exists>i m d1 d2 d3. chooseID (MaxNodeID d) tcpHost (nodeKeys (MetaNodes d)) = (i, m)
          \<and> tcpHost \<notin> ni_TCPHost ` set (DataNodes d)
          \<and> d1 = d\<lparr>MaxConnID := u64 (MaxConnID d + 1), MaxNodeID := m,
               DataNodes := sort_key ni_ID (DataNodes d @ [newNode i host tcpHost role az [] (u64 (MaxConnID d + 1))])\<rparr>
          \<and> d2 = initDataNodePtView (ClusterPtNum d1) d1 \<and> ptFrame d2 d3 \<and> groupFrame d3 d' \<and> (\<forall>j. r = Inr j \<longrightarrow> j = i))"
proof (cases "find (\<lambda>n. ni_TCPHost n = tcpHost) (DataNodes d)")
  case (Some n)
  then show ?thesis using assms by (auto simp: CreateDataNode_def Let_def dest: find_SomeD)
next
  case None
  obtain i m where im: "chooseID (MaxNodeID d) tcpHost (nodeKeys (MetaNodes d)) = (i, m)" by (metis surj_pair)
  let ?dn = "newNode i host tcpHost role az [] (u64 (MaxConnID d + 1))"
  let ?d1 = "d\<lparr>MaxConnID := u64 (MaxConnID d + 1), MaxNodeID := m, DataNodes := sort_key ni_ID (DataNodes d @ [?dn])\<rparr>"
  let ?d2 = "initDataNodePtView (ClusterPtNum ?d1) ?d1"
  obtain d3 e where l: "loopE (\<lambda>db. expandDBPtView env db (ClusterPtNum ?d2) ?dn) (map fst (PtView ?d2)) ?d2 = (d3, e)"
    by (metis surj_pair)
  have f3: "ptFrame ?d2 d3"
    using ptFrame_loopE [of "\<lambda>db. expandDBPtView env db (ClusterPtNum ?d2) ?dn", OF ptFrame_expandDBPtView,
        of ?d2 "map fst (PtView ?d2)"] l by simp
  have "(d' = ?d2 \<and> (\<forall>j. r = Inr j \<longrightarrow> j = i)) \<or> (groupFrame d3 d' \<and> (\<forall>j. r = Inr j \<longrightarrow> j = i))"
    using assms None im l groupFrame_ExpandGroups
    by (auto simp: CreateDataNode_def Let_def nodeKeys_def split: if_splits option.splits sum.splits)
  moreover have "tcpHost \<notin> ni_TCPHost ` set (DataNodes d)" using None by (auto simp: find_None_iff)
  ultimately show ?thesis using im f3 by (metis (no_types, lifting) groupFrame_refl ptFrame_refl)
qed

lemma CreateDataNode_nodesInv:
  assumes "nodesInv d" "MaxNodeID d < 18446744073709551615"
    "CreateDataNode env host tcpHost role az d = (d', r)"
  shows "nodesInv d'" "MaxNodeID d' \<le> MaxNodeID d + 1"
proof -
  have "nodesInv d' \<and> MaxNodeID d' \<le> MaxNodeID d + 1"
    using CreateDataNode_cases [OF assms(3)]
  proof (elim disjE bexE exE conjE)
    fix n
    assume "d' = d\<lparr>MaxConnID := u64 (MaxConnID d + 1), DataNodes := updFirst (\<lambda>n. ni_TCPHost n = tcpHost)
                 (\<lambda>n. n\<lparr>dn_ConnID := u64 (MaxConnID d + 1)\<rparr>) (DataNodes d)\<rparr>"
    then show ?thesis
      using nodeKeys_updFirst [of "\<lambda>n. n\<lparr>dn_ConnID := u64 (MaxConnID d + 1)\<rparr>" "\<lambda>n. ni_TCPHost n = tcpHost" "DataNodes d"]
        assms(1) by (auto intro: nodesInv_keys)
  next
    fix i m d1 d2 d3
    let ?dn = "newNode i host tcpHost role az [] (u64 (MaxConnID d + 1))"
    assume c: "chooseID (MaxNodeID d) tcpHost (nodeKeys (MetaNodes d)) = (i, m)"
      and h: "tcpHost \<notin> ni_TCPHost ` set (DataNodes d)"
      and d1: "d1 = d\<lparr>MaxConnID := u64 (MaxConnID d + 1), MaxNodeID := m,
               DataNodes := sort_key ni_ID (DataNodes d @ [?dn])\<rparr>"
      and d2: "d2 = initDataNodePtView (ClusterPtNum d1) d1" and f: "ptFrame d2 d3" "groupFrame d3 d'"
    have ok: "keysOk m ((i, tcpHost) # allKeys d)" "m \<le> MaxNodeID d + 1"
      using chooseID_ok [OF c _ _ assms(2), of "allKeys d"] assms(1) by (auto simp: nodesInv_def allKeys_def)
    have "keysOk m (allKeys d1)"
      by (rule keysOk_subset [OF ok(1)]) (auto simp: d1 allKeys_def nodeKeys_def newNode_def)
    moreover have "distinct (map ni_TCPHost (DataNodes d1))"
      using assms(1) h by (auto simp: d1 nodesInv_def newNode_def distinct_map_sort_key)
    ultimately have "nodesInv d1" using assms(1) by (auto simp: nodesInv_def d1)
    then have "nodesInv d2" by (subst nodesInv_cong [of _ d1]) (auto simp: d2 initDataNodePtView_def Let_def)
    then have "nodesInv d'" using f nodesInv_ptFrame nodesInv_groupFrame by blast
    moreover have "MaxNodeID d' = m"
      using f by (auto simp: ptFrame_def groupFrame_def d2 d1 initDataNodePtView_def Let_def)
    ultimately show ?thesis using ok(2) by simp
  qed
  then show "nodesInv d'" "MaxNodeID d' \<le> MaxNodeID d + 1" by auto
qed

lemma CreateSqlNode_nodesInv:
  assumes "nodesInv d" "MaxNodeID d < 18446744073709551615" "CreateSqlNode host gossip d = (d', r)"
  shows "nodesInv d' \<and> MaxNodeID d' \<le> MaxNodeID d + 1"
proof (cases "find (\<lambda>n. ni_TCPHost n = host) (SqlNodes d)")
  case (Some n)
  then show ?thesis
    using nodeKeys_updFirst [of "\<lambda>n. n\<lparr>dn_ConnID := u64 (MaxConnID d + 1)\<rparr>" "\<lambda>n. ni_TCPHost n = host" "SqlNodes d"]
      assms(1,3) by (auto simp: CreateSqlNode_def Let_def intro: nodesInv_keys)
next
  case None
  obtain i m where c: "chooseID (MaxNodeID d) host (nodeKeys (MetaNodes d)) = (i, m)" by (metis surj_pair)
  let ?n = "newNode i [] host [] [] gossip (u64 (MaxConnID d + 1))"
  have d': "d' = d\<lparr>MaxConnID := u64 (MaxConnID d + 1), MaxNodeID := m, SqlNodes := SqlNodes d @ [?n]\<rparr>"
    using assms(3) None c by (auto simp: CreateSqlNode_def Let_def nodeKeys_def)
  have ok: "keysOk m ((i, host) # allKeys d)" "m \<le> MaxNodeID d + 1"
    using chooseID_ok [OF c _ _ assms(2), of "allKeys d"] assms(1) by (auto simp: nodesInv_def allKeys_def)
  have "keysOk m (allKeys d')"
    by (rule keysOk_subset [OF ok(1)]) (auto simp: d' allKeys_def nodeKeys_def newNode_def)
  moreover have "host \<notin> ni_TCPHost ` set (SqlNodes d)" using None by (auto simp: find_None_iff)
  ultimately show ?thesis using assms(1) ok(2) by (auto simp: nodesInv_def d' newNode_def)
qed

lemma CreateMetaNode_nodesInv:
  assumes "nodesInv d" "MaxNodeID d < 18446744073709551615" "CreateMetaNode h rpc tcp d = (d', r)"
  shows "nodesInv d' \<and> MaxNodeID d' \<le> MaxNodeID d + 1"
proof (cases "\<exists>n \<in> set (MetaNodes d). ni_Host n = h")
  case True
  then show ?thesis using assms by (simp add: CreateMetaNode_def)
next
  case False
  obtain i m where c: "chooseID (MaxNodeID d) tcp (nodeKeys (DataNodes d)) = (i, m)" by (metis surj_pair)
  obtain n where n: "d' = d\<lparr>MaxNodeID := m, MetaNodes := sort_key ni_ID (MetaNodes d @ [n])\<rparr>"
    "ni_ID n = i" "ni_TCPHost n = tcp"
    using assms(3) False c by (auto simp: CreateMetaNode_def Let_def nodeKeys_def)
  have ok: "keysOk m ((i, tcp) # allKeys d)" "m \<le> MaxNodeID d + 1"
    using chooseID_ok [OF c _ _ assms(2), of "allKeys d"] assms(1) by (auto simp: nodesInv_def allKeys_def)
  have "keysOk m (allKeys d')"
    by (rule keysOk_subset [OF ok(1)]) (auto simp: n allKeys_def nodeKeys_def)
  then show ?thesis using assms(1) ok(2) by (auto simp: nodesInv_def n)
qed

lemma nodesInv_removed:
  assumes "nodesInv d" "set (MetaNodes d') \<subseteq> set (MetaNodes d)" "DataNodes d' = filter P (DataNodes d)"
    "SqlNodes d' = SqlNodes d" "MaxNodeID d' = MaxNodeID d"
  shows "nodesInv d'"
proof -
  have "keysOk (MaxNodeID d') (allKeys d')"
    unfolding assms(5)
    by (rule keysOk_subset [of _ "allKeys d"]) (use assms in \<open>auto simp: nodesInv_def allKeys_def nodeKeys_def\<close>)
  then show ?thesis
    using assms(1,3,4) by (auto simp: nodesInv_def distinct_map_filter sorted_filter)
qed

lemma DeleteMetaNode_nodesInv: "nodesInv d \<Longrightarrow> nodesInv (fst (DeleteMetaNode i d))"
  by (auto simp: DeleteMetaNode_def Let_def intro: nodesInv_removed [of d _ "\<lambda>_. True"])

lemma RemoveNode_nodesInv: "nodesInv d \<Longrightarrow> nodesInv (RemoveNode ids d)"
  by (rule nodesInv_removed [of d _ "\<lambda>n. ni_ID n \<notin> set ids"]) (auto simp: RemoveNode_def)

lemma UpdateNodeStatus_nodesInv:
  assumes "nodesInv d"
  shows "nodesInv (fst (UpdateNodeStatus env i st lt port d))"
proof -
  have "nodesInv (fst (updatePtViewStatus env i Offline (d\<lparr>DataNodes := updFirst (\<lambda>n. ni_ID n = i) (\<lambda>_. dn') (DataNodes d)\<rparr>)))"
    if dn: "data_DataNode i d = Some dn" and k: "ni_ID dn' = ni_ID dn" "ni_TCPHost dn' = ni_TCPHost dn" for dn dn'
  proof -
    have "nodeKeys (updFirst (\<lambda>n. ni_ID n = i) (\<lambda>_. dn') ns) = nodeKeys ns"
      if "find (\<lambda>n. ni_ID n = i) ns = Some dn" for ns
      using that k by (induction ns) (auto simp: nodeKeys_def split: if_splits)
    then have "nodesInv (d\<lparr>DataNodes := updFirst (\<lambda>n. ni_ID n = i) (\<lambda>_. dn') (DataNodes d)\<rparr>)"
      using assms dn by (intro nodesInv_keys [OF assms]) (auto simp: data_DataNode_def)
    then show ?thesis using nodesInv_ptFrame ptFrame_updatePtViewStatus by blast
  qed
  then show ?thesis using assms by (auto simp: UpdateNodeStatus_def Let_def split: option.splits)
qed

lemma UpdateSqlNodeStatus_nodesInv: "nodesInv d \<Longrightarrow> nodesInv (fst (UpdateSqlNodeStatus i st lt d))"
  using nodeKeys_updFirst [of _ "\<lambda>n. ni_ID n = i" "SqlNodes d"]
  by (auto simp: UpdateSqlNodeStatus_def split: option.splits intro: nodesInv_keys)

lemma nodeKeys_setIndexLoop: "nodeKeys (fst (setIndexLoop i x ns)) = nodeKeys ns"
  by (induction ns) (auto simp: nodeKeys_def split: prod.splits)

lemma UpdateNodeTmpIndex_nodesInv:
  assumes "nodesInv d"
  shows "nodesInv (fst (UpdateNodeTmpIndex role idx i d))"
proof -
  have "nodesInv (d\<lparr>SqlNodes := fst (setIndexLoop i idx (SqlNodes d))\<rparr>)"
    "nodesInv (d\<lparr>DataNodes := fst (setIndexLoop i idx (DataNodes d))\<rparr>)"
    by (rule nodesInv_keys [OF assms]; simp add: nodeKeys_setIndexLoop)+
  then show ?thesis
    using assms by (simp add: UpdateNodeTmpIndex_def SetSqlNodeIndex_def SetDataNodeIndex_def case_prod_beta)
qed

lemma nodeKeys_segregateLoop: "segregateLoop st ids ns = Inr ns' \<Longrightarrow> nodeKeys ns' = nodeKeys ns"
  by (induction st ids ns rule: segregateLoop.induct)
    (auto simp: nodeKeys_updFirst split: if_splits)

lemma SetSegregateNodeStatus_nodesInv:
  assumes "nodesInv d"
  shows "nodesInv (fst (SetSegregateNodeStatus st ids d))"
proof (cases "segregateLoop st ids (DataNodes d)")
  case (Inr ns)
  then have "nodesInv (d\<lparr>DataNodes := ns\<rparr>)"
    by (intro nodesInv_keys [OF assms]) (simp_all add: nodeKeys_segregateLoop)
  then show ?thesis using Inr by (simp add: SetSegregateNodeStatus_def)
qed (use assms in \<open>simp add: SetSegregateNodeStatus_def\<close>)

section \<open>Status reports that are accepted\<close>




section \<open>The partitions of a new node\<close>

definition viewOk :: "nat \<Rightarrow> PtInfo list \<Rightarrow> bool" where
  "viewOk n v \<longleftrightarrow> length v = n \<and> (\<forall>i < n. pt_PtId (v ! i) = i)"

definition extView :: "PtInfo list \<Rightarrow> nat \<Rightarrow> nat \<Rightarrow> nat \<Rightarrow> PtInfo list" where
  "extView v owner k n = v @ map (\<lambda>i. if i < k then newPt owner i else zeroPt) [length v..<n]"

lemma length_extView [simp]: "length v \<le> n \<Longrightarrow> length (extView v owner k n) = n"
  by (simp add: extView_def)

lemma extView_0: "extView v owner (length v) n = v @ replicate (n - length v) zeroPt"
  by (auto simp: extView_def list_eq_iff_nth_eq nth_append)

lemma extView_Suc:
  "length v \<le> k \<Longrightarrow> k < n \<Longrightarrow> (extView v owner k n)[k := newPt owner k] = extView v owner (Suc k) n"
  by (auto simp: extView_def list_eq_iff_nth_eq nth_append nth_list_update)

lemma extView_nth:
  "length v \<le> k \<Longrightarrow> k < n \<Longrightarrow> extView v owner k n ! k = zeroPt"
  by (simp add: extView_def nth_append)

lemma updatePtStatus_extend:
  assumes "map_of (PtView d) db = Some (if k = length v then v else extView v owner k (ClusterPtNum d))"
    "length v \<le> k" "k < ClusterPtNum d" "ClusterPtNum d < 4294967296"
  shows "updatePtStatus env db k owner Offline d =
     (d\<lparr>PtView := AList.update db (extView v owner (Suc k) (ClusterPtNum d)) (PtView d)\<rparr>, None)"
proof -
  let ?n = "ClusterPtNum d"
  let ?w = "if k = length v then v else extView v owner k ?n"
  have "length ?w < 4294967296" using assms(2,3,4) by auto
  then have u: "u32 (length ?w) = length ?w" by (rule u32_id)
  have view: "(if k \<ge> u32 (length ?w) then take ?n ?w @ replicate (?n - length ?w) zeroPt else ?w) = extView v owner k ?n"
    unfolding u using assms(2,3) by (cases "k = length v") (simp_all add: extView_0)
  have z: "extView v owner k ?n ! k = zeroPt" "\<not> length (extView v owner k ?n) \<le> k"
    using assms(2,3) by (auto simp: extView_nth)
  have p: "zeroPt\<lparr>pt_Owner := owner, pt_Status := Offline, pt_PtId := k, pt_Ver := 1\<rparr> = newPt owner k"
    by (simp add: zeroPt_def newPt_def)
  have "pt_Ver zeroPt = 0" by (simp add: zeroPt_def)
  then show ?thesis
    unfolding updatePtStatus_def assms(1) option.case Let_def view
    using z p assms(2,3) by (simp add: extView_Suc)
qed

lemma extend_loop:
  assumes "map_of (PtView d) db = Some v" "ClusterPtNum d < 4294967296"
  shows "length v \<le> k \<Longrightarrow> k \<le> ClusterPtNum d \<Longrightarrow>
     loopE (\<lambda>i. updatePtStatus env db i owner Offline) [length v..<k] d =
     ((if k = length v then d else d\<lparr>PtView := AList.update db (extView v owner k (ClusterPtNum d)) (PtView d)\<rparr>), None)"
proof (induction k)
  case (Suc k)
  show ?case
  proof (cases "length v = Suc k")
    case False
    let ?d = "if k = length v then d else d\<lparr>PtView := AList.update db (extView v owner k (ClusterPtNum d)) (PtView d)\<rparr>"
    have "updatePtStatus env db k owner Offline ?d =
       (?d\<lparr>PtView := AList.update db (extView v owner (Suc k) (ClusterPtNum ?d)) (PtView ?d)\<rparr>, None)"
      using Suc.prems False assms by (intro updatePtStatus_extend) auto
    then show ?thesis
      using Suc False by (auto simp: loopE_append)
  qed simp
qed simp

lemma joinLoop_sameButRG:
  "joinLoop join r s nid ls (view, rgs, pre) = Some (view', rgs', pre') \<Longrightarrow> sameButRG view view'"
proof (induction ls arbitrary: view rgs pre)
  case (Cons l ls)
  have upd: "sameButRG view (view[l := (view ! l)\<lparr>pt_RGID := g\<rparr>])" for g
    by (cases "l < length view") (simp_all add: sameButRG_update list_update_beyond)
  show ?case
  proof (cases "pt_Owner (view ! l) = nid")
    case True
    then obtain view1 rgs1 pre1 where 1: "joinPt join r s l (view, rgs, pre) = Some (view1, rgs1, pre1)"
      "joinLoop join r s nid ls (view1, rgs1, pre1) = Some (view', rgs', pre')"
      using Cons.prems by (auto split: option.splits)
    have "sameButRG view view1"
      using 1(1) upd by (auto simp: joinPt_def Let_def split: option.splits)
    then show ?thesis using Cons.IH [OF 1(2)] sameButRG_trans by blast
  qed (use Cons in simp)
qed simp

lemma joinRpGroup_view:
  assumes "joinRpGroup db nn r s az f d = (d', None)"
  shows "sameButRG (DBPtView db d) (DBPtView db d') \<and> (\<forall>x. x \<noteq> db \<longrightarrow> map_of (PtView d') x = map_of (PtView d) x)"
proof -
  obtain v rgs pre join where j: "joinLoop join r s (ni_ID nn) [0..<length (DBPtView db d)] (DBPtView db d, DBRepGroups db d, None)
      = Some (v, rgs, pre)"
    "d' = (if DBPtView db d = [] then d else d\<lparr>PtView := AList.update db v (PtView d), ReplicaGroups := ReplicaGroups d'\<rparr>)"
    using assms by (auto simp: joinRpGroup_def Let_def split: option.splits if_splits)
  show ?thesis
  proof (cases "DBPtView db d = []")
    case False
    then have "PtView d' = AList.update db v (PtView d)" using j(2) by (metis Data.select_convs(10) Data.surjective Data.update_convs(10,11))
    then show ?thesis using joinLoop_sameButRG [OF j(1)] by (simp add: DBPtView_def)
  qed (use j(2) in simp)
qed

lemma chooseRG_view:
  assumes "chooseRG env db nn r d = (d', None)"
  shows "sameButRG (DBPtView db d) (DBPtView db d') \<and> (\<forall>x. x \<noteq> db \<longrightarrow> map_of (PtView d') x = map_of (PtView d) x)"
  using assms
  by (auto simp: chooseRG_def NodeHardChooseRG_def AzHardChooseRG_def
      split: RepDisPolicy.splits option.splits dest: joinRpGroup_view)

definition grown :: "nat \<Rightarrow> nat \<Rightarrow> PtInfo list \<Rightarrow> PtInfo list \<Rightarrow> bool" where
  "grown owner n v v' \<longleftrightarrow> sameButRG (extView v owner n n) v'"

lemma expandDBPtView_grown:
  assumes "expandDBPtView env db (ClusterPtNum d) nn d = (d', None)" "map_of (PtView d) db = Some v"
    "length v \<le> ClusterPtNum d" "ClusterPtNum d < 4294967296"
  shows "(\<exists>v'. map_of (PtView d') db = Some v' \<and> grown (ni_ID nn) (ClusterPtNum d) v v')
    \<and> (\<forall>x. x \<noteq> db \<longrightarrow> map_of (PtView d') x = map_of (PtView d) x)"
proof (cases "length v = ClusterPtNum d")
  case True
  then have "d' = d" using assms by (simp add: expandDBPtView_def DBPtView_def Let_def)
  then show ?thesis using assms(2) True by (simp add: grown_def extView_def)
next
  case False
  let ?n = "ClusterPtNum d"
  let ?d1 = "d\<lparr>PtView := AList.update db (extView v (ni_ID nn) ?n ?n) (PtView d)\<rparr>"
  have u: "u32 (length (DBPtView db d)) = length v" using assms by (simp add: DBPtView_def)
  have loop: "loopE (\<lambda>i. updatePtStatus env db i (ni_ID nn) Offline) [length v..<?n] d = (?d1, None)"
    using extend_loop [OF assms(2,4,3) order_refl, of env "ni_ID nn"] False by simp
  have "d' = ?d1 \<or> (\<exists>r. chooseRG env db nn r ?d1 = (d', None))"
    using assms(1,3) False unfolding expandDBPtView_def Let_def u
    by (auto simp: loop split: option.splits if_splits)
  then show ?thesis
  proof
    assume "d' = ?d1" then show ?thesis by (simp add: grown_def)
  next
    assume "\<exists>r. chooseRG env db nn r ?d1 = (d', None)"
    then have c: "sameButRG (extView v (ni_ID nn) ?n ?n) (DBPtView db d')"
      "\<forall>x. x \<noteq> db \<longrightarrow> map_of (PtView d') x = map_of (PtView d) x"
      using chooseRG_view by fastforce+
    have "extView v (ni_ID nn) ?n ?n \<noteq> []" using assms(3) False by (auto simp: extView_def)
    then have "DBPtView db d' \<noteq> []" using c(1) by (auto simp: sameButRG_def)
    then show ?thesis using c by (auto simp: grown_def DBPtView_def split: option.splits)
  qed
qed

lemma expand_all:
  assumes "loopE (\<lambda>db. expandDBPtView env db n nn) dbs d = (d', None)" "distinct dbs" "n = ClusterPtNum d" "n < 4294967296"
    "\<forall>db \<in> set dbs. \<exists>v. map_of (PtView d) db = Some v \<and> length v \<le> n"
  shows "\<forall>db. (case map_of (PtView d) db of
       None \<Rightarrow> map_of (PtView d') db = None
     | Some v \<Rightarrow> \<exists>v'. map_of (PtView d') db = Some v' \<and> (if db \<in> set dbs then grown (ni_ID nn) n v v' else v' = v))"
  using assms
proof (induction dbs arbitrary: d)
  case Nil
  then show ?case by (auto split: option.splits)
next
  case (Cons db dbs)
  obtain d1 where 1: "expandDBPtView env db n nn d = (d1, None)" "loopE (\<lambda>db. expandDBPtView env db n nn) dbs d1 = (d', None)"
    using Cons.prems(1) by (auto split: prod.splits option.splits)
  obtain v where v: "map_of (PtView d) db = Some v" "length v \<le> n" using Cons.prems(5) by auto
  have n1: "n = ClusterPtNum d1"
    using ptFrame_expandDBPtView [of d env db n nn] 1(1) Cons.prems(3) by (auto simp: ptFrame_def)
  have g: "\<exists>v'. map_of (PtView d1) db = Some v' \<and> grown (ni_ID nn) n v v'"
    "\<forall>x. x \<noteq> db \<longrightarrow> map_of (PtView d1) x = map_of (PtView d) x"
    using expandDBPtView_grown [of env db d nn d1 v] 1(1) v Cons.prems(3,4) by auto
  have ih: "\<forall>x. (case map_of (PtView d1) x of
       None \<Rightarrow> map_of (PtView d') x = None
     | Some v \<Rightarrow> \<exists>v'. map_of (PtView d') x = Some v' \<and> (if x \<in> set dbs then grown (ni_ID nn) n v v' else v' = v))"
  proof (rule Cons.IH [OF 1(2) _ n1 Cons.prems(4)])
    show "distinct dbs" using Cons.prems(2) by simp
    show "\<forall>x \<in> set dbs. \<exists>v. map_of (PtView d1) x = Some v \<and> length v \<le> n"
      using Cons.prems(2,5) g(2) by auto
  qed
  show ?case
  proof
    fix x
    show "case map_of (PtView d) x of None \<Rightarrow> map_of (PtView d') x = None
      | Some v \<Rightarrow> \<exists>v'. map_of (PtView d') x = Some v' \<and> (if x \<in> set (db # dbs) then grown (ni_ID nn) n v v' else v' = v)"
      using ih [rule_format, of x] g v Cons.prems(2) by (cases "x = db") (auto split: option.splits)
  qed
qed

lemma grown_nth:
  assumes "grown owner n v v'" "viewOk m v" "m \<le> n"
  shows "viewOk n v'" "\<forall>k < m. pt_Owner (v' ! k) = pt_Owner (v ! k)"
    "\<forall>k. m \<le> k \<and> k < n \<longrightarrow> pt_Owner (v' ! k) = owner"
proof -
  have m: "length v = m" "length (extView v owner n n) = n" using assms(2,3) by (auto simp: viewOk_def extView_def)
  have s: "sameButRG (extView v owner n n) v'" using assms(1) by (simp add: grown_def)
  note same = sameButRG_nth [OF s]
  have len: "length v' = n" using s m(2) unfolding sameButRG_def by (metis length_map)
  have e: "extView v owner n n ! k = (if k < m then v ! k else newPt owner k)" if "k < n" for k
    using that m(1) by (auto simp: extView_def nth_append)
  show "viewOk n v'"
    using assms(2) len same(1) e m(2) by (auto simp: viewOk_def newPt_def)
  show "\<forall>k < m. pt_Owner (v' ! k) = pt_Owner (v ! k)"
    using same(2) e m(2) assms(3) by auto
  show "\<forall>k. m \<le> k \<and> k < n \<longrightarrow> pt_Owner (v' ! k) = owner"
    using same(2) e m(2) by (auto simp: newPt_def)
qed

text \<open>C8: When a new writer node has been registered, the partition view of every database is complete
  again: partition \<open>k\<close> stands at position \<open>k\<close> up to the new number of partitions, the partitions there
  were keep their owners, and all new partitions belong to the new node.\<close>

theorem CreateDataNode_partitions:
  assumes "CreateDataNode env host tcpHost role az d = (d', Inr i)"
    and "tcpHost \<notin> ni_TCPHost ` set (DataNodes d)" "role \<noteq> ''reader''"
    and "mwf (PtView d)" "\<forall>(db, v) \<in> set (PtView d). viewOk (ClusterPtNum d) v" "ClusterPtNum d < 4294967296"
    and "map_of (PtView d) db = Some v"
  shows "\<exists>v'. map_of (PtView d') db = Some v' \<and> viewOk (ClusterPtNum d') v' \<and> ClusterPtNum d \<le> ClusterPtNum d'
    \<and> (\<forall>k < ClusterPtNum d. pt_Owner (v' ! k) = pt_Owner (v ! k))
    \<and> (\<forall>k. ClusterPtNum d \<le> k \<and> k < ClusterPtNum d' \<longrightarrow> pt_Owner (v' ! k) = i)"
proof -
  obtain j m where jm: "chooseID (MaxNodeID d) tcpHost (nodeKeys (MetaNodes d)) = (j, m)" by (metis surj_pair)
  let ?dn = "newNode j host tcpHost role az [] (u64 (MaxConnID d + 1))"
  let ?d1 = "d\<lparr>MaxConnID := u64 (MaxConnID d + 1), MaxNodeID := m, DataNodes := sort_key ni_ID (DataNodes d @ [?dn])\<rparr>"
  let ?d2 = "initDataNodePtView (ClusterPtNum ?d1) ?d1"
  have find: "find (\<lambda>n. ni_TCPHost n = tcpHost) (DataNodes d) = None" using assms(2) by (auto simp: find_None_iff)
  obtain d3 where l: "loopE (\<lambda>db. expandDBPtView env db (ClusterPtNum ?d2) ?dn) (map fst (PtView ?d2)) ?d2 = (d3, None)"
    and g: "groupFrame d3 d'" and ij: "i = j"
    using assms(1,3) jm find groupFrame_ExpandGroups
    by (auto simp: CreateDataNode_def Let_def nodeKeys_def split: if_splits option.splits sum.splits prod.splits)
  have v2: "PtView ?d2 = PtView d" "ClusterPtNum d \<le> ClusterPtNum ?d2" "ClusterPtNum ?d2 < 4294967296"
    using assms(6) by (auto simp: initDataNodePtView_def Let_def u32_less)
  have ok: "viewOk (ClusterPtNum d) w" if "map_of (PtView d) x = Some w" for x w
    using that assms(5) by (auto dest: map_of_SomeD)
  have lens: "\<forall>x \<in> set (map fst (PtView ?d2)). \<exists>w. map_of (PtView ?d2) x = Some w \<and> length w \<le> ClusterPtNum ?d2"
  proof
    fix x assume "x \<in> set (map fst (PtView ?d2))"
    then have "map_of (PtView d) x \<noteq> None" unfolding v2(1) by (simp add: map_of_eq_None_iff)
    then obtain w where "map_of (PtView d) x = Some w" by blast
    then show "\<exists>w. map_of (PtView ?d2) x = Some w \<and> length w \<le> ClusterPtNum ?d2"
      using ok v2(1,2) by (auto simp: viewOk_def)
  qed
  have "distinct (map fst (PtView ?d2))" using assms(4) v2(1) by (simp add: mwf_def)
  from expand_all [OF l this refl v2(3) lens] assms(7) v2(1)
  obtain v' where v': "map_of (PtView d3) db = Some v'" "db \<in> set (map fst (PtView d)) \<longrightarrow> grown (ni_ID ?dn) (ClusterPtNum ?d2) v v'"
    by (fastforce split: option.splits if_splits)
  have "db \<in> set (map fst (PtView d))" using assms(7) by (force dest: map_of_SomeD)
  then have gr: "grown j (ClusterPtNum ?d2) v v'" using v'(2) by (simp add: newNode_def)
  have "ptFrame ?d2 d3"
    using ptFrame_loopE [of "\<lambda>db. expandDBPtView env db (ClusterPtNum ?d2) ?dn", OF ptFrame_expandDBPtView,
        of ?d2 "map fst (PtView ?d2)"] l by simp
  then have "ClusterPtNum d3 = ClusterPtNum ?d2" by (auto simp: ptFrame_def)
  then have d': "PtView d' = PtView d3" "ClusterPtNum d' = ClusterPtNum ?d2" using g by (auto simp: groupFrame_def)
  show ?thesis
    using v'(1) grown_nth [OF gr ok [OF assms(7)] v2(2)] v2(2) ij unfolding d' by auto
qed


theorem CreateDataNode_partitions_witness:
  "\<exists>v'. map_of (PtView (fst (CreateDataNode exampleEnv ''h'' ''new'' [] [] (exampleData 2)))) ''db'' = Some v'
     \<and> pt_PtId (v' ! 0) = 0"
proof -
  let ?r = "CreateDataNode exampleEnv ''h'' ''new'' [] [] (exampleData 2)"
  have n: "ClusterPtNum (exampleData 2) = 2" "PtView (exampleData 2) = [(''db'', [newPt 1 0, newPt 2 1])]"
    "tcp \<notin> ni_TCPHost ` set (DataNodes (exampleData 2)) \<longleftrightarrow> tcp \<noteq> []" for tcp
    by (auto simp: exampleData_def exampleCluster_def upt_rec exampleNode_def)
  have "\<exists>i. snd ?r = Inr i"
    by (simp add: CreateDataNode_def exampleData_def exampleCluster_def exampleNode_def zeroData_def chooseID_def
        newNode_def initDataNodePtView_def expandDBPtView_def DBPtView_def Let_def)
  then obtain i where i: "?r = (fst ?r, Inr i)" by (metis prod.collapse)
  have "\<exists>v'. map_of (PtView (fst ?r)) ''db'' = Some v' \<and> viewOk (ClusterPtNum (fst ?r)) v'
      \<and> ClusterPtNum (exampleData 2) \<le> ClusterPtNum (fst ?r)
      \<and> (\<forall>k < ClusterPtNum (exampleData 2). pt_Owner (v' ! k) = pt_Owner ([newPt 1 0, newPt 2 1] ! k))
      \<and> (\<forall>k. ClusterPtNum (exampleData 2) \<le> k \<and> k < ClusterPtNum (fst ?r) \<longrightarrow> pt_Owner (v' ! k) = i)"
    by (rule CreateDataNode_partitions [OF i]) (auto simp: n mwf_def viewOk_def newPt_def less_2_cases_iff)
  then show ?thesis by (auto simp: n viewOk_def)
qed

end
