(* ===== verification/MetaPrune.thy ===== *)
theory MetaPrune
  imports MetaShards
begin

text \<open>
  What pruning removes and what expansion adds. Both identify a shard or an index by searching the
  groups whose first and last id enclose its id; the lemmas give the condition under which the search
  hits the right element, and show that it is lost when groups have been expanded.
\<close>

section \<open>Pruning\<close>

definition markExact :: "nat \<Rightarrow> ShardGroupInfo \<Rightarrow> ShardGroupInfo" where
  "markExact i g = g\<lparr>sg_Shards := map (\<lambda>s. if sh_ID s = i then s\<lparr>sh_MarkDelete := True\<rparr> else s) (sg_Shards g)\<rparr>"

definition prunable :: "ShardGroupInfo \<Rightarrow> bool" where
  "prunable g \<longleftrightarrow> sg_Deleted g \<and> sg_canDelete g"

text \<open>The shards of a group are in the order of their ids, and an id between its first and its last shard is
  the id of one of its shards. \<open>CreateShardGroup\<close> gives a group consecutive ids.\<close>

definition idsExact :: "nat \<Rightarrow> ShardGroupInfo \<Rightarrow> bool" where
  "idsExact i g \<longleftrightarrow> sg_Shards g \<noteq> [] \<and> sorted_wrt (<) (map sh_ID (sg_Shards g))
     \<and> (sh_ID (hd (sg_Shards g)) \<le> i \<and> i \<le> sh_ID (last (sg_Shards g)) \<longrightarrow> i \<in> sh_ID ` set (sg_Shards g))"

lemma sortSearch_id:
  assumes "sorted_wrt (<) (ids :: nat list)" "k < length ids"
  shows "sortSearch (length ids) (\<lambda>j. ids ! j \<ge> ids ! k) = k"
proof -
  let ?p = "sortSearch (length ids) (\<lambda>j. ids ! j \<ge> ids ! k)"
  have mono: "ids ! a < ids ! b" if "a < b" "b < length ids" for a b
    using that assms(1) by (simp add: sorted_wrt_nth_less)
  have up: "upclosed (length ids) (\<lambda>j. ids ! j \<ge> ids ! k)"
    unfolding upclosed_def
  proof (intro allI impI)
    fix a b assume "a \<le> b" "b < length ids" "ids ! k \<le> ids ! a"
    then show "ids ! k \<le> ids ! b" using mono [of a b] by (cases "a = b") auto
  qed
  have "\<not> k < ?p" using sortSearch_before [OF up, of k] by auto
  moreover have "\<not> ?p < k"
    using sortSearch_from [OF up, of ?p] mono [of ?p k] assms(2) by fastforce
  ultimately show ?thesis by simp
qed

lemma searchLoop_cong:
  "(\<And>k. k < n \<Longrightarrow> f k = g k) \<Longrightarrow> j \<le> n \<Longrightarrow> searchLoop f i j = searchLoop g i j"
proof (induction f i j rule: searchLoop.induct)
  case (1 f i j)
  define h where "h = (i + j) div 2"
  have h: "i < j \<Longrightarrow> h < n" using 1(4) by (simp add: h_def)
  have step: "searchLoop F i j =
      (if i < j then if \<not> F h then searchLoop F (h + 1) j else searchLoop F i h else i)" for F
    unfolding h_def by (subst searchLoop.simps) (simp add: Let_def)
  consider "\<not> i < j" | "i < j" "f h" | "i < j" "\<not> f h" by blast
  then show ?case
  proof cases
    case 2
    then have "searchLoop f i h = searchLoop g i h"
      using 1(2) [OF 2(1) h_def] 1(3,4) h by auto
    then show ?thesis using 2 h 1(3) [of h] by (simp only: step if_True if_False simp_thms)
  next
    case 3
    then have "searchLoop f (h + 1) j = searchLoop g (h + 1) j"
      using 1(1) [OF 3(1) h_def] 1(3,4) by auto
    then show ?thesis using 3 h 1(3) [of h] by (simp only: step if_True if_False simp_thms)
  qed (simp only: step if_False)
qed

lemma sortSearch_cong: "(\<And>k. k < n \<Longrightarrow> f k = g k) \<Longrightarrow> sortSearch n f = sortSearch n g"
  unfolding sortSearch_def by (rule searchLoop_cong [of n]) auto

lemma sorted_wrt_hd_last:
  assumes "sorted_wrt (<) (ids :: nat list)" "k < length ids"
  shows "hd ids \<le> ids ! k" "ids ! k \<le> last ids"
proof -
  have ne: "ids \<noteq> []" using assms(2) by auto
  have mono: "ids ! a \<le> ids ! b" if "a \<le> b" "b < length ids" for a b
    using that assms(1) sorted_wrt_nth_less [of "(<)" ids a b] by (cases "a = b") auto
  show "hd ids \<le> ids ! k" using mono [of 0 k] assms(2) ne by (simp add: hd_conv_nth)
  show "ids ! k \<le> last ids" using mono [of k "length ids - 1"] assms(2) ne by (simp add: last_conv_nth)
qed

lemma markShard_exact:
  assumes "idsExact i g"
  shows "markShard i g = markExact i g"
proof (cases "i \<in> sh_ID ` set (sg_Shards g)")
  case True
  let ?ids = "map sh_ID (sg_Shards g)"
  have srt: "sorted_wrt (<) ?ids" using assms by (simp add: idsExact_def)
  then have dist: "distinct ?ids" using strict_sorted_iff by blast
  obtain k where k: "k < length (sg_Shards g)" "i = ?ids ! k"
    using True by (auto simp: in_set_conv_nth image_iff)
  have mem: "sh_ID (hd (sg_Shards g)) \<le> i" "i \<le> sh_ID (last (sg_Shards g))"
    using k sorted_wrt_hd_last [OF srt, of k] assms by (auto simp: hd_map last_map idsExact_def)
  have "sortSearch (length ?ids) (\<lambda>j. ?ids ! j \<ge> ?ids ! k) = k"
    using srt k(1) by (intro sortSearch_id) auto
  moreover have "sortSearch (length ?ids) (\<lambda>j. ?ids ! j \<ge> ?ids ! k)
      = sortSearch (length (sg_Shards g)) (\<lambda>j. sh_ID (sg_Shards g ! j) \<ge> i)"
    unfolding length_map using k by (intro sortSearch_cong) auto
  ultimately have pos: "sortSearch (length (sg_Shards g)) (\<lambda>j. sh_ID (sg_Shards g ! j) \<ge> i) = k" by simp
  have "(sg_Shards g)[k := (sg_Shards g ! k)\<lparr>sh_MarkDelete := True\<rparr>]
      = map (\<lambda>s. if sh_ID s = i then s\<lparr>sh_MarkDelete := True\<rparr> else s) (sg_Shards g)"
    using k dist by (auto simp: list_eq_iff_nth_eq nth_list_update distinct_conv_nth)
  then show ?thesis using mem by (simp add: markShard_def markExact_def pos)
next
  case False
  then have "\<not> (sh_ID (hd (sg_Shards g)) \<le> i \<and> i \<le> sh_ID (last (sg_Shards g)))"
    using assms by (auto simp: idsExact_def)
  moreover have "map (\<lambda>s. if sh_ID s = i then s\<lparr>sh_MarkDelete := True\<rparr> else s) (sg_Shards g) = sg_Shards g"
    using False by (intro map_idI) auto
  ultimately show ?thesis by (auto simp: markShard_def markExact_def)
qed

lemma pruneShardLoop_filter:
  "pruneShardLoop i gs s = Inr (gs', s') \<Longrightarrow>
     gs' = filter (\<lambda>g. \<not> prunable g) (map (markShard i) gs)
   \<and> ps_Measurements s' = fold (\<lambda>g. mmap (forgetShardGroup (sg_ID g))) (filter prunable (map (markShard i) gs)) (ps_Measurements s)"
proof (induction gs arbitrary: s gs' s')
  case (Cons g gs)
  have p: "prunable g' \<longleftrightarrow> \<not> IsZero (sg_DeletedAt g') \<and> sg_canDelete g'" for g'
    by (simp add: prunable_def sg_Deleted_def)
  have ne: "sg_Shards g \<noteq> []" using Cons.prems by (auto split: if_splits)
  show ?case
  proof (cases "prunable (markShard i g)")
    case True
    let ?s1 = "\<lparr>ps_Measurements = mmap (forgetShardGroup (sg_ID (markShard i g))) (ps_Measurements s),
        ps_endTime = (if UnixNano (sg_EndTime (markShard i g)) > ps_endTime s
                      then UnixNano (sg_EndTime (markShard i g)) else ps_endTime s), ps_deleteSg = True\<rparr>"
    have "pruneShardLoop i gs ?s1 = Inr (gs', s')"
      using Cons.prems ne True by (simp add: Let_def p)
    from Cons.IH [OF this] True show ?thesis by simp
  next
    case False
    then obtain gs1 where "pruneShardLoop i gs s = Inr (gs1, s')" "gs' = markShard i g # gs1"
      using Cons.prems ne by (auto simp: Let_def p split: sum.splits)
    then show ?thesis using Cons.IH False by auto
  qed
qed simp

lemma pruneShardLoop_ok:
  "\<forall>g \<in> set gs. sg_Shards g \<noteq> [] \<Longrightarrow> \<exists>r. pruneShardLoop i gs s = Inr r"
proof (induction gs arbitrary: s)
  case (Cons g gs)
  then have ih: "\<exists>r. pruneShardLoop i gs s' = Inr r" for s' by simp
  obtain a b where "pruneShardLoop i gs s = Inr (a, b)" using ih [of s] by auto
  then show ?case using Cons.prems ih by (auto simp: Let_def)
qed auto


text \<open>C10: Telling the meta service that shard \<open>i\<close> is gone marks that shard and no other, and removes
  exactly the shard groups that are marked as deleted and all of whose shards are gone; the other groups
  keep their order, and nothing fails.\<close>

theorem pruneShardRP_exact:
  assumes "\<forall>g \<in> set (rp_ShardGroups rp). idsExact i g"
  shows "\<exists>rp'. pruneShardRP env i rp = Inr rp'
    \<and> rp_ShardGroups rp' = filter (\<lambda>g. \<not> (sg_Deleted g \<and> sg_canDelete g)) (map (markExact i) (rp_ShardGroups rp))"
proof -
  let ?s = "\<lparr>ps_Measurements = rp_Measurements rp, ps_endTime = 0, ps_deleteSg = False\<rparr>"
  have ne: "\<forall>g \<in> set (rp_ShardGroups rp). sg_Shards g \<noteq> []" using assms by (auto simp: idsExact_def)
  then obtain gs s where 1: "pruneShardLoop i (rp_ShardGroups rp) ?s = Inr (gs, s)"
    using pruneShardLoop_ok [OF ne, of i ?s] by auto
  have "map (markShard i) (rp_ShardGroups rp) = map (markExact i) (rp_ShardGroups rp)"
    using assms markShard_exact by simp
  then have gs: "gs = filter (\<lambda>g. \<not> (sg_Deleted g \<and> sg_canDelete g)) (map (markExact i) (rp_ShardGroups rp))"
    using pruneShardLoop_filter [OF 1] unfolding prunable_def by (simp only: simp_thms)
  show ?thesis
    by (simp add: pruneShardRP_def 1 Let_def SchemaClean_def gs)
qed

theorem pruneShardRP_exact_witness:
  "\<exists>rp'. pruneShardRP exampleEnv 2 (exampleRP\<lparr>rp_ShardGroups := [exampleSG 1 [1, 2]]\<rparr>) = Inr rp'
    \<and> length (rp_ShardGroups rp') = 1"
  using pruneShardRP_exact [of "exampleRP\<lparr>rp_ShardGroups := [exampleSG 1 [1, 2]]\<rparr>" 2 exampleEnv]
  by (auto simp: idsExact_def exampleSG_def newShard_def markExact_def sg_Deleted_def IsZero_def)

section \<open>Expansion\<close>

definition expandedGroup :: "nat \<Rightarrow> ShardGroupInfo \<Rightarrow> ShardGroupInfo \<Rightarrow> bool" where
  "expandedGroup ptNum sg sg' \<longleftrightarrow>
     sg' = sg\<lparr>sg_Shards := sg_Shards sg'\<rparr> \<and> length (sg_Shards sg') = max ptNum (length (sg_Shards sg))
   \<and> take (length (sg_Shards sg)) (sg_Shards sg') = sg_Shards sg
   \<and> (\<forall>j. length (sg_Shards sg) \<le> j \<and> j < ptNum \<longrightarrow> sh_Owners (sg_Shards sg' ! j) = [j])"

lemma loopE_snoc_expand:
  assumes "loopE (expandShard env ptNum) [n..<ptNum] (sg, rp, data) = ((sg', rp', data'), None)"
    "length (sg_Shards sg) = n" "n \<le> ptNum"
  shows "expandedGroup ptNum sg sg'"
  using assms
proof (induction "ptNum - n" arbitrary: n sg rp data)
  case 0
  then show ?case by (auto simp: expandedGroup_def)
next
  case (Suc m)
  then have n: "n < ptNum" by simp
  then have upt: "[n..<ptNum] = n # [Suc n..<ptNum]" by (rule upt_conv_Cons)
  obtain sg1 rp1 d1 where 1: "expandShard env ptNum n (sg, rp, data) = ((sg1, rp1, d1), None)"
    "loopE (expandShard env ptNum) [Suc n..<ptNum] (sg1, rp1, d1) = ((sg', rp', data'), None)"
    using Suc.prems(1) by (auto simp: upt split: prod.splits option.splits)
  obtain sh where sh: "sg1 = sg\<lparr>sg_Shards := sg_Shards sg @ [sh]\<rparr>" "sh_Owners sh = [n]"
    using 1(1) by (auto simp: expandShard_def newShard_def split: prod.splits if_splits)
  have ih: "expandedGroup ptNum sg1 sg'"
    using Suc 1(2) sh n by (intro Suc.hyps(1) [of "Suc n"]) auto
  have "sg' = sg\<lparr>sg_Shards := sg_Shards sg'\<rparr>" using ih sh by (auto simp: expandedGroup_def)
  moreover have len: "length (sg_Shards sg') = ptNum" using ih sh n Suc.prems by (auto simp: expandedGroup_def)
  moreover have tk: "take (Suc n) (sg_Shards sg') = sg_Shards sg @ [sh]"
    using ih sh Suc.prems by (auto simp: expandedGroup_def)
  moreover have "take n (sg_Shards sg') = sg_Shards sg"
    using arg_cong [OF tk, of "take n"] Suc.prems by simp
  moreover have "sg_Shards sg' ! n = sh"
    using arg_cong [OF tk, of "\<lambda>xs. xs ! n"] Suc.prems by (simp add: nth_append)
  moreover have "\<forall>j. Suc n \<le> j \<and> j < ptNum \<longrightarrow> sh_Owners (sg_Shards sg' ! j) = [j]"
    using ih sh Suc.prems by (auto simp: expandedGroup_def)
  moreover have "sh_Owners (sg_Shards sg' ! j) = [j]" if "n \<le> j" "j < ptNum" for j
    using that calculation(5,6) sh(2) by (cases "j = n") auto
  ultimately show ?case
    using n Suc.prems(2) unfolding expandedGroup_def by auto
qed


lemma walkE_list_all2:
  assumes "walkE f xs s = Inr (ys, s')" "\<And>x s y s'. f x s = Inr (y, s') \<Longrightarrow> R x y"
  shows "list_all2 R xs ys"
  using assms(1)
proof (induction xs arbitrary: s ys)
  case (Cons x xs)
  then obtain y s1 ys1 where "f x s = Inr (y, s1)" "walkE f xs s1 = Inr (ys1, s')" "ys = y # ys1"
    by (auto split: sum.splits)
  then show ?case using Cons.IH assms(2) by simp
qed simp

lemma expandShards_expanded:
  assumes "expandShards env ptNum sg s = Inr (sg', s')"
  shows "expandedGroup ptNum sg sg'"
proof (cases "length (sg_Shards sg) \<le> ptNum")
  case True
  obtain rp data rp' data' where "s = (rp, data)" "s' = (rp', data')" by (metis surj_pair)
  then show ?thesis
    using assms True
    by (auto simp: expandShards_def split: prod.splits option.splits intro: loopE_snoc_expand)
next
  case False
  then show ?thesis using assms by (auto simp: expandShards_def expandedGroup_def)
qed

definition expandedRP :: "nat \<Rightarrow> RetentionPolicyInfo \<Rightarrow> RetentionPolicyInfo \<Rightarrow> bool" where
  "expandedRP ptNum rp rp' \<longleftrightarrow>
     (if shardingType rp = RANGE then rp' = rp
      else list_all2 (expandedGroup ptNum) (rp_ShardGroups rp) (rp_ShardGroups rp')) \<and> rp_MarkDeleted rp' = rp_MarkDeleted rp"

lemma walkE_inv:
  assumes "walkE f xs s = Inr (ys, s')" "P s" "\<And>x s y s'. f x s = Inr (y, s') \<Longrightarrow> P s \<Longrightarrow> P s'"
  shows "P s'"
  using assms(1,2)
proof (induction xs arbitrary: s ys)
  case (Cons x xs)
  then obtain y s1 ys1 where "f x s = Inr (y, s1)" "walkE f xs s1 = Inr (ys1, s')"
    by (auto split: sum.splits)
  then show ?case using Cons assms(3) by blast
qed simp

lemma expandShards_MarkDeleted:
  assumes "expandShards env ptNum sg s = Inr (sg', s')"
  shows "rp_MarkDeleted (fst s') = rp_MarkDeleted (fst s)"
proof -
  have step: "rp_MarkDeleted (fst (snd (fst (expandShard env ptNum i t)))) = rp_MarkDeleted (fst (snd t))" for i and t
    by (cases t) (auto simp: expandShard_def split: prod.splits dest: createIndexGroupIfNeeded_keeps(3))
  have "rp_MarkDeleted (fst (snd (fst (loopE (expandShard env ptNum) is t)))) = rp_MarkDeleted (fst (snd t))" for "is" t
    by (rule loopE_inv [where P = "\<lambda>u. rp_MarkDeleted (fst (snd u)) = rp_MarkDeleted (fst (snd t))"]) (auto simp: step)
  from this [of "[length (sg_Shards sg)..<ptNum]" "(sg, s)"] show ?thesis
    using assms by (auto simp: expandShards_def split: prod.splits option.splits)
qed

lemma expandRP_expanded:
  assumes "expandRP env ptNum rp data = Inr (rp', data')"
  shows "expandedRP ptNum rp rp'"
proof (cases "shardingType rp = RANGE")
  case True
  then show ?thesis using assms by (simp add: expandRP_def expandedRP_def)
next
  case False
  obtain igs d1 sgs rp2 where "walkE (expandShards env ptNum) (rp_ShardGroups rp) (rp\<lparr>rp_IndexGroups := igs\<rparr>, d1)
      = Inr (sgs, rp2, data')" "rp' = rp2\<lparr>rp_ShardGroups := sgs\<rparr>"
    using assms False by (auto simp: expandRP_def split: sum.splits)
  moreover from this(1) have "rp_MarkDeleted (fst (rp2, data')) = rp_MarkDeleted rp"
    by (rule walkE_inv [where P = "\<lambda>s. rp_MarkDeleted (fst s) = rp_MarkDeleted rp"])
      (auto dest: expandShards_MarkDeleted)
  ultimately show ?thesis
    using False by (auto simp: expandedRP_def intro: walkE_list_all2 expandShards_expanded)
qed

definition mapRel :: "('v \<Rightarrow> 'w \<Rightarrow> bool) \<Rightarrow> (string, 'v) gomap \<Rightarrow> (string, 'w) gomap \<Rightarrow> bool" where
  "mapRel R m m' \<longleftrightarrow> (\<forall>k v. map_of m k = Some v \<longrightarrow> (\<exists>v'. map_of m' k = Some v' \<and> R v v'))"

lemma list_all2_mapRel:
  "list_all2 (\<lambda>(k, v) (k', v'). k = k' \<and> R v v') m m' \<Longrightarrow> mapRel R m m'"
  by (induction rule: list_all2_induct) (auto simp: mapRel_def)

lemma walkMap_mapRel:
  assumes "walkMap f m s = Inr (m', s')" "mwf m" "\<And>v s v' s'. f v s = Inr (v', s') \<Longrightarrow> R v v'"
  shows "mapRel R m m'"
proof -
  have "list_all2 (\<lambda>(k, v) (k', v'). k = k' \<and> R v v') (sort_key fst m) m'"
    using assms(1) unfolding walkMap_def
    by (rule walkE_list_all2) (auto split: sum.splits prod.splits dest: assms(3))
  then show ?thesis using list_all2_mapRel assms(2) by (fastforce simp: mapRel_def map_of_sort_key)
qed

text \<open>C11: When \<open>ExpandGroups\<close> succeeds after partitions have been added, every shard group of a
  hash-sharded policy has at least one shard per partition: the shards it had are kept at their
  positions and each new shard \<open>j\<close> belongs to partition \<open>j\<close>. Range-sharded policies do not change.\<close>

theorem ExpandGroups_complete:
  assumes "ExpandGroups env data = Inr data'" "mwf (Databases data)"
    and "\<forall>(k, db) \<in> set (Databases data). mwf (db_RetentionPolicies db)"
    and "data_RetentionPolicy database policy data = Inr rp"
  shows "\<exists>rp'. data_RetentionPolicy database policy data' = Inr rp'
    \<and> (if shardingType rp = RANGE then rp' = rp
       else list_all2 (expandedGroup (ClusterPtNum data)) (rp_ShardGroups rp) (rp_ShardGroups rp'))"
  using assms(4)
proof (rule data_RetentionPolicyD)
  fix di
  assume di: "map_of (Databases data) database = Some di" "\<not> db_MarkDeleted di"
    "map_of (db_RetentionPolicies di) (rpKey di policy) = Some rp" "\<not> rp_MarkDeleted rp"
    "policy = [] \<longrightarrow> db_DefaultRetentionPolicy di \<noteq> []"
  let ?n = "ClusterPtNum data"
  let ?R = "\<lambda>db db'. mwf (db_RetentionPolicies db) \<longrightarrow>
      mapRel (expandedRP ?n) (db_RetentionPolicies db) (db_RetentionPolicies db')
    \<and> db_MarkDeleted db' = db_MarkDeleted db \<and> db_DefaultRetentionPolicy db' = db_DefaultRetentionPolicy db"
  obtain dbs d1 where 1: "walkMap (expandDB env ?n) (Databases data) data = Inr (dbs, d1)" "Databases data' = dbs"
    using assms(1) by (auto simp: ExpandGroups_def split: sum.splits)
  have "mapRel ?R (Databases data) dbs"
    using 1(1) assms(2)
  proof (rule walkMap_mapRel)
    fix db s db' s'
    assume "expandDB env ?n db s = Inr (db', s')"
    then show "?R db db'"
      by (auto simp: expandDB_def split: sum.splits intro: walkMap_mapRel expandRP_expanded)
  qed
  moreover have "mwf (db_RetentionPolicies di)" using assms(3) di(1) map_of_SomeD by fastforce
  ultimately obtain di' where di': "map_of dbs database = Some di'"
    "mapRel (expandedRP ?n) (db_RetentionPolicies di) (db_RetentionPolicies di')"
    "db_MarkDeleted di' = db_MarkDeleted di" "db_DefaultRetentionPolicy di' = db_DefaultRetentionPolicy di"
    using di(1) unfolding mapRel_def by blast
  then obtain rp' where "map_of (db_RetentionPolicies di') (rpKey di policy) = Some rp'" "expandedRP ?n rp rp'"
    using di(3) unfolding mapRel_def by blast
  moreover have "rpKey di' policy = rpKey di policy" using di' by (simp add: rpKey_def)
  ultimately show ?thesis
    using di di' 1(2)
    by (intro exI [of _ rp'] conjI data_RetentionPolicyI [of _ _ di']) (auto simp: expandedRP_def)
qed


text \<open>A policy with two weeks of data on two partitions, when a third partition is added.\<close>

definition twoWeeks :: RetentionPolicyInfo where
  "twoWeeks = exampleRP\<lparr>
     rp_ShardGroups := [(exampleSG 1 [1, 2])\<lparr>sg_EndTime := 604800000000000\<rparr>,
       (exampleSG 2 [3, 4])\<lparr>sg_StartTime := 604800000000000, sg_EndTime := 1209600000000000\<rparr>],
     rp_IndexGroups := [exampleIG\<lparr>ig_EndTime := 604800000000000, ig_Indexes := newIndexes 0 2\<rparr>,
       exampleIG\<lparr>ig_ID := 2, ig_StartTime := 604800000000000, ig_EndTime := 1209600000000000, ig_Indexes := newIndexes 2 2\<rparr>]\<rparr>"

definition twoWeeksData :: "string Data" where
  "twoWeeksData = (exampleData 3)\<lparr>MaxShardGroupID := 2, MaxShardID := 4, MaxIndexGroupID := 2, MaxIndexID := 4,
     Databases := [(''db'', (NewDatabase ''db'')\<lparr>db_DefaultRetentionPolicy := ''autogen'',
        db_RetentionPolicies := [(''autogen'', twoWeeks)]\<rparr>)]\<rparr>"

lemma shardingType_twoWeeks: "shardingType twoWeeks = HASH"
  by (simp add: shardingType_def twoWeeks_def)

text \<open>The example after the expansion, as the code computes it.\<close>

definition twoWeeksExpanded :: RetentionPolicyInfo where
  "twoWeeksExpanded = fst (projr (expandRP exampleEnv 3 twoWeeks twoWeeksData))"

lemmas example_defs = twoWeeks_def exampleSG_def exampleIG_def newIndexes_def newShard_def twoWeeksData_def

lemma expandRP_twoWeeks: "\<exists>data. expandRP exampleEnv 3 twoWeeks twoWeeksData = Inr (twoWeeksExpanded, data)"
  unfolding twoWeeksExpanded_def expandRP_def
  by (simp add: shardingType_twoWeeks)
    (simp add: example_defs expandIndexes_def expandShards_def expandShard_def createIndexGroupIfNeeded_def
      ig_Contains_def Let_def upt_rec)

lemma twoWeeksExpanded_groups:
  "rp_ShardGroups twoWeeksExpanded = [
     (exampleSG 1 [])\<lparr>sg_EndTime := 604800000000000,
        sg_Shards := [newShard 1 Hot [0] 1 [] [], newShard 2 Hot [0] 1 [] [], newShard 5 Hot [2] 5 [] []]\<rparr>,
     (exampleSG 2 [])\<lparr>sg_StartTime := 604800000000000, sg_EndTime := 1209600000000000,
        sg_Shards := [newShard 3 Hot [0] 1 [] [], newShard 4 Hot [0] 1 [] [], newShard 6 Hot [2] 6 [] []]\<rparr>]"
  "map (\<lambda>g. (ig_ID g, ig_StartTime g, ig_EndTime g, map ii_ID (ig_Indexes g))) (rp_IndexGroups twoWeeksExpanded)
     = [(1, 0, 604800000000000, [1, 2, 5]), (2, 604800000000000, 1209600000000000, [3, 4, 6])]"
  unfolding twoWeeksExpanded_def expandRP_def
  by (simp_all add: shardingType_twoWeeks)
    (simp_all add: example_defs expandIndexes_def expandShards_def expandShard_def createIndexGroupIfNeeded_def
      ig_Contains_def Let_def upt_rec)


theorem ExpandGroups_complete_witness:
  "\<exists>data rp. ExpandGroups exampleEnv twoWeeksData = Inr data
     \<and> data_RetentionPolicy ''db'' ''autogen'' data = Inr rp
     \<and> list_all2 (expandedGroup 3) (rp_ShardGroups twoWeeks) (rp_ShardGroups rp)"
proof -
  have n: "ClusterPtNum twoWeeksData = 3"
    by (simp add: twoWeeksData_def exampleData_def exampleCluster_def)
  have rp: "data_RetentionPolicy ''db'' ''autogen'' twoWeeksData = Inr twoWeeks"
    by (simp add: data_RetentionPolicy_def data_GetDatabase_def data_Database_def NewDatabase_def twoWeeksData_def
        db_GetRetentionPolicy_def db_RetentionPolicy_def rpKey_def) (simp add: twoWeeks_def)
  obtain d where "expandRP exampleEnv 3 twoWeeks twoWeeksData = Inr (twoWeeksExpanded, d)"
    using expandRP_twoWeeks by blast
  then have "\<exists>data. ExpandGroups exampleEnv twoWeeksData = Inr data"
    unfolding ExpandGroups_def n
    by (simp add: walkMap_def expandDB_def split: sum.splits)
      (auto simp: twoWeeksData_def expandDB_def walkMap_def split: sum.splits)
  then obtain data where "ExpandGroups exampleEnv twoWeeksData = Inr data" by blast
  moreover have "mwf (Databases twoWeeksData)" "\<forall>(k, db) \<in> set (Databases twoWeeksData). mwf (db_RetentionPolicies db)"
    by (simp_all add: mwf_def twoWeeksData_def NewDatabase_def)
  ultimately show ?thesis
    using ExpandGroups_complete [of exampleEnv twoWeeksData data "''db''" "''autogen''" twoWeeks] rp
    by (auto simp: n shardingType_twoWeeks)
qed

end
