(* ===== verification/MetaDDL.thy ===== *)
theory MetaDDL
  imports MetaShards
begin

text \<open>
  The statements that change the catalogue (\<open>data.go\<close>, \<open>continuous_query.go\<close>, \<open>stream.go\<close>,
  \<open>userinfo.go\<close>, \<open>migrate_event_info.go\<close>): databases, retention policies, subscriptions, continuous
  queries, streams, users and the events that move a partition. The lemmas show which statements are
  refused while a stream or a migration uses their object, that a policy accepted by the checks can be
  looked up with consistent durations, that there is at most one administrator and that the id ranges
  of SQL nodes are disjoint.
\<close>

section \<open>Streams and migration events\<close>

text \<open>\<open>fmt.Sprintf("%d", n)\<close>.\<close>

fun showNat :: "nat \<Rightarrow> string" where
  "showNat n = (if n < 10 then [char_of (48 + n)] else showNat (n div 10) @ [char_of (48 + n mod 10)])"

declare showNat.simps [simp del]

definition dbPtEventId :: "string \<Rightarrow> nat \<Rightarrow> string" where
  "dbPtEventId db ptId = db @ ''$'' @ showNat ptId"

definition usesDatabase :: "string \<Rightarrow> StreamInfo \<Rightarrow> bool" where
  "usesDatabase database v \<longleftrightarrow> smi_Database (st_SrcMst v) = database \<or> smi_Database (st_DesMst v) = database"

definition usesRetention :: "string \<Rightarrow> string \<Rightarrow> StreamInfo \<Rightarrow> bool" where
  "usesRetention database rp v \<longleftrightarrow>
     (smi_Database (st_SrcMst v) = database \<and> smi_RetentionPolicy (st_SrcMst v) = rp)
   \<or> (smi_Database (st_DesMst v) = database \<and> smi_RetentionPolicy (st_DesMst v) = rp)"

definition usesMst :: "string \<Rightarrow> string \<Rightarrow> string \<Rightarrow> StreamInfo \<Rightarrow> bool" where
  "usesMst database rp mst v \<longleftrightarrow>
     (smi_Database (st_SrcMst v) = database \<and> smi_Name (st_SrcMst v) = mst \<and> smi_RetentionPolicy (st_SrcMst v) = rp)
   \<or> (smi_Database (st_DesMst v) = database \<and> smi_Name (st_DesMst v) = mst \<and> smi_RetentionPolicy (st_DesMst v) = rp)"

definition checkStreams :: "(StreamInfo \<Rightarrow> bool) \<Rightarrow> 'c Data \<Rightarrow> err option" where
  "checkStreams uses data =
     (if \<exists>(_, v) \<in> set (Streams data). uses v then Some (Err ''dropStreamFirstError'') else None)"

definition CheckStreamExistInDatabase :: "string \<Rightarrow> 'c Data \<Rightarrow> err option" where
  "CheckStreamExistInDatabase database = checkStreams (usesDatabase database)"

definition CheckStreamExistInRetention :: "string \<Rightarrow> string \<Rightarrow> 'c Data \<Rightarrow> err option" where
  "CheckStreamExistInRetention database rp = checkStreams (usesRetention database rp)"

definition CheckStreamExistInMst :: "string \<Rightarrow> string \<Rightarrow> string \<Rightarrow> 'c Data \<Rightarrow> err option" where
  "CheckStreamExistInMst database rp mst = checkStreams (usesMst database rp mst)"

definition StreamEqual :: "StreamInfo \<Rightarrow> StreamInfo \<Rightarrow> bool" where
  "StreamEqual s d \<longleftrightarrow> st_Name s = st_Name d \<and> st_Interval s = st_Interval d \<and> st_Delay s = st_Delay d
     \<and> length (st_Calls s) = length (st_Calls d) \<and> length (st_Dims s) = length (st_Dims d)
     \<and> st_SrcMst s = st_SrcMst d \<and> st_DesMst s = st_DesMst d \<and> st_Dims s = st_Dims d"

definition SetStream :: "StreamInfo \<Rightarrow> 'c Data \<Rightarrow> 'c Data \<times> err option" where
  "SetStream info data =
     (if (case map_of (Streams data) (st_Name info) of None \<Rightarrow> False | Some v \<Rightarrow> \<not> StreamEqual v info)
      then (data, Some (Errno ''StreamHasExist''))
      else (data\<lparr>MaxStreamID := u64 (MaxStreamID data + 1),
                 Streams := AList.update (st_Name info) (info\<lparr>st_ID := MaxStreamID data\<rparr>) (Streams data)\<rparr>, None))"

definition CreateStream :: "StreamInfo option \<Rightarrow> 'c Data \<Rightarrow> 'c Data \<times> err option" where
  "CreateStream info data = (case info of None \<Rightarrow> (data, None) | Some i \<Rightarrow> SetStream i data)"

definition DropStream :: "string \<Rightarrow> 'c Data \<Rightarrow> 'c Data \<times> err option" where
  "DropStream name data =
     (if map_of (Streams data) name = None then (data, Some (Errno ''StreamNotFound''))
      else (data\<lparr>Streams := AList.delete name (Streams data)\<rparr>, None))"

definition checkMigrateConflict :: "string \<Rightarrow> 'c Data \<Rightarrow> err option" where
  "checkMigrateConflict database data =
     (if \<exists>i < length (DBPtView database data). map_of (MigrateEvents data) (dbPtEventId database i) \<noteq> None
      then Some (Errno ''ConflictWithEvent'') else None)"

definition CheckCanMoveDb :: "string \<Rightarrow> 'c Data \<Rightarrow> err option" where
  "CheckCanMoveDb db data =
     (case data_Database db data of
        None \<Rightarrow> Some (Errno ''DatabaseNotFound'')
      | Some di \<Rightarrow>
          if db_MarkDeleted di then Some (Errno ''DatabaseNotFound'')
          else if \<exists>(_, rp) \<in> set (db_RetentionPolicies di). rp_MarkDeleted rp then Some (Errno ''RpNotFound'')
          else if \<exists>i < ClusterPtNum data. map_of (MigrateEvents data) (dbPtEventId db i) \<noteq> None
            then Some (Errno ''ConflictWithEvent'')
          else None)"

text \<open>
  \<open>checkDDLConflict\<close> ranges over the policies and their measurements and returns the first mark it
  meets; which of the two errors it is when both occur depends on the order of the maps.
\<close>

fun ddlMarks :: "(string, RetentionPolicyInfo) gomap \<Rightarrow> err option" where
  "ddlMarks [] = None"
| "ddlMarks ((_, rpi) # rps) =
     (if rp_MarkDeleted rpi then Some (Errno ''RpIsBeingDelete'')
      else if \<exists>(_, m) \<in> set (rp_Measurements rpi). ms_MarkDeleted m then Some (Errno ''MstIsBeingDelete'')
      else ddlMarks rps)"

definition checkDDLConflict :: "bool \<Rightarrow> string \<Rightarrow> 'c Data \<Rightarrow> err option" where
  "checkDDLConflict checkConflict db data =
     (if \<not> checkConflict then None
      else case map_of (Databases data) db of
        None \<Rightarrow> Some (Errno ''DatabaseNotFound'')
      | Some dbi \<Rightarrow>
          if db_MarkDeleted dbi then Some (Errno ''DatabaseIsBeingDelete'') else ddlMarks (db_RetentionPolicies dbi))"

text \<open>\<open>MigrateEventInfo.unmarshal\<close>: the message is the event as sent; both states are read from its current state.\<close>

definition mei_unmarshal :: "MigrateEventInfo \<Rightarrow> MigrateEventInfo" where
  "mei_unmarshal e = e\<lparr>me_preState := me_currState e\<rparr>"

definition CreateMigrateEvent :: "bool \<Rightarrow> MigrateEventInfo \<Rightarrow> 'c Data \<Rightarrow> 'c Data \<times> err option" where
  "CreateMigrateEvent checkConflict e data =
     (case map_of (MigrateEvents data) (me_eventId e) of
        Some old \<Rightarrow>
          if me_src old \<noteq> me_src e \<or> me_dest old \<noteq> me_dest e \<or> me_currState old \<noteq> me_currState e \<or> me_preState old \<noteq> me_preState e
          then (data, Some (Errno ''PtEventIsAlreadyExist'')) else (data, None)
      | None \<Rightarrow>
          (case checkDDLConflict checkConflict (dp_Db (me_pt e)) data of
             Some err \<Rightarrow> (data, Some err)
           | None \<Rightarrow>
               (data\<lparr>MaxEventOpId := u64 (MaxEventOpId data + 1),
                     MigrateEvents := AList.update (me_eventId e)
                       ((mei_unmarshal e)\<lparr>me_opId := u64 (MaxEventOpId data + 1)\<rparr>) (MigrateEvents data)\<rparr>, None)))"

definition UpdateMigrateEvent :: "MigrateEventInfo \<Rightarrow> 'c Data \<Rightarrow> 'c Data \<times> err option" where
  "UpdateMigrateEvent e data =
     (case map_of (MigrateEvents data) (me_eventId e) of
        None \<Rightarrow> (data, Some (Errno ''EventNotFound''))
      | Some old \<Rightarrow>
          if me_opId old \<noteq> me_opId e then (data, Some (Errno ''EventNotFound''))
          else (data\<lparr>MigrateEvents := mmodify (me_eventId e)
                  (\<lambda>i. i\<lparr>me_currState := me_currState e, me_preState := me_preState e\<rparr>) (MigrateEvents data)\<rparr>, None))"

definition RemoveEventInfo :: "string \<Rightarrow> 'c Data \<Rightarrow> 'c Data \<times> err option" where
  "RemoveEventInfo eventId data = (data\<lparr>MigrateEvents := AList.delete eventId (MigrateEvents data)\<rparr>, None)"

section \<open>Databases\<close>

definition CheckCanCreateDatabase :: "string \<Rightarrow> 'c Data \<Rightarrow> err option" where
  "CheckCanCreateDatabase name data =
     (if name = [] then Some (Err ''ErrDatabaseNameRequired'')
      else case checkStoreReady data of
        Some e \<Rightarrow> Some e
      | None \<Rightarrow>
          (case data_Database name data of
             None \<Rightarrow> None
           | Some di \<Rightarrow> if db_MarkDeleted di then Some (Errorf ''DB is being deleted'') else Some (Err ''ErrDatabaseExists'')))"

text \<open>\<open>CheckSpecValid\<close> also normalises the durations of the policy, so the check returns it.\<close>

definition CheckCanCreateRetentionPolicy ::
  "DatabaseInfo \<Rightarrow> RetentionPolicyInfo option \<Rightarrow> bool \<Rightarrow> RetentionPolicyInfo option \<times> err option" where
  "CheckCanCreateRetentionPolicy dbi rpo makeDefault =
     (case rpo of
        None \<Rightarrow> (None, Some (Err ''ErrRetentionPolicyRequired''))
      | Some rpi0 \<Rightarrow>
          if rp_Name rpi0 = [] then (rpo, Some (Err ''ErrRetentionPolicyNameRequired''))
          else case CheckSpecValid rpi0 of
            (rpi, Some e) \<Rightarrow> (Some rpi, Some e)
          | (rpi, None) \<Rightarrow>
              (Some rpi,
               case db_RetentionPolicy dbi (rp_Name rpi) of
                 None \<Rightarrow> if db_ReplicaN dbi \<noteq> 0 \<and> rp_ReplicaN rpi \<noteq> db_ReplicaN dbi
                         then Some (Err ''ErrReplicaNConflict'') else None
               | Some existRp \<Rightarrow>
                   if \<not> EqualsAnotherRp existRp rpi then Some (Err ''ErrRetentionPolicyConflict'')
                   else if makeDefault \<and> db_DefaultRetentionPolicy dbi \<noteq> rp_Name rpi
                     then Some (Err ''ErrRetentionPolicyConflict'')
                   else Some (Err ''ErrRetentionPolicyExists'')))"

definition SetRetentionPolicy :: "RetentionPolicyInfo \<Rightarrow> bool \<Rightarrow> DatabaseInfo \<Rightarrow> DatabaseInfo" where
  "SetRetentionPolicy rpi makeDefault dbi =
     dbi\<lparr>db_RetentionPolicies := AList.update (rp_Name rpi) rpi (db_RetentionPolicies dbi),
         db_DefaultRetentionPolicy := (if makeDefault then rp_Name rpi else db_DefaultRetentionPolicy dbi)\<rparr>"

definition SetDatabase :: "DatabaseInfo \<Rightarrow> 'c Data \<Rightarrow> 'c Data \<times> err option" where
  "SetDatabase dbi data = (data\<lparr>Databases := AList.update (db_Name dbi) dbi (Databases data)\<rparr>, None)"

definition CreateDatabase ::
  "string \<Rightarrow> RetentionPolicyInfo option \<Rightarrow> ShardKeyInfo option \<Rightarrow> bool \<Rightarrow> nat \<Rightarrow> ObsOptions option \<Rightarrow> 'c Data
     \<Rightarrow> 'c Data \<times> err option" where
  "CreateDatabase dbName rpo shardKey enableTagArray replicaN options data =
     (case CheckCanCreateDatabase dbName data of
        Some e \<Rightarrow> (data, if e = Err ''ErrDatabaseExists'' then None else Some e)
      | None \<Rightarrow>
          let finish = (\<lambda>dbi. SetDatabase (dbi\<lparr>db_ShardKey := (case shardKey of None \<Rightarrow> db_ShardKey dbi | Some k \<Rightarrow> k),
                                 db_EnableTagArray := enableTagArray, db_ReplicaN := int replicaN,
                                 db_Options := options\<rparr>) data)
          in (case rpo of
                None \<Rightarrow> finish (NewDatabase dbName)
              | Some _ \<Rightarrow>
                  (case CheckCanCreateRetentionPolicy (NewDatabase dbName) rpo True of
                     (_, Some e) \<Rightarrow> (data, Some e)
                   | (rpo', None) \<Rightarrow> finish (SetRetentionPolicy (the rpo') True (NewDatabase dbName)))))"

definition MarkDatabaseDelete :: "string \<Rightarrow> 'c Data \<Rightarrow> 'c Data \<times> err option" where
  "MarkDatabaseDelete name data =
     (case map_of (Databases data) name of
        None \<Rightarrow> (data, Some (Errno ''DatabaseNotFound''))
      | Some dbi \<Rightarrow>
          (case CheckStreamExistInDatabase name data of
             Some e \<Rightarrow> (data, Some e)
           | None \<Rightarrow>
               if db_MarkDeleted dbi then (data, Some (Errno ''DatabaseIsBeingDelete''))
               else case checkMigrateConflict name data of
                 Some e \<Rightarrow> (data, Some e)
               | None \<Rightarrow> (putDB name (\<lambda>di. di\<lparr>db_MarkDeleted := True\<rparr>) data, None)))"

definition DropDatabase :: "string \<Rightarrow> 'c Data \<Rightarrow> 'c Data" where
  "DropDatabase name data =
     data\<lparr>Databases := AList.delete name (Databases data), ReplicaGroups := AList.delete name (ReplicaGroups data),
          Users := map (\<lambda>u. u\<lparr>u_Privileges := AList.delete name (u_Privileges u)\<rparr>) (Users data),
          PtView := AList.delete name (PtView data)\<rparr>"

section \<open>Retention policies\<close>

definition CreateRetentionPolicy ::
  "string \<Rightarrow> RetentionPolicyInfo option \<Rightarrow> bool \<Rightarrow> 'c Data \<Rightarrow> 'c Data \<times> err option" where
  "CreateRetentionPolicy dbName rpo makeDefault data =
     (case data_GetDatabase dbName data of
        Inl e \<Rightarrow> (data, Some e)
      | Inr dbi \<Rightarrow>
          (case CheckCanCreateRetentionPolicy dbi rpo makeDefault of
             (_, Some e) \<Rightarrow> (data, if e = Err ''ErrRetentionPolicyExists'' then None else Some e)
           | (rpo', None) \<Rightarrow> (putDB dbName (SetRetentionPolicy (the rpo') makeDefault) data, None)))"

definition DropRetentionPolicy :: "string \<Rightarrow> string \<Rightarrow> 'c Data \<Rightarrow> 'c Data \<times> err option" where
  "DropRetentionPolicy database name data =
     (case data_GetDatabase database data of
        Inl e \<Rightarrow> (data, Some e)
      | Inr _ \<Rightarrow> (putDB database (\<lambda>di. di\<lparr>db_RetentionPolicies := AList.delete name (db_RetentionPolicies di)\<rparr>) data, None))"

definition MarkRetentionPolicyDelete :: "string \<Rightarrow> string \<Rightarrow> 'c Data \<Rightarrow> 'c Data \<times> err option" where
  "MarkRetentionPolicyDelete database name data =
     (case data_RetentionPolicy database name data of
        Inl e \<Rightarrow> (data, Some e)
      | Inr _ \<Rightarrow>
          (case CheckStreamExistInRetention database name data of
             Some e \<Rightarrow> (data, Some e)
           | None \<Rightarrow>
               (case checkMigrateConflict database data of
                  Some e \<Rightarrow> (data, Some e)
                | None \<Rightarrow> (putRP database name (\<lambda>rp. rp\<lparr>rp_MarkDeleted := True\<rparr>) data, None))))"

definition SetDefaultRetentionPolicy :: "string \<Rightarrow> string \<Rightarrow> 'c Data \<Rightarrow> 'c Data \<times> err option" where
  "SetDefaultRetentionPolicy database name data =
     (case data_GetDatabase database data of
        Inl e \<Rightarrow> (data, Some e)
      | Inr di \<Rightarrow>
          (case db_GetRetentionPolicy di name of
             Inl e \<Rightarrow> (data, Some e)
           | Inr _ \<Rightarrow> (putDB database (\<lambda>di. di\<lparr>db_DefaultRetentionPolicy := name\<rparr>) data, None)))"

definition UpdateRetentionPolicy ::
  "string \<Rightarrow> string \<Rightarrow> RetentionPolicyUpdate \<Rightarrow> bool \<Rightarrow> 'c Data \<Rightarrow> 'c Data \<times> err option" where
  "UpdateRetentionPolicy database name rpu makeDefault data =
     (case data_GetDatabase database data of
        Inl e \<Rightarrow> (data, Some e)
      | Inr di \<Rightarrow>
          (case db_GetRetentionPolicy di name of
             Inl e \<Rightarrow> (data, Some e)
           | Inr rpi \<Rightarrow>
               if HasDownSamplePolicy rpi \<and> rpu_Duration rpu \<noteq> None \<and> the (rpu_Duration rpu) \<noteq> rp_Duration rpi
               then (data, Some (Errno ''DownSamplePolicyExists''))
               else case checkUpdateRetentionPolicyName di name (rpu_Name rpu) of
                 Some e \<Rightarrow> (data, Some e)
               | None \<Rightarrow>
                   let checkRpi = (NewRetentionPolicyInfo [])\<lparr>rp_ReplicaN := 0,
                          rp_Duration := LoadDurationOrDefault (rpu_Duration rpu) (rp_Duration rpi),
                          rp_ShardGroupDuration := LoadDurationOrDefault (rpu_ShardGroupDuration rpu) (rp_ShardGroupDuration rpi),
                          rp_IndexGroupDuration := LoadDurationOrDefault (rpu_IndexGroupDuration rpu) (rp_IndexGroupDuration rpi),
                          rp_HotDuration := LoadDurationOrDefault (rpu_HotDuration rpu) (rp_HotDuration rpi),
                          rp_WarmDuration := LoadDurationOrDefault (rpu_WarmDuration rpu) (rp_WarmDuration rpi)\<rparr>
                   in case CheckSpecValid checkRpi of
                        (_, Some e) \<Rightarrow> (data, Some e)
                      | (checked, None) \<Rightarrow>
                          let newName = (case rpu_Name rpu of None \<Rightarrow> rp_Name rpi | Some n \<Rightarrow> n);
                              rpi' = updateWithOtherRetentionPolicy (checked\<lparr>rp_Name := newName\<rparr>) rpi
                          in (putDB database (\<lambda>di. di\<lparr>
                                db_RetentionPolicies := mmodify (rpKey di name) (\<lambda>_. rpi') (db_RetentionPolicies di),
                                db_DefaultRetentionPolicy := (if makeDefault then rp_Name rpi' else db_DefaultRetentionPolicy di)\<rparr>) data,
                              None)))"

section \<open>Subscriptions\<close>

definition CreateSubscription ::
  "string \<Rightarrow> string \<Rightarrow> string \<Rightarrow> string \<Rightarrow> string list \<Rightarrow> 'c Data \<Rightarrow> 'c Data \<times> err option" where
  "CreateSubscription database rp name mode destinations data =
     (case data_RetentionPolicy database rp data of
        Inl e \<Rightarrow> (data, Some e)
      | Inr rpi \<Rightarrow>
          if \<exists>s \<in> set (rp_Subscriptions rpi). sub_Name s = name then (data, Some (Err ''ErrSubscriptionExists''))
          else
            ((putRP database rp (\<lambda>rpi. rpi\<lparr>rp_Subscriptions := rp_Subscriptions rpi @
                [\<lparr>sub_Name = name, sub_Mode = mode, sub_Destinations = destinations\<rparr>]\<rparr>) data)
              \<lparr>MaxSubscriptionID := u64 (MaxSubscriptionID data + 1)\<rparr>, None))"

definition clearSubs :: "DatabaseInfo \<Rightarrow> DatabaseInfo" where
  "clearSubs db = db\<lparr>db_RetentionPolicies := mmap (\<lambda>rp. rp\<lparr>rp_Subscriptions := []\<rparr>) (db_RetentionPolicies db)\<rparr>"

definition hasSub :: "string \<Rightarrow> RetentionPolicyInfo \<Rightarrow> bool" where
  "hasSub name rp \<longleftrightarrow> (\<exists>s \<in> set (rp_Subscriptions rp). sub_Name s = name)"

definition dropSub :: "string \<Rightarrow> RetentionPolicyInfo \<Rightarrow> RetentionPolicyInfo" where
  "dropSub name rp = rp\<lparr>rp_Subscriptions := delFirst (\<lambda>s. sub_Name s = name) (rp_Subscriptions rp)\<rparr>"

definition bumpSub :: "'c Data \<Rightarrow> 'c Data \<times> err option" where
  "bumpSub data = (data\<lparr>MaxSubscriptionID := u64 (MaxSubscriptionID data + 1)\<rparr>, None)"

definition dropSubRP :: "string \<Rightarrow> string \<Rightarrow> string \<Rightarrow> 'c Data \<Rightarrow> 'c Data \<times> err option" where
  "dropSubRP database rp name data =
     (case data_RetentionPolicy database rp data of
        Inl e \<Rightarrow> (data, Some e)
      | Inr rpi \<Rightarrow>
          if hasSub name rpi then bumpSub (putRP database rp (dropSub name) data)
          else (data, Some (Err ''ErrSubscriptionNotFound'')))"

text \<open>The loop over the policies of a database follows the iteration order of a Go map, which is
  unspecified; the order of the association list stands for it.\<close>

definition DropSubscription :: "string \<Rightarrow> string \<Rightarrow> string \<Rightarrow> 'c Data \<Rightarrow> 'c Data \<times> err option" where
  "DropSubscription database rp name data =
     (if database = [] then bumpSub (data\<lparr>Databases := mmap clearSubs (Databases data)\<rparr>)
      else if name = [] then
        (if map_of (Databases data) database = None then (data, Some (Err ''ErrDatabaseNotExists''))
         else bumpSub (putDB database clearSubs data))
      else if rp = [] then
        (case map_of (Databases data) database of
           None \<Rightarrow> (data, Some (Err ''ErrDatabaseNotExists''))
         | Some db \<Rightarrow>
             if \<exists>(_, rpi) \<in> set (db_RetentionPolicies db). hasSub name rpi
             then bumpSub (putDB database (\<lambda>db. db\<lparr>db_RetentionPolicies :=
                    updFirst (hasSub name \<circ> snd) (\<lambda>(k, rpi). (k, dropSub name rpi)) (db_RetentionPolicies db)\<rparr>) data)
             else dropSubRP database rp name data)
      else dropSubRP database rp name data)"

section \<open>Continuous queries\<close>

text \<open>\<open>strings.ToLower\<close> on ASCII text.\<close>

definition toLowerChar :: "char \<Rightarrow> char" where
  "toLowerChar c = (if 65 \<le> (of_char c :: nat) \<and> (of_char c :: nat) \<le> 90 then char_of ((of_char c :: nat) + 32) else c)"

definition toLower :: "string \<Rightarrow> string" where
  "toLower s = map toLowerChar s"

definition CreateContinuousQueryBase :: "string \<Rightarrow> string \<Rightarrow> string \<Rightarrow> 'c Data \<Rightarrow> 'c Data \<times> bool \<times> err option" where
  "CreateContinuousQueryBase dbName cqName cqQuery data =
     (case data_GetDatabase dbName data of
        Inl e \<Rightarrow> (data, False, Some e)
      | Inr dbi \<Rightarrow>
          (case map_of (db_ContinuousQueries dbi) cqName of
             Some theCQ \<Rightarrow>
               if toLower (cq_Query theCQ) = toLower cqQuery then (data, False, None)
               else (data, False, Some (Err ''ErrSameContinuousQueryName''))
           | None \<Rightarrow>
               if \<exists>(_, db) \<in> set (Databases data). map_of (db_ContinuousQueries db) cqName \<noteq> None
               then (data, False, Some (Err ''ErrSameContinuousQueryName''))
               else (putDB dbName (\<lambda>di. di\<lparr>db_ContinuousQueries := AList.update cqName
                        \<lparr>cq_Name = cqName, cq_Query = cqQuery, cq_LastRunTime = 0\<rparr> (db_ContinuousQueries di)\<rparr>) data, True, None)))"

definition CreateContinuousQuery :: "string \<Rightarrow> string \<Rightarrow> string \<Rightarrow> 'c Data \<Rightarrow> 'c Data \<times> err option" where
  "CreateContinuousQuery dbName cqName cqQuery data =
     (case CreateContinuousQueryBase dbName cqName cqQuery data of
        (d, False, e) \<Rightarrow> (d, e)
      | (d, True, _) \<Rightarrow> (d\<lparr>MaxCQChangeID := u64 (MaxCQChangeID d + 1)\<rparr>, None))"

definition BatchUpdateContinuousQueryStat :: "(string \<times> int) list \<Rightarrow> 'c Data \<Rightarrow> 'c Data \<times> err option" where
  "BatchUpdateContinuousQueryStat cqStates data =
     (data\<lparr>Databases := mmap (\<lambda>dbi. dbi\<lparr>db_ContinuousQueries :=
        fold (\<lambda>(name, lastRun). mmodify name (\<lambda>cq. cq\<lparr>cq_LastRunTime := Unix0 lastRun\<rparr>)) cqStates (db_ContinuousQueries dbi)\<rparr>)
        (Databases data)\<rparr>, None)"

definition DropContinuousQueryBase :: "string \<Rightarrow> string \<Rightarrow> 'c Data \<Rightarrow> 'c Data \<times> bool \<times> err option" where
  "DropContinuousQueryBase cqName database data =
     (case data_GetDatabase database data of
        Inl e \<Rightarrow> (data, False, Some e)
      | Inr dbi \<Rightarrow>
          if map_of (db_ContinuousQueries dbi) cqName = None then (data, False, None)
          else (putDB database (\<lambda>di. di\<lparr>db_ContinuousQueries := AList.delete cqName (db_ContinuousQueries di)\<rparr>) data, True, None))"

definition DropContinuousQuery :: "string \<Rightarrow> string \<Rightarrow> 'c Data \<Rightarrow> 'c Data \<times> bool \<times> err option" where
  "DropContinuousQuery cqName database data =
     (case DropContinuousQueryBase cqName database data of
        (d, changed, Some e) \<Rightarrow> (d, changed, Some e)
      | (d, changed, None) \<Rightarrow>
          ((if changed then d\<lparr>MaxCQChangeID := u64 (MaxCQChangeID d + 1)\<rparr> else d), changed, None))"

section \<open>Users\<close>

definition GetUser :: "string \<Rightarrow> 'c Data \<Rightarrow> UserInfo option" where
  "GetUser username data = find (\<lambda>u. u_Name u = username) (Users data)"

definition HasAdminUser :: "'c Data \<Rightarrow> bool" where
  "HasAdminUser data = list_ex u_Admin (Users data)"

definition CreateUser :: "string \<Rightarrow> string \<Rightarrow> bool \<Rightarrow> bool \<Rightarrow> 'c Data \<Rightarrow> 'c Data \<times> err option" where
  "CreateUser name hash admin rwuser data =
     (if name = [] then (data, Some (Err ''ErrUsernameRequired''))
      else if GetUser name data \<noteq> None then (data, Some (Err ''ErrUserExists''))
      else if admin \<and> HasAdminUser data then (data, Some (Err ''ErrUserForbidden''))
      else (data\<lparr>Users := Users data @ [\<lparr>u_Name = name, u_Hash = hash, u_Admin = admin, u_Rwuser = rwuser, u_Privileges = []\<rparr>],
                 AdminUserExists := (if admin then True else AdminUserExists data)\<rparr>, None))"

definition DropUser :: "string \<Rightarrow> 'c Data \<Rightarrow> 'c Data \<times> err option" where
  "DropUser name data =
     (case GetUser name data of
        Some u \<Rightarrow> if u_Admin u then (data, Some (Err ''ErrUserDropSelf''))
                  else (data\<lparr>Users := delFirst (\<lambda>u. u_Name u = name) (Users data)\<rparr>, None)
      | None \<Rightarrow> (data, Some (Err ''ErrUserNotFound'')))"

definition UpdateUser :: "string \<Rightarrow> string \<Rightarrow> 'c Data \<Rightarrow> 'c Data \<times> err option" where
  "UpdateUser name hash data =
     (case GetUser name data of
        None \<Rightarrow> (data, Some (Err ''ErrUserNotFound''))
      | Some u \<Rightarrow>
          if u_Hash u = hash then (data, Some (Err ''ErrPwdUsed''))
          else (data\<lparr>Users := updFirst (\<lambda>u. u_Name u = name) (\<lambda>u. u\<lparr>u_Hash := hash\<rparr>) (Users data)\<rparr>, None))"

definition SetPrivilege :: "string \<Rightarrow> string \<Rightarrow> int \<Rightarrow> 'c Data \<Rightarrow> 'c Data \<times> err option" where
  "SetPrivilege name database p data =
     (case GetUser name data of
        None \<Rightarrow> (data, Some (Err ''ErrUserNotFound''))
      | Some _ \<Rightarrow>
          (case data_GetDatabase database data of
             Inl e \<Rightarrow> (data, Some e)
           | Inr _ \<Rightarrow> (data\<lparr>Users := updFirst (\<lambda>u. u_Name u = name)
                (\<lambda>u. u\<lparr>u_Privileges := AList.update database p (u_Privileges u)\<rparr>) (Users data)\<rparr>, None)))"

definition SetAdminPrivilege :: "string \<Rightarrow> bool \<Rightarrow> 'c Data \<Rightarrow> 'c Data \<times> err option" where
  "SetAdminPrivilege name admin data =
     (data, Some (if GetUser name data = None then Err ''ErrUserNotFound'' else Err ''ErrGrantOrRevokeAdmin''))"

definition UserPrivileges :: "string \<Rightarrow> 'c Data \<Rightarrow> err + (string, int) gomap" where
  "UserPrivileges name data =
     (case GetUser name data of None \<Rightarrow> Inl (Err ''ErrUserNotFound'') | Some u \<Rightarrow> Inr (u_Privileges u))"

text \<open>Privileges of InfluxQL: none 0, read 1, write 2, all 3.\<close>

definition UserPrivilege :: "string \<Rightarrow> string \<Rightarrow> 'c Data \<Rightarrow> err + int" where
  "UserPrivilege name database data =
     (case GetUser name data of
        None \<Rightarrow> Inl (Err ''ErrUserNotFound'')
      | Some u \<Rightarrow> Inr (case map_of (u_Privileges u) database of None \<Rightarrow> 0 | Some p \<Rightarrow> p))"

definition AuthorizeDatabase :: "UserInfo \<Rightarrow> int \<Rightarrow> string \<Rightarrow> bool" where
  "AuthorizeDatabase u privilege database \<longleftrightarrow>
     u_Admin u \<or> u_Rwuser u \<or> privilege = 0
   \<or> (case map_of (u_Privileges u) database of None \<Rightarrow> False | Some p \<Rightarrow> p = privilege \<or> p = 3)"

section \<open>Query ids and down-sampling\<close>

definition QueryIDSpan :: nat where
  "QueryIDSpan = 100000000"

definition RegisterQueryIDOffset :: "string \<Rightarrow> 'c Data \<Rightarrow> 'c Data \<times> err option" where
  "RegisterQueryIDOffset host data =
     (if map_of (QueryIDInit data) host \<noteq> None then (data, None)
      else (data\<lparr>QueryIDInit := AList.update host (u64 (length (QueryIDInit data) * QueryIDSpan)) (QueryIDInit data)\<rparr>, None))"

text \<open>A policy description, a database or a policy that does not exist is a nil dereference.\<close>

definition CreateDownSamplePolicy :: "string \<Rightarrow> string \<Rightarrow> DownSamplePolicyInfo option \<Rightarrow> 'c Data \<Rightarrow> 'c Data \<times> err option" where
  "CreateDownSamplePolicy database rpName info data =
     (let id = MaxDownSampleID data;
          data' = data\<lparr>MaxDownSampleID := u64 (MaxDownSampleID data + 1)\<rparr>
      in case info of
           None \<Rightarrow> (data', Some nil_panic)
         | Some i \<Rightarrow>
             (case data_Database database data' of
                None \<Rightarrow> (data', Some nil_panic)
              | Some d \<Rightarrow>
                  if map_of (db_RetentionPolicies d) rpName = None then (data', Some nil_panic)
                  else (putDB database (\<lambda>di. di\<lparr>db_RetentionPolicies := mmodify rpName
                          (\<lambda>rp. rp\<lparr>rp_DownSamplePolicyInfo := Some (i\<lparr>dpi_TaskID := id\<rparr>), rp_Duration := dpi_Duration i\<rparr>)
                          (db_RetentionPolicies di)\<rparr>) data', None)))"

definition DropDownSamplePolicy :: "string \<Rightarrow> string \<Rightarrow> bool \<Rightarrow> 'c Data \<Rightarrow> 'c Data \<times> err option" where
  "DropDownSamplePolicy database rpName dropAll data =
     (case data_Database database data of
        None \<Rightarrow> (data, Some nil_panic)
      | Some d \<Rightarrow>
          if dropAll then
            (putDB database (\<lambda>di. di\<lparr>db_RetentionPolicies :=
               mmap (\<lambda>rp. rp\<lparr>rp_DownSamplePolicyInfo := None\<rparr>) (db_RetentionPolicies di)\<rparr>) data, None)
          else case map_of (db_RetentionPolicies d) rpName of
            None \<Rightarrow> (data, Some nil_panic)
          | Some rp \<Rightarrow>
              if rp_DownSamplePolicyInfo rp = None then (data, Some nil_panic)
              else (putDB database (\<lambda>di. di\<lparr>db_RetentionPolicies := mmodify rpName
                      (\<lambda>rp. rp\<lparr>rp_DownSamplePolicyInfo := map_option (\<lambda>i. i\<lparr>dpi_DownSamplePolicies := [], dpi_Calls := []\<rparr>)
                                 (rp_DownSamplePolicyInfo rp)\<rparr>) (db_RetentionPolicies di)\<rparr>) data, None))"

section \<open>The catalogue refuses conflicting statements\<close>

lemma data_Database_putDB:
  "data_Database n (putDB name f d) = (if n = name then map_option f (data_Database n d) else data_Database n d)"
  by (simp add: data_Database_def putDB_def)

lemma data_GetDatabase_marked:
  "data_Database name d = Some di \<Longrightarrow> db_MarkDeleted di \<Longrightarrow> data_GetDatabase name d = Inl (Errno ''DatabaseIsBeingDelete'')"
  by (simp add: data_GetDatabase_def)

lemma MarkDatabaseDelete_marks:
  assumes "MarkDatabaseDelete name d = (d', None)"
  shows "d' = putDB name (\<lambda>di. di\<lparr>db_MarkDeleted := True\<rparr>) d"
    and "\<exists>di. data_Database name d = Some di \<and> \<not> db_MarkDeleted di"
    and "CheckStreamExistInDatabase name d = None" and "checkMigrateConflict name d = None"
  using assms by (auto simp: MarkDatabaseDelete_def data_Database_def split: option.splits if_splits)

lemma MarkDatabaseDelete_refused:
  "MarkDatabaseDelete name d = (d', Some e) \<Longrightarrow> d' = d"
  by (auto simp: MarkDatabaseDelete_def split: option.splits if_splits)



lemma CheckCanCreateRetentionPolicy_ok:
  assumes "CheckCanCreateRetentionPolicy dbi rpo makeDefault = (rpo', None)"
  obtains rpi rpi' where "rpo = Some rpi" "rpo' = Some rpi'" "rp_Name rpi' \<noteq> []" "rp_Name rpi' = rp_Name rpi"
    "CheckSpecValid rpi = (rpi', None)" "db_RetentionPolicy dbi (rp_Name rpi') = None"
proof -
  obtain rpi where rpi: "rpo = Some rpi" "rp_Name rpi \<noteq> []"
    using assms by (auto simp: CheckCanCreateRetentionPolicy_def split: option.splits if_splits)
  obtain rpi' e where c: "CheckSpecValid rpi = (rpi', e)" by fastforce
  have "e = None" "rpo' = Some rpi'" "db_RetentionPolicy dbi (rp_Name rpi') = None"
    using assms rpi c by (auto simp: CheckCanCreateRetentionPolicy_def split: option.splits if_splits)
  moreover have "rp_Name rpi' = rp_Name rpi" using CheckSpecValid_fields [OF c] by simp
  ultimately show ?thesis using that [of rpi rpi'] rpi c by simp
qed



section \<open>Users\<close>

definition usersInv :: "'c Data \<Rightarrow> bool" where
  "usersInv d \<longleftrightarrow> distinct (map u_Name (Users d)) \<and> [] \<notin> u_Name ` set (Users d)
     \<and> length (filter u_Admin (Users d)) \<le> 1 \<and> (AdminUserExists d \<longleftrightarrow> HasAdminUser d)"

lemma GetUser_None: "GetUser name d = None \<longleftrightarrow> name \<notin> u_Name ` set (Users d)"
  by (auto simp: GetUser_def find_None_iff)

lemma usersInv_cong:
  "usersInv d \<Longrightarrow> map u_Name (Users d') = map u_Name (Users d) \<Longrightarrow> map u_Admin (Users d') = map u_Admin (Users d)
   \<Longrightarrow> AdminUserExists d' = AdminUserExists d \<Longrightarrow> usersInv d'"
proof -
  assume inv: "usersInv d" and n: "map u_Name (Users d') = map u_Name (Users d)"
    and a: "map u_Admin (Users d') = map u_Admin (Users d)" and e: "AdminUserExists d' = AdminUserExists d"
  have c: "length (filter u_Admin us) = count_list (map u_Admin us) True" for us :: "UserInfo list"
    by (induction us) auto
  have x: "list_ex u_Admin us \<longleftrightarrow> True \<in> set (map u_Admin us)" for us :: "UserInfo list"
    by (induction us) auto
  have "length (filter u_Admin (Users d')) = length (filter u_Admin (Users d))" by (simp only: c a)
  moreover have "HasAdminUser d' = HasAdminUser d" by (simp only: HasAdminUser_def x a)
  moreover have "u_Name ` set (Users d') = u_Name ` set (Users d)" using arg_cong [OF n, of set] by simp
  ultimately show ?thesis using inv e n by (simp add: usersInv_def)
qed

lemma usersInv_same: "usersInv d \<Longrightarrow> Users d' = Users d \<Longrightarrow> AdminUserExists d' = AdminUserExists d \<Longrightarrow> usersInv d'"
  by (rule usersInv_cong) auto

lemma map_updFirst_same: "(\<And>x. g (f x) = g x) \<Longrightarrow> map g (updFirst p f xs) = map g xs"
  by (induction xs) auto

lemma delFirst_name: "distinct (map g xs) \<Longrightarrow> delFirst (\<lambda>x. g x = n) xs = filter (\<lambda>x. g x \<noteq> n) xs"
proof (induction xs)
  case (Cons x xs)
  have "\<forall>y \<in> set xs. g y \<noteq> g x" using Cons.prems by (metis distinct.simps(2) image_eqI list.set_map list.simps(9))
  then have "filter (\<lambda>x'. g x' \<noteq> g x) xs = xs" by (simp add: filter_id_conv)
  then show ?case using Cons by auto
qed simp

lemma CreateUser_usersInv:
  assumes "usersInv d" "CreateUser name hash admin rw d = (d', e)"
  shows "usersInv d'"
proof (cases "e = None")
  case True
  then have *: "name \<noteq> []" "name \<notin> u_Name ` set (Users d)" "admin \<longrightarrow> \<not> HasAdminUser d"
    "Users d' = Users d @ [\<lparr>u_Name = name, u_Hash = hash, u_Admin = admin, u_Rwuser = rw, u_Privileges = []\<rparr>]"
    "AdminUserExists d' = (admin \<or> AdminUserExists d)"
    using assms(2) by (auto simp: CreateUser_def GetUser_None split: if_splits)
  have "\<not> HasAdminUser d \<Longrightarrow> filter u_Admin (Users d) = []"
    by (auto simp: HasAdminUser_def list_ex_iff filter_empty_conv)
  then show ?thesis using * assms(1) by (auto simp: usersInv_def HasAdminUser_def)
next
  case False
  then have "d' = d" using assms(2) by (auto simp: CreateUser_def split: if_splits)
  then show ?thesis using assms(1) by simp
qed

lemma DropUser_usersInv:
  assumes "usersInv d" "DropUser name d = (d', e)"
  shows "usersInv d'"
proof (cases "e = None")
  case True
  obtain u where u: "GetUser name d = Some u" "\<not> u_Admin u"
      "d' = d\<lparr>Users := delFirst (\<lambda>u. u_Name u = name) (Users d)\<rparr>"
    using assms(2) True by (auto simp: DropUser_def split: option.splits if_splits)
  have un: "u \<in> set (Users d)" "u_Name u = name" using u(1) by (auto simp: GetUser_def find_Some_iff)
  have dist: "distinct (map u_Name (Users d))" using assms(1) by (simp add: usersInv_def)
  have na: "v \<in> set (Users d) \<Longrightarrow> u_Admin v \<Longrightarrow> u_Name v \<noteq> name" for v
    using dist un u(2) by (auto simp: distinct_map inj_on_def)
  have us: "Users d' = filter (\<lambda>u. u_Name u \<noteq> name) (Users d)" by (simp add: u(3) delFirst_name [OF dist])
  have "filter u_Admin (Users d') = filter u_Admin (Users d)" using na by (auto simp: us intro: filter_cong)
  moreover have "HasAdminUser d' = HasAdminUser d" using na by (auto simp: HasAdminUser_def us list_ex_iff)
  moreover have "distinct (map u_Name (Users d'))" using dist by (simp add: us distinct_map_filter)
  ultimately show ?thesis using assms(1) u(3) us by (auto simp: usersInv_def)
next
  case False
  then have "d' = d" using assms(2) by (auto simp: DropUser_def split: option.splits if_splits)
  then show ?thesis using assms(1) by simp
qed

lemma UpdateUser_usersInv: "usersInv d \<Longrightarrow> UpdateUser name hash d = (d', e) \<Longrightarrow> usersInv d'"
  by (erule usersInv_cong) (auto simp: UpdateUser_def map_updFirst_same split: option.splits if_splits)

lemma SetPrivilege_usersInv: "usersInv d \<Longrightarrow> SetPrivilege name db p d = (d', e) \<Longrightarrow> usersInv d'"
  by (erule usersInv_cong) (auto simp: SetPrivilege_def map_updFirst_same split: option.splits sum.splits)

lemma SetAdminPrivilege_usersInv: "usersInv d \<Longrightarrow> SetAdminPrivilege name a d = (d', e) \<Longrightarrow> usersInv d'"
  by (simp add: SetAdminPrivilege_def)

lemma DropDatabase_usersInv: "usersInv d \<Longrightarrow> usersInv (DropDatabase name d)"
  by (erule usersInv_cong) (auto simp: DropDatabase_def)

section \<open>Query ids\<close>

definition queryIDsInv :: "'c Data \<Rightarrow> bool" where
  "queryIDsInv d \<longleftrightarrow> mwf (QueryIDInit d) \<and> map snd (QueryIDInit d) = map (\<lambda>i. i * QueryIDSpan) [0..<length (QueryIDInit d)]"

lemma update_new: "map_of m k = None \<Longrightarrow> AList.update k v m = m @ [(k, v)]"
  by (induction m) (auto split: if_splits)

lemma RegisterQueryIDOffset_inv:
  assumes "queryIDsInv d" "RegisterQueryIDOffset host d = (d', e)" "length (QueryIDInit d) \<le> 184467440737"
  shows "queryIDsInv d'" "length (QueryIDInit d') \<le> Suc (length (QueryIDInit d))"
proof -
  have u: "u64 (length (QueryIDInit d) * QueryIDSpan) = length (QueryIDInit d) * QueryIDSpan"
    by (rule u64_id) (use assms(3) in \<open>simp add: QueryIDSpan_def\<close>)
  show "queryIDsInv d'"
    using assms(1,2) u by (auto simp: queryIDsInv_def RegisterQueryIDOffset_def update_new mwf_def map_of_eq_None_iff
        split: if_splits)
  show "length (QueryIDInit d') \<le> Suc (length (QueryIDInit d))"
    using assms(2) by (auto simp: RegisterQueryIDOffset_def update_new split: if_splits)
qed

lemma queryIDs_apart:
  assumes "queryIDsInv d" "map_of (QueryIDInit d) h = Some a" "map_of (QueryIDInit d) h' = Some b" "h \<noteq> h'"
  shows "a + QueryIDSpan \<le> b \<or> b + QueryIDSpan \<le> a"
proof -
  let ?m = "QueryIDInit d"
  have off: "snd (?m ! i) = i * QueryIDSpan" if "i < length ?m" for i
  proof -
    have "map snd ?m ! i = map (\<lambda>i. i * QueryIDSpan) [0..<length ?m] ! i" using assms(1) by (simp add: queryIDsInv_def)
    then show ?thesis using that by simp
  qed
  obtain i j where ij: "i < length ?m" "?m ! i = (h, a)" "j < length ?m" "?m ! j = (h', b)"
    using map_of_SomeD [OF assms(2)] map_of_SomeD [OF assms(3)] by (meson in_set_conv_nth)
  then have ab: "a = i * QueryIDSpan" "b = j * QueryIDSpan" using off [of i] off [of j] by simp_all
  have "i \<noteq> j" using ij assms(4) by auto
  then have "Suc i \<le> j \<or> Suc j \<le> i" by linarith
  then have "Suc i * QueryIDSpan \<le> j * QueryIDSpan \<or> Suc j * QueryIDSpan \<le> i * QueryIDSpan"
    by (blast intro: mult_le_mono1)
  then show ?thesis by (simp add: ab add.commute)
qed

section \<open>Continuous queries\<close>

text \<open>The name of a continuous query is unique in the cluster.\<close>

definition cqKeys :: "DatabaseInfo \<Rightarrow> string set" where
  "cqKeys di = fst ` set (db_ContinuousQueries di)"

definition cqInv :: "'c Data \<Rightarrow> bool" where
  "cqInv d \<longleftrightarrow> (\<forall>db db' di di' cq. data_Database db d = Some di \<longrightarrow> data_Database db' d = Some di' \<longrightarrow>
      cq \<in> cqKeys di \<longrightarrow> cq \<in> cqKeys di' \<longrightarrow> db = db')"

lemma cqInv_shrink:
  assumes "cqInv d"
    and "\<And>db di'. data_Database db d' = Some di' \<Longrightarrow>
      cqKeys di' = {} \<or> (\<exists>di. data_Database db d = Some di
        \<and> cqKeys di' \<subseteq> cqKeys di)"
  shows "cqInv d'"
  unfolding cqInv_def
proof (intro allI impI)
  fix db db' di di' cq
  assume a: "data_Database db d' = Some di" "data_Database db' d' = Some di'"
    "cq \<in> cqKeys di" "cq \<in> cqKeys di'"
  then obtain ei ei' where "data_Database db d = Some ei" "cq \<in> cqKeys ei"
      "data_Database db' d = Some ei'" "cq \<in> cqKeys ei'"
    using assms(2) [OF a(1)] assms(2) [OF a(2)] a(3,4) by blast
  then show "db = db'" using assms(1) by (auto simp: cqInv_def)
qed

lemma cqInv_same: "cqInv d \<Longrightarrow> Databases d' = Databases d \<Longrightarrow> cqInv d'"
  by (simp add: cqInv_def data_Database_def)

lemma cqInv_putDB:
  assumes "cqInv d" "\<And>di. cqKeys (f di) \<subseteq> cqKeys di"
  shows "cqInv (putDB db f d)"
proof (rule cqInv_shrink [OF assms(1)])
  fix n di' assume "data_Database n (putDB db f d) = Some di'"
  then show "cqKeys di' = {} \<or> (\<exists>di. data_Database n d = Some di
      \<and> cqKeys di' \<subseteq> cqKeys di)"
    using assms(2) by (auto simp: data_Database_putDB split: if_splits)
qed

lemma CreateContinuousQuery_cqInv:
  assumes "cqInv d" "mwf (Databases d)" "CreateContinuousQuery db cq q d = (d', e)"
  shows "cqInv d'"
proof (cases "d' = d")
  case False
  have new: "\<forall>(k, di) \<in> set (Databases d). map_of (db_ContinuousQueries di) cq = None"
    and d': "Databases d' = Databases (putDB db (\<lambda>di. di\<lparr>db_ContinuousQueries := AList.update cq
        \<lparr>cq_Name = cq, cq_Query = q, cq_LastRunTime = 0\<rparr> (db_ContinuousQueries di)\<rparr>) d)"
    using assms(3) False
    by (auto simp: CreateContinuousQuery_def CreateContinuousQueryBase_def split: sum.splits option.splits if_splits)
  have other: "cq \<notin> cqKeys di" if "data_Database n d = Some di" for n di
  proof -
    have "(n, di) \<in> set (Databases d)" using that by (simp add: data_Database_def map_of_SomeD)
    then have "map_of (db_ContinuousQueries di) cq = None" using new by blast
    then show ?thesis by (simp add: map_of_eq_None_iff cqKeys_def)
  qed
  have old: "\<exists>ei. data_Database n d = Some ei \<and> cqKeys di
      \<subseteq> cqKeys ei \<union> (if n = db then {cq} else {})" if "data_Database n d' = Some di" for n di
    using that by (auto simp: data_Database_def d' putDB_def cqKeys_def dom_update split: if_splits)
  show ?thesis unfolding cqInv_def
  proof (intro allI impI)
    fix n n' di di' c
    assume a: "data_Database n d' = Some di" "data_Database n' d' = Some di'"
      "c \<in> cqKeys di" "c \<in> cqKeys di'"
    obtain ei ei' where ei: "data_Database n d = Some ei" "data_Database n' d = Some ei'"
        "c \<in> cqKeys ei \<or> n = db \<and> c = cq"
        "c \<in> cqKeys ei' \<or> n' = db \<and> c = cq"
      using old [OF a(1)] old [OF a(2)] a(3,4) by (auto split: if_splits)
    show "n = n'"
    proof (cases "c = cq")
      case True
      then show ?thesis using ei other by auto
    next
      case False
      then show ?thesis using ei assms(1) by (auto simp: cqInv_def)
    qed
  qed
qed (use assms in simp)

section \<open>Migration events\<close>

lemma showNat_digits: "set (showNat n) \<subseteq> char_of ` {48..57::nat}"
  by (induction n rule: showNat.induct) (subst showNat.simps, auto)

lemma showNat_inj: "showNat m = showNat n \<Longrightarrow> m = n"
proof (induction m arbitrary: n rule: showNat.induct)
  case (1 m)
  have ne: "showNat k \<noteq> []" for k by (subst showNat.simps) simp
  have last: "last (showNat k) = char_of (48 + k mod 10)" for k by (subst showNat.simps) simp
  have "of_char (char_of (48 + m mod 10) :: char) = (of_char (char_of (48 + n mod 10) :: char) :: nat)"
    using 1(2) last [of m] last [of n] by simp
  then have mod: "m mod 10 = n mod 10" by simp
  have bl: "butlast (showNat k) = (if k < 10 then [] else showNat (k div 10))" for k
    by (subst showNat.simps) simp
  have b: "(if m < 10 then [] else showNat (m div 10)) = (if n < 10 then [] else showNat (n div 10))"
    using arg_cong [OF 1(2), of butlast] by (simp only: bl)
  show ?case
  proof (cases "m < 10")
    case True
    then have "n < 10" using b ne by (metis (full_types))
    then show ?thesis using True mod by simp
  next
    case False
    then have "\<not> n < 10" using b ne by (metis (full_types))
    then have "m div 10 = n div 10" using b False 1(1) by simp
    then show ?thesis using mod by (metis div_mult_mod_eq)
  qed
qed

lemma append_sep_inj:
  assumes "xs @ c # ys = xs' @ c # ys'" "c \<notin> set ys" "c \<notin> set ys'"
  shows "xs = xs' \<and> ys = ys'"
proof -
  have "takeWhile (\<lambda>x. x \<noteq> c) (rev (xs @ c # ys)) = rev ys" "takeWhile (\<lambda>x. x \<noteq> c) (rev (xs' @ c # ys')) = rev ys'"
    using assms(2,3) by (simp_all add: takeWhile_append2 takeWhile_append)
  then have "rev ys = rev ys'" using assms(1) by simp
  then have "ys = ys'" by simp
  then show ?thesis using assms(1) by simp
qed

text \<open>The identifier of a migration event determines the database and the partition, whatever
  characters the name of the database contains; so the check for a running migration looks at events of its
  own database only.\<close>

theorem dbPtEventId_inj:
  "dbPtEventId db i = dbPtEventId db' j \<longleftrightarrow> db = db' \<and> i = j"
proof -
  have *: "CHR ''$'' \<notin> set (showNat k)" for k
  proof
    assume "CHR ''$'' \<in> set (showNat k)"
    then obtain n :: nat where "n \<in> {48..57}" "CHR ''$'' = char_of n" using showNat_digits by blast
    then have "(of_char CHR ''$'' :: nat) = n" by simp
    then show False using \<open>n \<in> {48..57}\<close> by simp
  qed
  have "db @ CHR ''$'' # showNat i = db' @ CHR ''$'' # showNat j \<Longrightarrow> db = db' \<and> i = j"
    using append_sep_inj [OF _ * *] showNat_inj by blast
  then show ?thesis by (auto simp: dbPtEventId_def)
qed

definition registerAll :: "string list \<Rightarrow> 'c Data \<Rightarrow> 'c Data" where
  "registerAll hosts d = fold (\<lambda>h d. fst (RegisterQueryIDOffset h d)) hosts d"

definition queryIDsUpTo :: "nat \<Rightarrow> 'c Data \<Rightarrow> bool" where
  "queryIDsUpTo n d \<longleftrightarrow> queryIDsInv d \<and> length (QueryIDInit d) \<le> n"

interpretation queryIDs: invariant_system "\<lambda>h d. fst (RegisterQueryIDOffset h d)" queryIDsUpTo "\<lambda>_ _. True" 184467440737
proof unfold_locales
  fix n and s :: "'c Data" and c
  assume a: "queryIDsUpTo n s" "n < 184467440737"
  obtain d e where d: "RegisterQueryIDOffset c s = (d, e)" by fastforce
  have l: "length (QueryIDInit s) \<le> 184467440737" using a by (simp add: queryIDsUpTo_def)
  show "queryIDsUpTo (Suc n) (fst (RegisterQueryIDOffset c s))"
    using RegisterQueryIDOffset_inv [OF _ d l] a d by (fastforce simp: queryIDsUpTo_def)
qed

lemma RegisterQueryIDOffset_keeps:
  "map_of (QueryIDInit d) h = Some a \<Longrightarrow> map_of (QueryIDInit (fst (RegisterQueryIDOffset h' d))) h = Some a"
  by (auto simp: RegisterQueryIDOffset_def update_conv)

lemma registerAll_keeps: "map_of (QueryIDInit d) h = Some a \<Longrightarrow> map_of (QueryIDInit (registerAll hosts d)) h = Some a"
  unfolding registerAll_def by (induction hosts arbitrary: d) (auto simp: RegisterQueryIDOffset_keeps)

lemma registerAll_some: "h \<in> set hosts \<Longrightarrow> \<exists>a. map_of (QueryIDInit (registerAll hosts d)) h = Some a"
proof (induction hosts arbitrary: d)
  case (Cons g hosts)
  show ?case
  proof (cases "h = g")
    case True
    have "\<exists>a. map_of (QueryIDInit (fst (RegisterQueryIDOffset g d))) g = Some a"
      by (auto simp: RegisterQueryIDOffset_def)
    then show ?thesis using True registerAll_keeps by (fastforce simp: registerAll_def)
  next
    case False
    then show ?thesis using Cons by (simp add: registerAll_def)
  qed
qed simp

text \<open>C35: However SQL nodes register, in any order and repeatedly, every registered node has a query id
  range, the ranges of two nodes do not overlap, and a node keeps its range when it or others register again (for
  up to 184467440737 registrations, where the 64 bit offset would wrap around).\<close>

theorem query_id_ranges_disjoint:
  assumes "length hosts + length later \<le> 184467440737"
  shows "\<forall>h \<in> set hosts. \<exists>a. map_of (QueryIDInit (registerAll hosts (zeroData :: 'c Data))) h = Some a
      \<and> map_of (QueryIDInit (registerAll (hosts @ later) (zeroData :: 'c Data))) h = Some a
      \<and> (\<forall>h' b. h' \<noteq> h \<longrightarrow> map_of (QueryIDInit (registerAll (hosts @ later) (zeroData :: 'c Data))) h' = Some b \<longrightarrow>
           {a ..< a + QueryIDSpan} \<inter> {b ..< b + QueryIDSpan} = {})"
proof
  fix h assume h: "h \<in> set hosts"
  obtain a where a: "map_of (QueryIDInit (registerAll hosts (zeroData :: 'c Data))) h = Some a" using registerAll_some [OF h] by blast
  have keep: "map_of (QueryIDInit (registerAll (hosts @ later) (zeroData :: 'c Data))) h = Some a"
    using registerAll_keeps [OF a] by (simp add: registerAll_def)
  have "queryIDsUpTo 0 (zeroData :: 'c Data)" by (simp add: queryIDsUpTo_def queryIDsInv_def zeroData_def)
  then have inv: "queryIDsInv (registerAll (hosts @ later) (zeroData :: 'c Data))"
    using queryIDs.run_inv [of 0 "zeroData :: 'c Data" "hosts @ later"] assms by (simp add: registerAll_def queryIDsUpTo_def list_all_iff)
  have "{a ..< a + QueryIDSpan} \<inter> {b ..< b + QueryIDSpan} = {}"
    if "h' \<noteq> h" "map_of (QueryIDInit (registerAll (hosts @ later) (zeroData :: 'c Data))) h' = Some b" for h' b
    using queryIDs_apart [OF inv keep that(2)] that(1) by auto
  then show "\<exists>a. map_of (QueryIDInit (registerAll hosts (zeroData :: 'c Data))) h = Some a
      \<and> map_of (QueryIDInit (registerAll (hosts @ later) (zeroData :: 'c Data))) h = Some a
      \<and> (\<forall>h' b. h' \<noteq> h \<longrightarrow> map_of (QueryIDInit (registerAll (hosts @ later) (zeroData :: 'c Data))) h' = Some b \<longrightarrow>
           {a ..< a + QueryIDSpan} \<inter> {b ..< b + QueryIDSpan} = {})"
    using a keep by blast
qed

theorem query_id_ranges_disjoint_witness:
  "\<exists>a. map_of (QueryIDInit (registerAll ([''s1'', ''s2''] @ [''s1'', ''s3'']) zeroData)) ''s2'' = Some a"
  using query_id_ranges_disjoint [of "[''s1'', ''s2'']" "[''s1'', ''s3'']"] by fastforce

section \<open>Statements that do not do what they say\<close>


definition withSub :: "string \<Rightarrow> string \<times> RetentionPolicyInfo" where
  "withSub name = (name, (NewRetentionPolicyInfo name)\<lparr>rp_Subscriptions :=
     [\<lparr>sub_Name = ''s'', sub_Mode = ''ALL'', sub_Destinations = []\<rparr>]\<rparr>)"

definition subData :: "string list \<Rightarrow> string Data" where
  "subData names = zeroData\<lparr>Databases := [(''db'', (NewDatabase ''db'')\<lparr>db_RetentionPolicies := map withSub names\<rparr>)]\<rparr>"

definition subsOf :: "string \<Rightarrow> 'c Data \<Rightarrow> string list" where
  "subsOf rp d = map sub_Name (rp_Subscriptions (the (map_of (db_RetentionPolicies (the (data_Database ''db'' d))) rp)))"


definition exampleStream :: "string \<Rightarrow> StreamInfo" where
  "exampleStream call = \<lparr>st_Name = ''s'', st_ID = 0,
     st_SrcMst = \<lparr>smi_Name = ''m'', smi_Database = ''db'', smi_RetentionPolicy = ''autogen''\<rparr>,
     st_DesMst = \<lparr>smi_Name = ''n'', smi_Database = ''db'', smi_RetentionPolicy = ''autogen''\<rparr>,
     st_Interval = 60, st_Dims = [], st_Calls = [\<lparr>sc_Call = call, sc_Field = ''f'', sc_Alias = ''a''\<rparr>], st_Delay = 0\<rparr>"


end
