(* ===== verification/MetaMst.thy ===== *)
theory MetaMst
  imports MetaDDL
begin

text \<open>
  Measurements (\<open>measurement.go\<close> and the measurement operations of \<open>data.go\<close>): creation under a versioned
  name, shard keys, the schema of fields and tags, deletion in two steps. The lemmas show that a created
  measurement is found under a new stored name and that the type of a field never changes.
\<close>

section \<open>Measurement values\<close>

definition Field_Type_Int :: int where
  "Field_Type_Int = 1"

definition Field_Type_Tag :: int where
  "Field_Type_Tag = 6"

record FieldSchema =
  fs_FieldName :: string
  fs_FieldType :: int
  fs_EndTime :: int

definition EqualsToAnother :: "ShardKeyInfo \<Rightarrow> ShardKeyInfo \<Rightarrow> bool" where
  "EqualsToAnother ski other \<longleftrightarrow>
     length (ski_ShardKey ski) = length (ski_ShardKey other) \<and> ski_Type ski = ski_Type other
     \<and> list_all2 (=) (ski_ShardKey ski) (ski_ShardKey other)"

definition GetShardKey :: "nat \<Rightarrow> MeasurementInfo \<Rightarrow> ShardKeyInfo option" where
  "GetShardKey i msti = findLast (\<lambda>k. ski_ShardGroup k \<le> i) (ms_ShardKeys msti)"

definition GetTyp :: "(string, SchemaVal) gomap \<Rightarrow> string \<Rightarrow> int \<times> bool" where
  "GetTyp cs k = (case map_of cs k of Some v \<Rightarrow> (sv_Typ v, True) | None \<Rightarrow> (0, False))"

definition SetTyp :: "string \<Rightarrow> int \<Rightarrow> (string, SchemaVal) gomap \<Rightarrow> (string, SchemaVal) gomap" where
  "SetTyp k v cs = AList.update k \<lparr>sv_Typ = i8 v, sv_EndTime = 0\<rparr> cs"

definition FieldKeys :: "MeasurementInfo \<Rightarrow> (string \<times> int) list" where
  "FieldKeys msti = map (\<lambda>(k, v). (k, sv_Typ v)) (filter (\<lambda>(k, v). sv_Typ v \<noteq> Field_Type_Tag) (ms_Schema msti))"

definition GetRecordSchema :: "MeasurementInfo \<Rightarrow> (string \<times> int) list" where
  "GetRecordSchema msti = sort_key fst (map (\<lambda>(k, v). (k, sv_Typ v)) (ms_Schema msti)) @ [(''time'', Field_Type_Int)]"

definition escapeTable :: "(char \<times> char) list" where
  "escapeTable =
     [(CHR ''a'', CHR 0x07), (CHR ''b'', CHR 0x08), (CHR ''f'', CHR 0x0C), (CHR ''n'', CHR 0x0A), (CHR ''r'', CHR 0x0D),
      (CHR ''t'', CHR 0x09), (CHR ''v'', CHR 0x0B), (CHR 0x22, CHR 0x22), (CHR 0x27, CHR 0x27), (CHR 0x5C, CHR 0x5C)]"

fun transLoop :: "bool \<Rightarrow> string \<Rightarrow> string" where
  "transLoop inEscape [] = []"
| "transLoop inEscape (ch # cs) =
     (if \<not> inEscape \<and> ch = CHR 0x5C then transLoop True cs
      else if \<not> inEscape then ch # transLoop False cs
      else (case map_of escapeTable ch of Some c \<Rightarrow> c | None \<Rightarrow> ch) # transLoop False cs)"

definition TransSplitChar :: "string \<Rightarrow> string" where
  "TransSplitChar splitChar = transLoop False splitChar"

section \<open>Looking measurements up\<close>

definition GetMeasurementID :: "string \<Rightarrow> string \<Rightarrow> string \<Rightarrow> 'c Data \<Rightarrow> err + nat" where
  "GetMeasurementID database rp mst data =
     (case data_RetentionPolicy database rp data of
        Inl e \<Rightarrow> Inl e
      | Inr rpi \<Rightarrow> (case rp_Measurement rpi mst of None \<Rightarrow> Inl (Err ''ErrMeasurementNotFound'') | Some m \<Rightarrow> Inr (ms_ID m)))"

definition modMst :: "string \<Rightarrow> (MeasurementInfo \<Rightarrow> MeasurementInfo) \<Rightarrow> RetentionPolicyInfo \<Rightarrow> RetentionPolicyInfo" where
  "modMst mst f rpi =
     (case map_of (rp_MstVersions rpi) mst of
        None \<Rightarrow> rpi
      | Some v \<Rightarrow> rpi\<lparr>rp_Measurements := mmodify (mv_NameWithVersion v) f (rp_Measurements rpi)\<rparr>)"

definition putMst :: "string \<Rightarrow> string \<Rightarrow> string \<Rightarrow> (MeasurementInfo \<Rightarrow> MeasurementInfo) \<Rightarrow> 'c Data \<Rightarrow> 'c Data" where
  "putMst database rp mst f = putRP database rp (modMst mst f)"

definition loadObs :: "ObsOptions option \<Rightarrow> MeasurementInfo \<Rightarrow> MeasurementInfo" where
  "loadObs options msti =
     (if ms_ObsOptions msti = None \<and> options \<noteq> None then msti\<lparr>ms_ObsOptions := options\<rparr> else msti)"

text \<open>
  \<open>Data.Measurement\<close> is a lookup that writes: the object storage options of the database are stored into the
  measurement the first time it is read.
\<close>

definition data_Measurement :: "string \<Rightarrow> string \<Rightarrow> string \<Rightarrow> 'c Data \<Rightarrow> 'c Data \<times> (err + MeasurementInfo)" where
  "data_Measurement database rp mst data =
     (case data_GetDatabase database data of
        Inl e \<Rightarrow> (data, Inl e)
      | Inr db \<Rightarrow>
          (case db_GetRetentionPolicy db rp of
             Inl e \<Rightarrow> (data, Inl e)
           | Inr rpi \<Rightarrow>
               (case rp_Measurement rpi mst of
                  None \<Rightarrow> (data, Inl (Err ''ErrMeasurementNotFound''))
                | Some msti \<Rightarrow>
                    if ms_MarkDeleted msti then (data, Inl (Err ''ErrMeasurementNotFound''))
                    else (putMst database rp mst (loadObs (db_Options db)) data, Inr (loadObs (db_Options db) msti)))))"

definition data_Measurements :: "string \<Rightarrow> string \<Rightarrow> 'c Data \<Rightarrow> 'c Data \<times> (err + MeasurementInfo list)" where
  "data_Measurements database rp data =
     (case data_GetDatabase database data of
        Inl e \<Rightarrow> (data, Inl e)
      | Inr db \<Rightarrow>
          (case db_GetRetentionPolicy db rp of
             Inl e \<Rightarrow> (data, Inl e)
           | Inr rpi \<Rightarrow>
               let load = (\<lambda>m. if ms_MarkDeleted m then m else loadObs (db_Options db) m);
                   msts = map load (filter (\<lambda>m. \<not> ms_MarkDeleted m) (map snd (rp_Measurements rpi)));
                   data' = putRP database rp (\<lambda>r. r\<lparr>rp_Measurements := mmap load (rp_Measurements r)\<rparr>) data
               in (data', if msts = [] then Inl (Err ''ErrMeasurementsNotFound'') else Inr msts)))"

section \<open>Schema\<close>

definition addField :: "bool \<Rightarrow> FieldSchema \<Rightarrow> (string, SchemaVal) gomap \<Rightarrow> (string, SchemaVal) gomap \<times> err option" where
  "addField clean f cs =
     (case map_of cs (fs_FieldName f) of
        None \<Rightarrow>
          ((if clean then AList.update (fs_FieldName f) \<lparr>sv_Typ = i8 (fs_FieldType f), sv_EndTime = fs_EndTime f\<rparr> cs
            else SetTyp (fs_FieldName f) (fs_FieldType f) cs), None)
      | Some v \<Rightarrow>
          if sv_Typ v \<noteq> fs_FieldType f then (cs, Some (Err ''ErrFieldTypeConflict''))
          else if clean \<and> sv_EndTime v < fs_EndTime f
            then (AList.update (fs_FieldName f) \<lparr>sv_Typ = i8 (fs_FieldType f), sv_EndTime = fs_EndTime f\<rparr> cs, None)
          else (cs, None))"

definition UpdateSchema :: "Env \<Rightarrow> string \<Rightarrow> string \<Rightarrow> string \<Rightarrow> FieldSchema list \<Rightarrow> 'c Data \<Rightarrow> 'c Data \<times> err option" where
  "UpdateSchema env database rp mst fieldToCreate data =
     (case data_Measurement database rp mst data of
        (data', Inl e) \<Rightarrow> (data', Some e)
      | (data', Inr msti) \<Rightarrow>
          (case loopE (addField (env_SchemaCleanEn env)) fieldToCreate (ms_Schema msti) of
             (cs, e) \<Rightarrow> (putMst database rp mst (\<lambda>m. m\<lparr>ms_Schema := cs\<rparr>) data', e)))"

section \<open>Creating and changing measurements\<close>

fun mapGroups :: "Env \<Rightarrow> string \<Rightarrow> int \<Rightarrow> ShardGroupInfo list \<Rightarrow> (nat, nat list) gomap \<Rightarrow> (nat, nat list) gomap option" where
  "mapGroups env nameWithVer n [] m = Some m"
| "mapGroups env nameWithVer n (sg # sgs) m =
     (case mapShards env nameWithVer (sg_Shards sg) n of
        None \<Rightarrow> None
      | Some idx \<Rightarrow> mapGroups env nameWithVer n sgs (AList.update (sg_ID sg) idx m))"

text \<open>The fields of a new measurement that say which shards hold it; None is a slice out of range in \<open>mapShards\<close>.\<close>

definition placeMst :: "Env \<Rightarrow> int \<Rightarrow> string \<Rightarrow> RetentionPolicyInfo \<Rightarrow> 'c Data \<Rightarrow> MeasurementInfo \<Rightarrow> MeasurementInfo option" where
  "placeMst env numOfShards0 skiType rp data msti =
     (let numOfShards = (if numOfShards0 = -1 then NumOfShards data else numOfShards0);
          maxShardNum = i32 (int (ClusterPtNum data))
      in if numOfShards \<noteq> 0 \<and> skiType = HASH \<and> numOfShards < maxShardNum
         then map_option (\<lambda>m. msti\<lparr>ms_InitNumOfShards := numOfShards, ms_ShardIdexes := Some m\<rparr>)
                (mapGroups env (ms_Name msti) numOfShards (rp_ShardGroups rp) [])
         else Some msti)"

definition createVersionMeasurement ::
  "Env \<Rightarrow> string \<Rightarrow> string \<Rightarrow> RetentionPolicyInfo \<Rightarrow> ShardKeyInfo option \<Rightarrow> int \<Rightarrow> IndexRelation option \<Rightarrow> string \<Rightarrow> nat \<Rightarrow> nat
     \<Rightarrow> ColStoreInfo option \<Rightarrow> FieldSchema list \<Rightarrow> Options option \<Rightarrow> 'c Data \<Rightarrow> 'c Data \<times> err option" where
  "createVersionMeasurement env db rpName rp shardKey numOfShards indexR mst version engineType colStoreInfo schemaInfo options data =
     (let ski = (case shardKey of None \<Rightarrow> \<lparr>ski_ShardKey = [], ski_Type = [], ski_ShardGroup = 0\<rparr> | Some k \<Rightarrow> k)
                  \<lparr>ski_ShardGroup := (if rp_ShardGroups rp = [] then u64 (MaxShardGroupID data + 1) else 0)\<rparr>;
          nameWithVer = GetNameWithVersion mst version;
          msti = (NewMeasurementInfo nameWithVer mst engineType (MaxMstID data))
                   \<lparr>ms_ColStoreInfo := colStoreInfo, ms_ShardKeys := (if shardKey = None then [] else [ski])\<rparr>;
          data1 = data\<lparr>MaxMstID := u64 (MaxMstID data + 1)\<rparr>
      in case placeMst env numOfShards (ski_Type ski) rp data1 msti of
           None \<Rightarrow> (data1, Some index_panic)
         | Some msti1 \<Rightarrow>
             let msti2 = msti1\<lparr>ms_IndexRelation := (case indexR of None \<Rightarrow> ms_IndexRelation msti1 | Some r \<Rightarrow> r), ms_Options := options\<rparr>;
                 data2 = putRP db rpName (\<lambda>r. r\<lparr>
                   rp_MstVersions := AList.update mst \<lparr>mv_NameWithVersion = nameWithVer, mv_Version = version\<rparr> (rp_MstVersions r),
                   rp_Measurements := AList.update nameWithVer msti2 (rp_Measurements r)\<rparr>) data1
             in if schemaInfo \<noteq> [] then UpdateSchema env db (rp_Name rp) mst schemaInfo data2 else (data2, None))"

definition CreateMeasurement ::
  "Env \<Rightarrow> string \<Rightarrow> string \<Rightarrow> string \<Rightarrow> ShardKeyInfo option \<Rightarrow> int \<Rightarrow> IndexRelation option \<Rightarrow> nat
     \<Rightarrow> ColStoreInfo option \<Rightarrow> FieldSchema list \<Rightarrow> Options option \<Rightarrow> 'c Data \<Rightarrow> 'c Data \<times> err option" where
  "CreateMeasurement env database rpName mst shardKey numOfShards indexR engineType colStoreInfo schemaInfo options data =
     (case data_RetentionPolicy database rpName data of
        Inl e \<Rightarrow> (data, Some e)
      | Inr rp \<Rightarrow>
          (case (case shardKey of
                   None \<Rightarrow> None
                 | Some k \<Rightarrow>
                     (case validMeasurementShardType rp (ski_Type k) mst of
                        Some e \<Rightarrow> Some e
                      | None \<Rightarrow> if rp_ReplicaN rp > 1 \<and> ski_Type k = RANGE then Some (Errno ''ConflictWithRep'') else None)) of
             Some e \<Rightarrow> (data, Some e)
           | None \<Rightarrow>
               if colStoreInfo \<noteq> None \<and> rp_ReplicaN rp > 1 then (data, Some (Errno ''ConflictWithRep''))
               else (case rp_Measurement rp mst of
                  Some msti \<Rightarrow>
                    if ms_MarkDeleted msti then
                      createVersionMeasurement env database rpName rp shardKey numOfShards indexR mst
                        (case map_of (rp_MstVersions rp) mst of Some v \<Rightarrow> (mv_Version v + 1) mod 65536 | None \<Rightarrow> 0)
                        engineType colStoreInfo schemaInfo options data
                    else if ms_ShardKeys msti \<noteq> []
                         \<and> EqualsToAnother (case shardKey of None \<Rightarrow> \<lparr>ski_ShardKey = [], ski_Type = [], ski_ShardGroup = 0\<rparr> | Some k \<Rightarrow> k)
                             (last (ms_ShardKeys msti))
                      then (data, None)
                    else (data, Some (Err ''ErrMeasurementExists''))
                | None \<Rightarrow>
                    createVersionMeasurement env database rpName rp shardKey numOfShards indexR mst
                      (case map_of (rp_MstVersions rp) mst of Some v \<Rightarrow> (mv_Version v + 1) mod 65536 | None \<Rightarrow> 0)
                      engineType colStoreInfo schemaInfo options data)))"

definition AlterShardKey :: "string \<Rightarrow> string \<Rightarrow> string \<Rightarrow> ShardKeyInfo option \<Rightarrow> 'c Data \<Rightarrow> 'c Data \<times> err option" where
  "AlterShardKey database rpName mst shardKey data =
     (case data_RetentionPolicy database rpName data of
        Inl e \<Rightarrow> (data, Some e)
      | Inr rp \<Rightarrow>
          (case rp_Measurement rp mst of
             None \<Rightarrow> (data, Some (Err ''ErrMeasurementNotFound''))
           | Some msti \<Rightarrow>
               if ms_MarkDeleted msti then (data, Some (Err ''ErrMeasurementNotFound''))
               else if ms_ShardKeys msti = [] then (data, Some index_panic)
               else
                 let cur = last (ms_ShardKeys msti);
                     ski = (case shardKey of None \<Rightarrow> \<lparr>ski_ShardKey = [], ski_Type = [], ski_ShardGroup = 0\<rparr> | Some k \<Rightarrow> k)
                 in if ski_Type ski \<noteq> ski_Type cur then (data, Some (Errorf ''ErrShardingTypeNotEqual''))
                    else if EqualsToAnother ski cur then (data, None)
                    else case validMeasurementShardType rp (ski_Type ski) mst of
                      Some e \<Rightarrow> (data, Some e)
                    | None \<Rightarrow>
                        let ski' = ski\<lparr>ski_ShardGroup := u64 (MaxShardGroupID data + 1)\<rparr>;
                            keys = (if rp_ShardGroups rp = [] \<or> rp_maxShardGroupID rp < ski_ShardGroup cur
                                    then butlast (ms_ShardKeys msti) @ [ski'] else ms_ShardKeys msti @ [ski'])
                        in (putMst database rpName mst (\<lambda>m. m\<lparr>ms_ShardKeys := keys\<rparr>) data, None)))"

definition MarkMeasurementDelete :: "string \<Rightarrow> string \<Rightarrow> string \<Rightarrow> 'c Data \<Rightarrow> 'c Data \<times> err option" where
  "MarkMeasurementDelete database policy measurement data =
     (case data_Measurement database policy measurement data of
        (data', Inl e) \<Rightarrow> (data', Some e)
      | (data', Inr _) \<Rightarrow>
          (case CheckStreamExistInMst database policy measurement data' of
             Some e \<Rightarrow> (data', Some e)
           | None \<Rightarrow>
               (case checkMigrateConflict database data' of
                  Some e \<Rightarrow> (data', Some e)
                | None \<Rightarrow> (putMst database policy measurement (\<lambda>m. m\<lparr>ms_MarkDeleted := True\<rparr>) data', None))))"

definition DropMeasurement :: "string \<Rightarrow> string \<Rightarrow> string \<Rightarrow> 'c Data \<Rightarrow> 'c Data \<times> err option" where
  "DropMeasurement database policy nameWithVer data =
     (case data_RetentionPolicy database policy data of
        Inl e \<Rightarrow> (data, Some e)
      | Inr rpi \<Rightarrow>
          (case map_of (rp_Measurements rpi) nameWithVer of
             None \<Rightarrow> (data, None)
           | Some m \<Rightarrow>
               if ms_MarkDeleted m
               then (putRP database policy (\<lambda>r. r\<lparr>rp_Measurements := AList.delete nameWithVer (rp_Measurements r)\<rparr>) data, None)
               else (data, None)))"

definition UpdateMeasurement :: "string \<Rightarrow> string \<Rightarrow> string \<Rightarrow> Options \<Rightarrow> 'c Data \<Rightarrow> 'c Data \<times> err option" where
  "UpdateMeasurement db rp mst options data =
     (case data_RetentionPolicy db rp data of
        Inl e \<Rightarrow> (data, Some e)
      | Inr rpi \<Rightarrow>
          (case rp_GetMeasurement rpi mst of
             Inl e \<Rightarrow> (data, Some e)
           | Inr _ \<Rightarrow>
               let day = Hour * 24;
                   newDuration = (if opt_Ttl options \<ge> day then opt_Ttl options else i64 (opt_Ttl options * day));
                   data1 = putMst db rp mst (\<lambda>m. if ms_Options m \<noteq> None then m\<lparr>ms_Options := Some options\<rparr> else m) data
               in (putRP db rp (\<lambda>r. r\<lparr>rp_Duration := newDuration\<rparr>) data1, None)))"

section \<open>A field keeps its type\<close>

definition schemaLe :: "(string, SchemaVal) gomap \<Rightarrow> (string, SchemaVal) gomap \<Rightarrow> bool" where
  "schemaLe cs cs' \<longleftrightarrow> (\<forall>k v. map_of cs k = Some v \<longrightarrow>
     (\<exists>v'. map_of cs' k = Some v' \<and> sv_Typ v' = sv_Typ v \<and> sv_EndTime v \<le> sv_EndTime v'))"

definition hasField :: "bool \<Rightarrow> (string, SchemaVal) gomap \<Rightarrow> FieldSchema \<Rightarrow> bool" where
  "hasField clean cs f \<longleftrightarrow> (\<exists>v. map_of cs (fs_FieldName f) = Some v \<and> sv_Typ v = fs_FieldType f
     \<and> (clean \<longrightarrow> fs_EndTime f \<le> sv_EndTime v))"

definition typeOk :: "FieldSchema \<Rightarrow> bool" where
  "typeOk f \<longleftrightarrow> - 128 \<le> fs_FieldType f \<and> fs_FieldType f < 128"

lemma schemaLe_refl [simp]: "schemaLe cs cs"
  by (simp add: schemaLe_def)

lemma schemaLe_trans:
  assumes "schemaLe a b" "schemaLe b c"
  shows "schemaLe a c"
  unfolding schemaLe_def
proof (intro allI impI)
  fix k v assume "map_of a k = Some v"
  then obtain v' where v': "map_of b k = Some v'" "sv_Typ v' = sv_Typ v" "sv_EndTime v \<le> sv_EndTime v'"
    using assms(1) unfolding schemaLe_def by blast
  then obtain w where "map_of c k = Some w" "sv_Typ w = sv_Typ v'" "sv_EndTime v' \<le> sv_EndTime w"
    using assms(2) unfolding schemaLe_def by blast
  then show "\<exists>w. map_of c k = Some w \<and> sv_Typ w = sv_Typ v \<and> sv_EndTime v \<le> sv_EndTime w"
    using v' by (intro exI [of _ w]) simp
qed

lemma hasField_mono:
  assumes "hasField clean a f" "schemaLe a b"
  shows "hasField clean b f"
proof -
  obtain v where v: "map_of a (fs_FieldName f) = Some v" "sv_Typ v = fs_FieldType f" "clean \<longrightarrow> fs_EndTime f \<le> sv_EndTime v"
    using assms(1) unfolding hasField_def by blast
  then obtain w where "map_of b (fs_FieldName f) = Some w" "sv_Typ w = sv_Typ v" "sv_EndTime v \<le> sv_EndTime w"
    using assms(2) unfolding schemaLe_def by blast
  then show ?thesis unfolding hasField_def using v by (intro exI [of _ w]) auto
qed

lemma addField_le: "addField clean f cs = (cs', e) \<Longrightarrow> typeOk f \<Longrightarrow> schemaLe cs cs'"
  by (auto simp: addField_def schemaLe_def SetTyp_def typeOk_def update_conv split: option.splits if_splits)

lemma addField_ok: "addField clean f cs = (cs', None) \<Longrightarrow> typeOk f \<Longrightarrow> hasField clean cs' f"
  by (auto simp: addField_def hasField_def SetTyp_def typeOk_def update_conv split: option.splits if_splits)

lemma addField_conflict: "addField clean f cs = (cs', Some e) \<Longrightarrow> \<not> hasField clean cs' f"
  by (auto simp: addField_def hasField_def split: option.splits if_splits)

lemma addFields:
  assumes "loopE (addField clean) fs cs = (cs', e)" "\<forall>f \<in> set fs. typeOk f"
  shows "schemaLe cs cs' \<and> (e = None \<longleftrightarrow> (\<forall>f \<in> set fs. hasField clean cs' f))"
  using assms
proof (induction fs arbitrary: cs)
  case (Cons f fs)
  obtain c1 e1 where 1: "addField clean f cs = (c1, e1)" by fastforce
  have le: "schemaLe cs c1" using addField_le [OF 1] Cons.prems(2) by simp
  show ?case
  proof (cases e1)
    case None
    have IH: "schemaLe c1 cs' \<and> (e = None \<longleftrightarrow> (\<forall>f \<in> set fs. hasField clean cs' f))"
      using Cons 1 None by simp
    have "hasField clean c1 f" using addField_ok 1 None Cons.prems(2) by simp
    then show ?thesis using IH le hasField_mono schemaLe_trans by auto
  next
    case (Some err)
    then have "cs' = c1" "e = Some err" using Cons.prems(1) 1 by simp_all
    then show ?thesis using le addField_conflict [of clean f cs c1 err] 1 Some by simp
  qed
qed simp

lemma modMst_simps [simp]:
  "rp_MstVersions (modMst mst f rpi) = rp_MstVersions rpi" "rp_ShardGroups (modMst mst f rpi) = rp_ShardGroups rpi"
  "rp_MarkDeleted (modMst mst f rpi) = rp_MarkDeleted rpi" "rp_Name (modMst mst f rpi) = rp_Name rpi"
  "rp_Duration (modMst mst f rpi) = rp_Duration rpi"
  by (auto simp: modMst_def split: option.splits)

lemma rp_Measurement_modMst:
  "rp_Measurement (modMst mst f rpi) mst = map_option f (rp_Measurement rpi mst)"
  by (auto simp: modMst_def rp_Measurement_def split: option.splits)

lemma RetentionPolicy_putMst:
  assumes "data_RetentionPolicy db rp d = Inr rpi"
  shows "data_RetentionPolicy db rp (putMst db rp mst f d) = Inr (modMst mst f rpi)"
  unfolding putMst_def
  by (rule RetentionPolicy_putRP [OF assms refl]) (use assms in \<open>auto elim: data_RetentionPolicyD\<close>)

lemma data_Measurement_found:
  assumes "data_RetentionPolicy db rp d = Inr rpi" "rp_Measurement rpi mst = Some m" "\<not> ms_MarkDeleted m"
  obtains oo where "data_Measurement db rp mst d = (putMst db rp mst (loadObs oo) d, Inr (loadObs oo m))"
  using assms by (auto simp: data_Measurement_def data_RetentionPolicy_def split: sum.splits)

lemma loadObs_simps [simp]:
  "ms_Schema (loadObs oo m) = ms_Schema m" "ms_MarkDeleted (loadObs oo m) = ms_MarkDeleted m"
  "ms_Name (loadObs oo m) = ms_Name m" "ms_ShardKeys (loadObs oo m) = ms_ShardKeys m"
  by (auto simp: loadObs_def)

lemma UpdateSchema_result:
  assumes "UpdateSchema env db rp mst fs d = (d', e)"
    and "data_RetentionPolicy db rp d = Inr rpi" "rp_Measurement rpi mst = Some m" "\<not> ms_MarkDeleted m"
  obtains oo cs where "loopE (addField (env_SchemaCleanEn env)) fs (ms_Schema m) = (cs, e)"
    "d' = putMst db rp mst (\<lambda>m. m\<lparr>ms_Schema := cs\<rparr>) (putMst db rp mst (loadObs oo) d)"
    "data_RetentionPolicy db rp d' = Inr (modMst mst (\<lambda>m. m\<lparr>ms_Schema := cs\<rparr>) (modMst mst (loadObs oo) rpi))"
    "rp_Measurement (modMst mst (\<lambda>m. m\<lparr>ms_Schema := cs\<rparr>) (modMst mst (loadObs oo) rpi)) mst
       = Some ((loadObs oo m)\<lparr>ms_Schema := cs\<rparr>)"
proof -
  obtain oo where oo: "data_Measurement db rp mst d = (putMst db rp mst (loadObs oo) d, Inr (loadObs oo m))"
    using data_Measurement_found [OF assms(2-4)] by blast
  obtain cs e' where cs: "loopE (addField (env_SchemaCleanEn env)) fs (ms_Schema m) = (cs, e')" by fastforce
  have d': "d' = putMst db rp mst (\<lambda>m. m\<lparr>ms_Schema := cs\<rparr>) (putMst db rp mst (loadObs oo) d)" "e = e'"
    using assms(1) cs by (auto simp: UpdateSchema_def oo)
  show ?thesis
  proof (rule that)
    show "data_RetentionPolicy db rp d' = Inr (modMst mst (\<lambda>m. m\<lparr>ms_Schema := cs\<rparr>) (modMst mst (loadObs oo) rpi))"
      unfolding d' by (intro RetentionPolicy_putMst assms(2))
  qed (use cs d' assms(3) in \<open>simp_all add: rp_Measurement_modMst\<close>)
qed

text \<open>C31: Updating the schema of a measurement never changes the type of a field it has, nor shortens the
  time a field is kept; this holds also when the update is refused half way. The update succeeds exactly when every
  requested field then has the requested type, so it is refused only because of a real conflict.\<close>

theorem UpdateSchema_types_stable:
  assumes "UpdateSchema env db rp mst fs d = (d', e)" "\<forall>f \<in> set fs. typeOk f"
    and "data_RetentionPolicy db rp d = Inr rpi" "rp_Measurement rpi mst = Some m" "\<not> ms_MarkDeleted m"
  shows "\<exists>rpi' m'. data_RetentionPolicy db rp d' = Inr rpi' \<and> rp_Measurement rpi' mst = Some m'
    \<and> schemaLe (ms_Schema m) (ms_Schema m')
    \<and> (e = None \<longleftrightarrow> (\<forall>f \<in> set fs. hasField (env_SchemaCleanEn env) (ms_Schema m') f))"
  by (rule UpdateSchema_result [OF assms(1,3-5)]) (use addFields [OF _ assms(2)] in fastforce)

theorem UpdateSchema_types_stable_witness:
  "\<exists>rpi' m'. data_RetentionPolicy ''db'' [] (fst (UpdateSchema exampleEnv ''db'' [] ''cpu''
       [\<lparr>fs_FieldName = ''usage'', fs_FieldType = 3, fs_EndTime = 0\<rparr>] (exampleData 2))) = Inr rpi'
     \<and> rp_Measurement rpi' ''cpu'' = Some m' \<and> schemaLe [] (ms_Schema m')"
proof -
  let ?fs = "[\<lparr>fs_FieldName = ''usage'', fs_FieldType = 3, fs_EndTime = 0\<rparr>]"
  obtain d' e where d': "UpdateSchema exampleEnv ''db'' [] ''cpu'' ?fs (exampleData 2) = (d', e)" by fastforce
  have m: "rp_Measurement exampleRP ''cpu'' = Some exampleMst" "\<not> ms_MarkDeleted exampleMst" "ms_Schema exampleMst = []"
    by (simp_all add: rp_Measurement_def exampleRP_def exampleMst_def NewMeasurementInfo_def)
  show ?thesis
    using UpdateSchema_types_stable [OF d' _ exampleData_RetentionPolicy m(1,2)] d' m(3) by (auto simp: typeOk_def)
qed

section \<open>Shard keys of existing groups\<close>

lemma findLast_snoc: "findLast p (xs @ [x]) = (if p x then Some x else findLast p xs)"
  by (simp add: findLast_def)

lemma fold_max_start: "(a :: nat) \<le> fold (\<lambda>g m. if m < f g then f g else m) xs a"
proof (induction xs arbitrary: a)
  case (Cons y ys)
  then show ?case using Cons [of a] Cons [of "f y"] by (auto intro: order_trans less_imp_le)
qed simp

lemma fold_max_ge: "x \<in> set xs \<Longrightarrow> (f x :: nat) \<le> fold (\<lambda>g m. if m < f g then f g else m) xs a"
proof (induction xs arbitrary: a)
  case (Cons y ys)
  show ?case
  proof (cases "x \<in> set ys")
    case False
    then have "x = y" using Cons.prems by simp
    then show ?thesis using fold_max_start [of "f y" f ys] fold_max_start [of a f ys] by auto
  qed (use Cons.IH in simp)
qed simp

lemma rp_maxShardGroupID_ge: "g \<in> set (rp_ShardGroups rpi) \<Longrightarrow> sg_ID g \<le> rp_maxShardGroupID rpi"
  unfolding rp_maxShardGroupID_def using fold_max_ge [of g "rp_ShardGroups rpi" sg_ID] by auto

text \<open>C32: Changing the shard key of a measurement leaves the key of every existing shard group as it was, so
  points stay where their group's key put them; groups created from now on use the new key.\<close>

theorem AlterShardKey_keeps_groups:
  assumes "AlterShardKey db rp mst (Some key) d = (d', None)" "MaxShardGroupID d < 2 ^ 64 - 1"
    and "data_RetentionPolicy db rp d = Inr rpi" "rp_Measurement rpi mst = Some m"
    and "\<forall>g \<in> set (rp_ShardGroups rpi). sg_ID g \<le> MaxShardGroupID d"
    and "\<forall>k \<in> set (ms_ShardKeys m). ski_ShardGroup k \<le> MaxShardGroupID d + 1"
  shows "\<exists>rpi' m'. data_RetentionPolicy db rp d' = Inr rpi' \<and> rp_Measurement rpi' mst = Some m'
    \<and> rp_ShardGroups rpi' = rp_ShardGroups rpi
    \<and> (\<forall>g \<in> set (rp_ShardGroups rpi). GetShardKey (sg_ID g) m' = GetShardKey (sg_ID g) m)
    \<and> (\<exists>k. GetShardKey (MaxShardGroupID d + 1) m' = Some k \<and> ski_ShardKey k = ski_ShardKey key \<and> ski_Type k = ski_Type key)"
proof -
  obtain ks cur where ks: "ms_ShardKeys m = ks @ [cur]"
    using assms(1,3,4) by (cases "ms_ShardKeys m" rule: rev_cases) (auto simp: AlterShardKey_def split: if_splits)
  let ?new = "key\<lparr>ski_ShardGroup := MaxShardGroupID d + 1\<rparr>"
  have u: "u64 (MaxShardGroupID d + 1) = MaxShardGroupID d + 1" by (rule u64_id) (use assms(2) in simp)
  have eq: "EqualsToAnother a b \<Longrightarrow> ski_ShardKey a = ski_ShardKey b \<and> ski_Type a = ski_Type b" for a b
    by (auto simp: EqualsToAnother_def list_all2_eq)
  consider (same) "EqualsToAnother key cur" "d' = d"
    | (over) "d' = putMst db rp mst (\<lambda>m. m\<lparr>ms_ShardKeys := ks @ [?new]\<rparr>) d"
        "rp_ShardGroups rpi = [] \<or> rp_maxShardGroupID rpi < ski_ShardGroup cur"
    | (add) "d' = putMst db rp mst (\<lambda>m. m\<lparr>ms_ShardKeys := ks @ [cur, ?new]\<rparr>) d"
    using assms(1,3,4) ks u by (auto simp: AlterShardKey_def Let_def split: if_splits option.splits)
  then show ?thesis
  proof cases
    case same
    then show ?thesis using assms(3,4,6) ks eq [OF same(1)] by (auto simp: GetShardKey_def findLast_snoc)
  next
    case over
    have "\<not> ski_ShardGroup cur \<le> sg_ID g" if "g \<in> set (rp_ShardGroups rpi)" for g
      using over(2) rp_maxShardGroupID_ge [OF that] that by auto
    then show ?thesis
      using RetentionPolicy_putMst [OF assms(3), of mst] assms(4,5) ks
      by (auto simp: over(1) rp_Measurement_modMst GetShardKey_def findLast_snoc)
  next
    case add
    have snoc: "findLast p (ks @ [cur, ?new]) = (if p ?new then Some ?new else findLast p (ks @ [cur]))" for p
      by (simp add: findLast_def)
    show ?thesis
      using RetentionPolicy_putMst [OF assms(3), of mst] assms(4,5) ks snoc
      unfolding add by (auto simp: rp_Measurement_modMst GetShardKey_def findLast_snoc)
  qed
qed

definition keyData :: "string Data" where
  "keyData = putRP ''db'' [] (\<lambda>r. r\<lparr>rp_ShardGroups := [exampleSG 1 [1]]\<rparr>) ((exampleData 2)\<lparr>MaxShardGroupID := 1\<rparr>)"

theorem AlterShardKey_keeps_groups_witness:
  "\<exists>d'. AlterShardKey ''db'' [] ''cpu'' (Some \<lparr>ski_ShardKey = [''host''], ski_Type = HASH, ski_ShardGroup = 0\<rparr>) keyData = (d', None)
     \<and> (\<exists>rpi' m'. data_RetentionPolicy ''db'' [] d' = Inr rpi' \<and> rp_Measurement rpi' ''cpu'' = Some m'
         \<and> GetShardKey 1 m' = GetShardKey 1 exampleMst)"
proof -
  let ?key = "\<lparr>ski_ShardKey = [''host''], ski_Type = HASH, ski_ShardGroup = 0\<rparr>"
  let ?rp = "exampleRP\<lparr>rp_ShardGroups := [exampleSG 1 [1]]\<rparr>"
  have rp: "data_RetentionPolicy ''db'' [] keyData = Inr ?rp"
    unfolding keyData_def
    by (rule RetentionPolicy_putRP [OF exampleData_RetentionPolicy [of 2]])
      (simp_all add: exampleRP_def DefaultRetentionPolicyInfo_def NewRetentionPolicyInfo_def)
  have m: "rp_Measurement ?rp ''cpu'' = Some exampleMst" by (simp add: rp_Measurement_def exampleRP_def)
  have max: "MaxShardGroupID keyData = 1" by (simp add: keyData_def putRP_def putDB_def)
  have "snd (AlterShardKey ''db'' [] ''cpu'' (Some ?key) keyData) = None"
    using m by (simp add: AlterShardKey_def rp exampleMst_def NewMeasurementInfo_def EqualsToAnother_def Let_def
        validMeasurementShardType_def exampleRP_def GetOriginMstName_def)
  then obtain d' where d': "AlterShardKey ''db'' [] ''cpu'' (Some ?key) keyData = (d', None)"
    by (cases "AlterShardKey ''db'' [] ''cpu'' (Some ?key) keyData") simp
  show ?thesis
    using AlterShardKey_keeps_groups [OF d' _ rp m] d'
    by (auto simp: max exampleSG_def exampleMst_def NewMeasurementInfo_def)
qed

section \<open>Creating a measurement\<close>

definition addVersion :: "string \<Rightarrow> nat \<Rightarrow> MeasurementInfo \<Rightarrow> RetentionPolicyInfo \<Rightarrow> RetentionPolicyInfo" where
  "addVersion mst version m r = r\<lparr>
     rp_MstVersions := AList.update mst \<lparr>mv_NameWithVersion = GetNameWithVersion mst version, mv_Version = version\<rparr> (rp_MstVersions r),
     rp_Measurements := AList.update (GetNameWithVersion mst version) m (rp_Measurements r)\<rparr>"

lemma addVersion_lookup:
  "rp_Measurement (addVersion mst version m r) mst = Some m"
  "k \<noteq> GetNameWithVersion mst version \<Longrightarrow> map_of (rp_Measurements (addVersion mst version m r)) k = map_of (rp_Measurements r) k"
  "rp_MarkDeleted (addVersion mst version m r) = rp_MarkDeleted r" "rp_Name (addVersion mst version m r) = rp_Name r"
  by (simp_all add: addVersion_def rp_Measurement_def update_conv)

lemma modMst_other:
  "map_of (rp_MstVersions r) mst = Some v \<Longrightarrow> k \<noteq> mv_NameWithVersion v \<Longrightarrow>
     map_of (rp_Measurements (modMst mst f r)) k = map_of (rp_Measurements r) k"
  by (simp add: modMst_def)

lemma placeMst_same:
  "placeMst env n t rp d m = Some m' \<Longrightarrow>
     ms_Name m' = ms_Name m \<and> ms_originName m' = ms_originName m \<and> ms_ID m' = ms_ID m \<and> ms_Schema m' = ms_Schema m
     \<and> ms_MarkDeleted m' = ms_MarkDeleted m \<and> ms_ShardKeys m' = ms_ShardKeys m \<and> ms_EngineType m' = ms_EngineType m"
  by (auto simp: placeMst_def Let_def split: if_splits)

lemma createVersionMeasurement_found:
  assumes "createVersionMeasurement env db rp rpi sk n ir mst ver et cs fs opts d = (d', None)"
    and "data_RetentionPolicy db rp d = Inr rpi" "fs = [] \<or> rp_Name rpi = rp" "\<forall>f \<in> set fs. typeOk f"
  shows "\<exists>rpi' m'. data_RetentionPolicy db rp d' = Inr rpi' \<and> rp_Measurement rpi' mst = Some m'
    \<and> ms_Name m' = GetNameWithVersion mst ver \<and> ms_ID m' = MaxMstID d \<and> \<not> ms_MarkDeleted m'
    \<and> (\<forall>f \<in> set fs. hasField (env_SchemaCleanEn env) (ms_Schema m') f)
    \<and> (\<forall>k. k \<noteq> GetNameWithVersion mst ver \<longrightarrow> map_of (rp_Measurements rpi') k = map_of (rp_Measurements rpi) k)
    \<and> MaxMstID d' = u64 (MaxMstID d + 1)"
proof -
  define d1 where "d1 = d\<lparr>MaxMstID := u64 (MaxMstID d + 1)\<rparr>"
  define ski where "ski = (case sk of None \<Rightarrow> \<lparr>ski_ShardKey = [], ski_Type = [], ski_ShardGroup = 0\<rparr> | Some k \<Rightarrow> k)
    \<lparr>ski_ShardGroup := (if rp_ShardGroups rpi = [] then u64 (MaxShardGroupID d + 1) else 0)\<rparr>"
  define m0 where "m0 = (NewMeasurementInfo (GetNameWithVersion mst ver) mst et (MaxMstID d))
    \<lparr>ms_ColStoreInfo := cs, ms_ShardKeys := (if sk = None then [] else [ski])\<rparr>"
  note a = assms(1) [unfolded createVersionMeasurement_def Let_def, folded ski_def, folded m0_def d1_def]
  obtain m1 where m1: "placeMst env n (ski_Type ski) rpi d1 m0 = Some m1"
    using a by (cases "placeMst env n (ski_Type ski) rpi d1 m0") simp_all
  define m where "m = m1\<lparr>ms_IndexRelation := (case ir of None \<Rightarrow> ms_IndexRelation m1 | Some r \<Rightarrow> r), ms_Options := opts\<rparr>"
  have m: "ms_Name m = GetNameWithVersion mst ver" "ms_ID m = MaxMstID d" "\<not> ms_MarkDeleted m"
    using placeMst_same [OF m1] by (simp_all add: m_def m0_def NewMeasurementInfo_def)
  have r: "(d', None) = (if fs \<noteq> [] then UpdateSchema env db (rp_Name rpi) mst fs (putRP db rp (addVersion mst ver m) d1)
                            else (putRP db rp (addVersion mst ver m) d1, None))"
    using a m1 by (simp add: m_def addVersion_def [abs_def] split: if_splits)
  have nd: "\<not> rp_MarkDeleted rpi" using assms(2) by (auto elim: data_RetentionPolicyD)
  have rp2: "data_RetentionPolicy db rp (putRP db rp (addVersion mst ver m) d1) = Inr (addVersion mst ver m rpi)"
    by (rule RetentionPolicy_putRP [OF assms(2)]) (simp_all add: d1_def addVersion_lookup nd)
  note look = addVersion_lookup [where mst = mst and version = ver and m = m and r = rpi]
  show ?thesis
  proof (cases "fs = []")
    case True
    then have d': "d' = putRP db rp (addVersion mst ver m) d1" using r by simp
    then have "MaxMstID d' = u64 (MaxMstID d + 1)" by (simp add: d1_def putRP_def putDB_def)
    then show ?thesis using rp2 look m True unfolding d' by auto
  next
    case False
    then have name: "rp_Name rpi = rp" using assms(3) by simp
    have upd: "UpdateSchema env db rp mst fs (putRP db rp (addVersion mst ver m) d1) = (d', None)"
      using r False by (simp add: name)
    obtain oo sch where u: "loopE (addField (env_SchemaCleanEn env)) fs (ms_Schema m) = (sch, None)"
        "d' = putMst db rp mst (\<lambda>m. m\<lparr>ms_Schema := sch\<rparr>) (putMst db rp mst (loadObs oo) (putRP db rp (addVersion mst ver m) d1))"
        "data_RetentionPolicy db rp d' = Inr (modMst mst (\<lambda>m. m\<lparr>ms_Schema := sch\<rparr>) (modMst mst (loadObs oo) (addVersion mst ver m rpi)))"
        "rp_Measurement (modMst mst (\<lambda>m. m\<lparr>ms_Schema := sch\<rparr>) (modMst mst (loadObs oo) (addVersion mst ver m rpi))) mst
           = Some ((loadObs oo m)\<lparr>ms_Schema := sch\<rparr>)"
      using UpdateSchema_result [OF upd rp2 look(1) m(3)] by blast
    have ver: "map_of (rp_MstVersions (addVersion mst ver m rpi)) mst
        = Some \<lparr>mv_NameWithVersion = GetNameWithVersion mst ver, mv_Version = ver\<rparr>" by (simp add: addVersion_def)
    have other: "map_of (rp_Measurements (modMst mst (\<lambda>m. m\<lparr>ms_Schema := sch\<rparr>) (modMst mst (loadObs oo) (addVersion mst ver m rpi)))) k
        = map_of (rp_Measurements rpi) k" if "k \<noteq> GetNameWithVersion mst ver" for k
      using that look(2) modMst_other ver by simp
    have "MaxMstID d' = u64 (MaxMstID d + 1)" by (simp add: u(2) d1_def putMst_def putRP_def putDB_def)
    moreover have "ms_ID (loadObs oo m) = ms_ID m" by (simp add: loadObs_def)
    moreover have "\<forall>f \<in> set fs. hasField (env_SchemaCleanEn env) sch f" using addFields [OF u(1) assms(4)] by simp
    ultimately show ?thesis using u(3,4) m other by auto
  qed
qed



end
