(* ===== verification/MetaCQ.thy ===== *)
theory MetaCQ
  imports MetaDDL "HOL-Library.Sublist"
begin

text \<open>
  The lease of continuous queries (\<open>app/ts-meta/meta/continuous_query.go\<close>): the leader keeps the sorted
  names of all continuous queries and the sorted list of live SQL nodes, and deals the queries out to the nodes. The
  lemmas show that every query is run by exactly one node and that the load is even, that a node whose heartbeat is late
  loses its queries, and two defects: the lease of the last query survives its deletion, and the lock held while
  the change is replicated can block the state machine for ever.
\<close>

section \<open>The lease table\<close>

text \<open>
  \<open>heartbeats\<close> is the list \<open>heartbeatInfoList\<close>, front first. A lease points at its element of the list;
  here the element is found by the host name.
\<close>

record CqStore =
  cqNames :: "string list"
  sqlHosts :: "string list"
  cqLease :: "(string, string list) gomap"
  heartbeats :: "(string \<times> time) list"

definition assignCQ :: "string list \<Rightarrow> nat \<times> string \<Rightarrow> (string, string list) gomap \<Rightarrow> (string, string list) gomap \<times> err option" where
  "assignCQ hosts = (\<lambda>(i, cqName) lease.
     let host = hosts ! (i mod length hosts) in
     if map_of lease host = None then (lease, Some nil_panic)
     else (mmodify host (\<lambda>names. names @ [cqName]) lease, None))"

definition scheduleCQs :: "CqStore \<Rightarrow> CqStore \<times> err option" where
  "scheduleCQs s =
     (case loopE (assignCQ (sqlHosts s)) (enumerate 0 (cqNames s)) (mmap (\<lambda>_. []) (cqLease s)) of
        (lease, e) \<Rightarrow> (s\<lparr>cqLease := lease\<rparr>, e))"

definition scheduleCQsWithoutLock :: "CqStore \<Rightarrow> CqStore \<times> err option" where
  "scheduleCQsWithoutLock s =
     (if cqNames s = [] \<or> sqlHosts s = [] then (s, None) else scheduleCQs s)"

definition getContinuousQueryLease :: "bool \<Rightarrow> string \<Rightarrow> CqStore \<Rightarrow> err + string list" where
  "getContinuousQueryLease isLeader host s =
     (if \<not> isLeader then Inl (Err ''ErrNotLeader'')
      else Inr (case map_of (cqLease s) host of None \<Rightarrow> [] | Some names \<Rightarrow> names))"

text \<open>The boolean says whether \<open>notifyCQLeaseChanged\<close> proposes a command to the other nodes.\<close>

definition handlerSql2MetaHeartbeat :: "bool \<Rightarrow> time \<Rightarrow> string \<Rightarrow> CqStore \<Rightarrow> CqStore \<times> err option \<times> bool" where
  "handlerSql2MetaHeartbeat isLeader now host s =
     (if \<not> isLeader then (s, Some (Err ''ErrNotLeader''), False)
      else if map_of (cqLease s) host \<noteq> None
        then (s\<lparr>heartbeats := filter (\<lambda>(h, _). h \<noteq> host) (heartbeats s) @ [(host, now)]\<rparr>, None, False)
      else
        (case scheduleCQsWithoutLock
                (s\<lparr>heartbeats := heartbeats s @ [(host, now)], cqLease := AList.update host [] (cqLease s),
                   sqlHosts := sort (sqlHosts s @ [host])\<rparr>) of
           (s', Some e) \<Rightarrow> (s', Some e, False)
         | (s', None) \<Rightarrow> (s', None, True)))"

definition searchStrings :: "string list \<Rightarrow> string \<Rightarrow> nat" where
  "searchStrings xs x = sortSearch (length xs) (\<lambda>i. x \<le> xs ! i)"

definition removeAt :: "nat \<Rightarrow> 'a list \<Rightarrow> 'a list" where
  "removeAt n xs = (if n < length xs then take n xs @ drop (Suc n) xs else xs)"

definition handlerSQLNodeOffline :: "string \<Rightarrow> CqStore \<Rightarrow> CqStore \<times> err option" where
  "handlerSQLNodeOffline sqlHost s =
     (let hosts = sort (sqlHosts s) in
      scheduleCQsWithoutLock
        (s\<lparr>cqLease := AList.delete sqlHost (cqLease s),
           sqlHosts := removeAt (searchStrings hosts sqlHost) hosts,
           heartbeats := delFirst (\<lambda>(h, _). h = sqlHost) (heartbeats s)\<rparr>))"

definition heartbeatToleranceDuration :: duration where
  "heartbeatToleranceDuration = 5 * 1000000000"

text \<open>
  The loop of \<open>checkSQLNodesHeartbeat\<close> looks at the front of the list and removes that node until the front
  is recent; every round removes an element, so \<open>length (heartbeats s)\<close> rounds are enough.
\<close>

fun offlineLoop :: "nat \<Rightarrow> time \<Rightarrow> CqStore \<Rightarrow> CqStore \<times> err option" where
  "offlineLoop 0 now s = (s, None)"
| "offlineLoop (Suc fuel) now s =
     (case heartbeats s of
        [] \<Rightarrow> (s, None)
      | (h, t) # _ \<Rightarrow>
          if now - t \<le> heartbeatToleranceDuration then (s, None)
          else case handlerSQLNodeOffline h s of
            (s', Some e) \<Rightarrow> (s', Some e)
          | (s', None) \<Rightarrow> offlineLoop fuel now s')"

definition checkSQLNodesHeartbeat :: "bool \<Rightarrow> time \<Rightarrow> 'c Data \<Rightarrow> CqStore \<Rightarrow> CqStore \<times> err option" where
  "checkSQLNodesHeartbeat isLeader now cacheData s =
     (if \<not> isLeader then (s, None)
      else if \<not> (\<exists>(_, db) \<in> set (Databases cacheData). db_ContinuousQueries db \<noteq> []) then (s, None)
      else offlineLoop (length (heartbeats s)) now s)"

definition handleCQCreated :: "string \<Rightarrow> CqStore \<Rightarrow> CqStore \<times> err option" where
  "handleCQCreated newCQ s =
     (let names = sort (cqNames s); n = searchStrings names newCQ in
      if n \<ge> length names then scheduleCQsWithoutLock (s\<lparr>cqNames := names @ [newCQ]\<rparr>)
      else if names ! n = newCQ then (s\<lparr>cqNames := names\<rparr>, None)
      else scheduleCQsWithoutLock (s\<lparr>cqNames := take n names @ newCQ # drop n names\<rparr>))"

definition handleCQDropped :: "string \<Rightarrow> CqStore \<Rightarrow> CqStore \<times> err option" where
  "handleCQDropped dropped s =
     (let names = sort (cqNames s) in
      scheduleCQsWithoutLock (s\<lparr>cqNames := removeAt (searchStrings names dropped) names\<rparr>))"

definition restoreCQNames :: "'c Data \<Rightarrow> CqStore \<Rightarrow> CqStore" where
  "restoreCQNames data s =
     s\<lparr>cqNames := sort (concat (map (\<lambda>(_, db). map fst (db_ContinuousQueries db)) (Databases data)))\<rparr>"

section \<open>Sorted name lists\<close>

lemma searchStrings_split:
  assumes "sorted xs" "distinct xs"
  shows "\<forall>y \<in> set (take (searchStrings xs x) xs). y < x" "\<forall>y \<in> set (drop (searchStrings xs x) xs). x \<le> y"
    "searchStrings xs x \<le> length xs"
proof -
  let ?f = "\<lambda>i. x \<le> xs ! i"
  have up: "upclosed (length xs) ?f"
    unfolding upclosed_def using assms(1) by (meson order_trans sorted_nth_mono)
  show le: "searchStrings xs x \<le> length xs" unfolding searchStrings_def by (rule sortSearch_le [OF up])
  show "\<forall>y \<in> set (take (searchStrings xs x) xs). y < x"
    using sortSearch_before [OF up] by (auto simp: searchStrings_def in_set_conv_nth not_le)
  show "\<forall>y \<in> set (drop (searchStrings xs x) xs). x \<le> y"
    using sortSearch_from [OF up] le by (auto simp: searchStrings_def in_set_conv_nth)
qed

lemma removeAt_member:
  assumes "sorted xs" "distinct xs" "x \<in> set xs"
  shows "removeAt (searchStrings xs x) xs = remove1 x xs"
proof -
  let ?n = "searchStrings xs x"
  note sp = searchStrings_split [OF assms(1,2), of x]
  have xt: "x \<notin> set (take ?n xs)" using sp(1) by auto
  then have xd: "x \<in> set (drop ?n xs)" using assms(3) by (metis append_take_drop_id in_set_conv_decomp set_append Un_iff)
  then obtain y ys where ys: "drop ?n xs = y # ys" by (cases "drop ?n xs") auto
  have "y = x"
  proof (rule ccontr)
    assume "y \<noteq> x"
    then have "x \<in> set ys" using xd ys by simp
    moreover have "sorted (y # ys)" using assms(1) ys by (metis sorted_wrt_drop)
    ultimately have "y \<le> x" by simp
    then show False using sp(2) ys \<open>y \<noteq> x\<close> by auto
  qed
  moreover have "?n < length xs" using ys by (cases "?n < length xs") auto
  moreover have "drop (Suc ?n) xs = ys" using ys by (metis drop_Suc list.sel(3) tl_drop)
  moreover have "xs = take ?n xs @ x # ys" using ys calculation(1) by (metis append_take_drop_id)
  ultimately show ?thesis unfolding removeAt_def using xt by (metis remove1.simps(2) remove1_append)
qed

lemma removeAt_absent:
  assumes "sorted xs" "distinct xs" "\<forall>y \<in> set xs. y < x"
  shows "removeAt (searchStrings xs x) xs = xs"
proof -
  have "drop (searchStrings xs x) xs = []"
    using searchStrings_split(2) [OF assms(1,2), of x] assms(3) by (meson all_not_in_conv in_set_dropD leD set_empty)
  then show ?thesis by (simp add: removeAt_def)
qed

lemma insertAt_sorted:
  assumes "sorted xs" "distinct xs" "x \<notin> set xs"
  shows "sorted (take (searchStrings xs x) xs @ x # drop (searchStrings xs x) xs)"
    "distinct (take (searchStrings xs x) xs @ x # drop (searchStrings xs x) xs)"
    "set (take (searchStrings xs x) xs @ x # drop (searchStrings xs x) xs) = insert x (set xs)"
proof -
  let ?n = "searchStrings xs x"
  note sp = searchStrings_split [OF assms(1,2), of x]
  have ap: "xs = take ?n xs @ drop ?n xs" by simp
  have s: "sorted (take ?n xs)" "sorted (drop ?n xs)" using assms(1) by (simp_all add: sorted_wrt_take sorted_wrt_drop)
  show "sorted (take ?n xs @ x # drop ?n xs)"
    using s sp(1,2) by (fastforce simp: sorted_append)
  show set: "set (take ?n xs @ x # drop ?n xs) = insert x (set xs)"
    by (subst (5) ap, simp only: set_append) auto
  have "distinct (take ?n xs @ drop ?n xs)" by (simp only: append_take_drop_id assms(2))
  then show "distinct (take ?n xs @ x # drop ?n xs)"
    using assms(3) unfolding distinct_append by (auto dest: in_set_takeD in_set_dropD)
qed

section \<open>Every query has one host\<close>

definition leaseOf :: "string list \<Rightarrow> nat \<Rightarrow> nat \<Rightarrow> string list" where
  "leaseOf names n j = map ((!) names) (filter (\<lambda>i. i mod n = j) [0..<length names])"

lemma leaseOf_snoc:
  "leaseOf (names @ [c]) n j = leaseOf names n j @ (if length names mod n = j then [c] else [])"
  by (auto simp: leaseOf_def nth_append intro!: map_cong)

lemma assign_all:
  assumes "distinct hosts" "hosts \<noteq> []" "\<forall>h \<in> set hosts. map_of lease h = Some []"
  shows "\<exists>l. loopE (assignCQ hosts) (enumerate 0 names) lease = (l, None) \<and> map fst l = map fst lease
    \<and> (\<forall>j < length hosts. map_of l (hosts ! j) = Some (leaseOf names (length hosts) j))"
proof (induction names rule: rev_induct)
  case Nil
  then show ?case using assms(3) by (simp add: leaseOf_def)
next
  case (snoc c names)
  let ?n = "length hosts" and ?k = "length names mod length hosts"
  obtain l where l: "loopE (assignCQ hosts) (enumerate 0 names) lease = (l, None)" "map fst l = map fst lease"
      "\<forall>j < ?n. map_of l (hosts ! j) = Some (leaseOf names ?n j)"
    using snoc.IH by blast
  have k: "?k < ?n" using assms(2) by simp
  have "assignCQ hosts (length names, c) l = (mmodify (hosts ! ?k) (\<lambda>ns. ns @ [c]) l, None)"
    using l(3) k by (simp add: assignCQ_def)
  then have "loopE (assignCQ hosts) (enumerate 0 (names @ [c])) lease = (mmodify (hosts ! ?k) (\<lambda>ns. ns @ [c]) l, None)"
    by (simp add: enumerate_append_eq loopE_append l(1))
  moreover have "map_of (mmodify (hosts ! ?k) (\<lambda>ns. ns @ [c]) l) (hosts ! j) = Some (leaseOf (names @ [c]) ?n j)"
    if "j < ?n" for j
    using l(3) that k assms(1) by (auto simp: leaseOf_snoc nth_eq_iff_index_eq)
  ultimately show ?case using l(2) by simp
qed

definition cqStoreInv :: "CqStore \<Rightarrow> bool" where
  "cqStoreInv s \<longleftrightarrow> sorted (cqNames s) \<and> distinct (cqNames s) \<and> sorted (sqlHosts s) \<and> distinct (sqlHosts s)
     \<and> mwf (cqLease s) \<and> fst ` set (cqLease s) = set (sqlHosts s)
     \<and> distinct (map fst (heartbeats s)) \<and> fst ` set (heartbeats s) = set (sqlHosts s)"

definition leasesExact :: "CqStore \<Rightarrow> bool" where
  "leasesExact s \<longleftrightarrow> cqNames s \<noteq> [] \<longrightarrow>
     (\<forall>j < length (sqlHosts s). map_of (cqLease s) (sqlHosts s ! j) = Some (leaseOf (cqNames s) (length (sqlHosts s)) j))"

lemma schedule_exact:
  assumes "cqStoreInv s"
  shows "\<exists>s'. scheduleCQsWithoutLock s = (s', None) \<and> cqStoreInv s' \<and> leasesExact s'
    \<and> cqNames s' = cqNames s \<and> sqlHosts s' = sqlHosts s \<and> heartbeats s' = heartbeats s"
proof (cases "cqNames s = [] \<or> sqlHosts s = []")
  case True
  then show ?thesis using assms by (auto simp: scheduleCQsWithoutLock_def leasesExact_def)
next
  case False
  have "map_of (cqLease s) h \<noteq> None" if "h \<in> set (sqlHosts s)" for h
    using that assms by (simp add: cqStoreInv_def map_of_eq_None_iff)
  then have "\<forall>h \<in> set (sqlHosts s). map_of (mmap (\<lambda>_. []) (cqLease s)) h = Some ([] :: string list)" by force
  then obtain l where l: "loopE (assignCQ (sqlHosts s)) (enumerate 0 (cqNames s)) (mmap (\<lambda>_. []) (cqLease s)) = (l, None)"
      "map fst l = map fst (cqLease s)"
      "\<forall>j < length (sqlHosts s). map_of l (sqlHosts s ! j) = Some (leaseOf (cqNames s) (length (sqlHosts s)) j)"
    using assign_all [of "sqlHosts s" "mmap (\<lambda>_. []) (cqLease s)" "cqNames s"] assms False
    by (auto simp: cqStoreInv_def)
  have "fst ` set l = fst ` set (cqLease s)" using arg_cong [OF l(2), of set] by simp
  then have "cqStoreInv (s\<lparr>cqLease := l\<rparr>)" using assms l(2) by (simp add: cqStoreInv_def mwf_def)
  then show ?thesis
    using l False by (auto simp: scheduleCQsWithoutLock_def scheduleCQs_def leasesExact_def)
qed

lemma handleCQCreated_inv:
  assumes "cqStoreInv s" "leasesExact s"
  shows "\<exists>s'. handleCQCreated cq s = (s', None) \<and> cqStoreInv s' \<and> leasesExact s'
    \<and> set (cqNames s') = insert cq (set (cqNames s)) \<and> sqlHosts s' = sqlHosts s"
proof -
  let ?n = "searchStrings (cqNames s) cq"
  have so: "sorted (cqNames s)" "distinct (cqNames s)" using assms(1) by (simp_all add: cqStoreInv_def)
  have id: "sort (cqNames s) = cqNames s" using so(1) by (simp add: sorted_sort_id)
  note sp = searchStrings_split [OF so, of cq]
  have add: "\<exists>s'. scheduleCQsWithoutLock (s\<lparr>cqNames := names\<rparr>) = (s', None) \<and> cqStoreInv s' \<and> leasesExact s'
      \<and> set (cqNames s') = insert cq (set (cqNames s)) \<and> sqlHosts s' = sqlHosts s"
    if "sorted names" "distinct names" "set names = insert cq (set (cqNames s))" for names
    using schedule_exact [of "s\<lparr>cqNames := names\<rparr>"] assms(1) that by (auto simp: cqStoreInv_def)
  show ?thesis
  proof (cases "cq \<in> set (cqNames s)")
    case True
    have "cq \<notin> set (take ?n (cqNames s))" using sp(1) by auto
    then have "cq \<in> set (drop ?n (cqNames s))" using True by (metis append_take_drop_id set_append Un_iff)
    then have lt: "?n < length (cqNames s)" by (cases "?n < length (cqNames s)") auto
    have "cqNames s ! ?n = cq"
    proof -
      obtain i where i: "?n \<le> i" "i < length (cqNames s)" "cqNames s ! i = cq"
        using \<open>cq \<in> set (drop ?n (cqNames s))\<close> by (auto simp: in_set_conv_nth) (metis le_add1 less_diff_conv add.commute)
      have "cqNames s ! ?n \<le> cq" using so(1) i sorted_nth_mono by blast
      moreover have "cqNames s ! ?n \<in> set (drop ?n (cqNames s))" using lt by (simp add: Cons_nth_drop_Suc [symmetric])
      ultimately show ?thesis using sp(2) by (meson order_antisym)
    qed
    then have "handleCQCreated cq s = (s, None)" using lt by (simp add: handleCQCreated_def id Let_def)
    then show ?thesis using assms True by auto
  next
    case False
    note ins = insertAt_sorted [OF so False]
    show ?thesis
    proof (cases "?n \<ge> length (cqNames s)")
      case True
      then have "take ?n (cqNames s) @ cq # drop ?n (cqNames s) = cqNames s @ [cq]" by simp
      then show ?thesis using add ins True by (simp add: handleCQCreated_def id Let_def)
    next
      case lt: False
      then have "cqNames s ! ?n \<noteq> cq" using False nth_mem by (metis not_le)
      then show ?thesis using add [OF ins] lt by (simp add: handleCQCreated_def id Let_def)
    qed
  qed
qed

lemma handleCQDropped_inv:
  assumes "cqStoreInv s" "cq \<in> set (cqNames s)"
  shows "\<exists>s'. handleCQDropped cq s = (s', None) \<and> cqStoreInv s' \<and> leasesExact s'
    \<and> set (cqNames s') = set (cqNames s) - {cq} \<and> sqlHosts s' = sqlHosts s"
proof -
  have so: "sorted (cqNames s)" "distinct (cqNames s)" using assms(1) by (simp_all add: cqStoreInv_def)
  have r: "handleCQDropped cq s = scheduleCQsWithoutLock (s\<lparr>cqNames := remove1 cq (cqNames s)\<rparr>)"
    using removeAt_member [OF so assms(2)] so(1) by (simp add: handleCQDropped_def sorted_sort_id)
  have "cqStoreInv (s\<lparr>cqNames := remove1 cq (cqNames s)\<rparr>)"
    using assms(1) by (simp add: cqStoreInv_def sorted_remove1)
  then show ?thesis using schedule_exact so(2) unfolding r by fastforce
qed

lemma leaseOf_member: "cq \<in> set (leaseOf names n j) \<longleftrightarrow> (\<exists>i < length names. names ! i = cq \<and> i mod n = j)"
  by (auto simp: leaseOf_def)

lemma lease_index:
  assumes "cqStoreInv s" "leasesExact s" "cqNames s \<noteq> []" "map_of (cqLease s) h = Some names"
  obtains j where "j < length (sqlHosts s)" "sqlHosts s ! j = h" "names = leaseOf (cqNames s) (length (sqlHosts s)) j"
proof -
  have "h \<in> fst ` set (cqLease s)" using map_of_SomeD [OF assms(4)] by force
  then have "h \<in> set (sqlHosts s)" using assms(1) by (simp add: cqStoreInv_def)
  then obtain j where "j < length (sqlHosts s)" "sqlHosts s ! j = h" by (auto simp: in_set_conv_nth)
  then show ?thesis using that [of j] assms(2-4) by (auto simp: leasesExact_def)
qed

lemma leases_unique:
  assumes "cqStoreInv s" "leasesExact s" "sqlHosts s \<noteq> []" "cq \<in> set (cqNames s)"
  shows "\<exists>!h. \<exists>names. map_of (cqLease s) h = Some names \<and> cq \<in> set names"
proof -
  have ne: "cqNames s \<noteq> []" using assms(4) by auto
  obtain i where i: "i < length (cqNames s)" "cqNames s ! i = cq" using assms(4) by (auto simp: in_set_conv_nth)
  let ?n = "length (sqlHosts s)"
  have dist: "distinct (cqNames s)" using assms(1) by (simp add: cqStoreInv_def)
  have lt: "i mod ?n < ?n" using assms(3) by simp
  show ?thesis
  proof (rule ex1I [of _ "sqlHosts s ! (i mod ?n)"])
    show "\<exists>names. map_of (cqLease s) (sqlHosts s ! (i mod ?n)) = Some names \<and> cq \<in> set names"
      using assms(2) ne lt i by (auto simp: leasesExact_def leaseOf_member)
  next
    fix h assume "\<exists>names. map_of (cqLease s) h = Some names \<and> cq \<in> set names"
    then obtain names where n: "map_of (cqLease s) h = Some names" "cq \<in> set names" by blast
    obtain j where j: "sqlHosts s ! j = h" "names = leaseOf (cqNames s) ?n j"
      using lease_index [OF assms(1,2) ne n(1)] by blast
    obtain k where k: "k < length (cqNames s)" "cqNames s ! k = cq" "k mod ?n = j" using n(2) j(2) leaseOf_member by auto
    then have "k = i" using dist i nth_eq_iff_index_eq by metis
    then show "h = sqlHosts s ! (i mod ?n)" using j k by simp
  qed
qed

lemma length_leaseOf: "j < n \<Longrightarrow> length (leaseOf names n j) = (length names + n - 1 - j) div n"
proof (induction names rule: rev_induct)
  case Nil
  then have "n - 1 - j < n" by simp
  then show ?case by (simp add: leaseOf_def)
next
  case (snoc c names)
  let ?m = "length names"
  have n: "0 < n" "j \<le> n - 1" using snoc.prems by simp_all
  define a where "a = ?m + n - 1 - j"
  have e: "length (names @ [c]) + n - 1 - j = Suc a" using n by (simp add: a_def)
  have "Suc a mod n = 0 \<longleftrightarrow> ?m mod n = j"
  proof -
    have "Suc a + j = ?m + n" using n by (simp add: a_def)
    then have "(Suc a + j) mod n = ?m mod n" by simp
    then have mod: "(Suc a mod n + j) mod n = ?m mod n" by (simp add: mod_add_left_eq)
    have lt: "Suc a mod n < n" using n by simp
    show ?thesis
    proof
      assume "Suc a mod n = 0"
      then show "?m mod n = j" using mod snoc.prems by simp
    next
      assume m: "?m mod n = j"
      show "Suc a mod n = 0"
      proof (cases "Suc a mod n + j < n")
        case True
        then show ?thesis using mod m by simp
      next
        case False
        then have "(Suc a mod n + j) mod n = (Suc a mod n + j - n) mod n" by (simp add: le_mod_geq)
        also have "\<dots> = Suc a mod n + j - n" using lt snoc.prems by (intro mod_less) linarith
        finally have "(Suc a mod n + j) mod n = Suc a mod n + j - n" .
        then show ?thesis using mod m lt False by linarith
      qed
    qed
  qed
  moreover have "Suc a div n = (if Suc a mod n = 0 then Suc (a div n) else a div n)" by (rule div_Suc)
  moreover have "length (leaseOf names n j) = a div n" using snoc by (simp add: a_def)
  ultimately show ?case unfolding e leaseOf_snoc by (simp split: if_splits)
qed

lemma leases_even:
  assumes "cqStoreInv s" "leasesExact s" "cqNames s \<noteq> []" "map_of (cqLease s) h1 = Some n1" "map_of (cqLease s) h2 = Some n2"
  shows "length n1 \<le> length n2 + 1"
proof -
  let ?n = "length (sqlHosts s)"
  obtain j1 where j1: "j1 < ?n" "n1 = leaseOf (cqNames s) ?n j1" using lease_index [OF assms(1-4)] by blast
  obtain j2 where j2: "j2 < ?n" "n2 = leaseOf (cqNames s) ?n j2" using lease_index [OF assms(1-3,5)] by blast
  let ?m = "length (cqNames s)"
  define a b where "a = ?m + ?n - 1 - j1" and "b = ?m + ?n - 1 - j2"
  have "a \<le> b + ?n" using j1(1) j2(1) by (simp add: a_def b_def)
  then have "a div ?n \<le> (b + ?n) div ?n" by (rule div_le_mono)
  also have "(b + ?n) div ?n = b div ?n + 1" using j1(1) by (subst div_add_self2) auto
  finally show ?thesis using j1 j2 by (simp add: length_leaseOf a_def b_def)
qed

section \<open>Heartbeats\<close>

lemma filter_key_absent: "k \<notin> fst ` set xs \<Longrightarrow> filter (\<lambda>(h, _). h \<noteq> k) xs = xs"
  by (induction xs) auto

lemma filter_keys: "fst ` set (filter (\<lambda>(h, _). h \<noteq> k) xs) = fst ` set xs - {k}"
  by (induction xs) auto

lemma handlerSQLNodeOffline_inv:
  assumes "cqStoreInv s" "h \<in> set (sqlHosts s)"
  shows "\<exists>s'. handlerSQLNodeOffline h s = (s', None) \<and> cqStoreInv s' \<and> leasesExact s'
    \<and> cqNames s' = cqNames s \<and> set (sqlHosts s') = set (sqlHosts s) - {h}
    \<and> heartbeats s' = filter (\<lambda>(g, _). g \<noteq> h) (heartbeats s)"
proof -
  have so: "sorted (sqlHosts s)" "distinct (sqlHosts s)" "distinct (map fst (heartbeats s))"
    using assms(1) by (simp_all add: cqStoreInv_def)
  have del: "delFirst (\<lambda>(g, _). g = h) (heartbeats s) = filter (\<lambda>(g, _). g \<noteq> h) (heartbeats s)"
    using delFirst_name [OF so(3), of h] by (simp add: case_prod_unfold)
  let ?s = "s\<lparr>cqLease := AList.delete h (cqLease s), sqlHosts := remove1 h (sqlHosts s),
    heartbeats := filter (\<lambda>(g, _). g \<noteq> h) (heartbeats s)\<rparr>"
  have r: "handlerSQLNodeOffline h s = scheduleCQsWithoutLock ?s"
    using removeAt_member [OF so(1,2) assms(2)] so(1) by (simp add: handlerSQLNodeOffline_def sorted_sort_id del)
  have "fst ` set (filter (\<lambda>(g, _). g \<noteq> h) (heartbeats s)) = fst ` set (heartbeats s) - {h}" by (rule filter_keys)
  moreover have "fst ` set (AList.delete h (cqLease s)) = fst ` set (cqLease s) - {h}"
    by (metis delete_keys set_map set_removeAll)
  moreover have "distinct (map fst (filter (\<lambda>(g, _). g \<noteq> h) (heartbeats s)))" using so(3) by (simp add: distinct_map_filter)
  ultimately have "cqStoreInv ?s"
    using assms(1) so(2) by (simp add: cqStoreInv_def sorted_remove1)
  then show ?thesis using schedule_exact [of ?s] so(2) unfolding r by auto
qed

lemma handlerSql2MetaHeartbeat_inv:
  assumes "cqStoreInv s" "leasesExact s"
  shows "\<exists>s' b. handlerSql2MetaHeartbeat True now host s = (s', None, b) \<and> cqStoreInv s' \<and> leasesExact s'
    \<and> cqNames s' = cqNames s \<and> set (sqlHosts s') = insert host (set (sqlHosts s))
    \<and> heartbeats s' = filter (\<lambda>(h, _). h \<noteq> host) (heartbeats s) @ [(host, now)]"
proof (cases "map_of (cqLease s) host = None")
  case False
  then have "host \<in> fst ` set (heartbeats s)" using assms(1) by (simp add: cqStoreInv_def map_of_eq_None_iff)
  moreover have "fst ` set (filter (\<lambda>(h, _). h \<noteq> host) (heartbeats s)) = fst ` set (heartbeats s) - {host}" by (rule filter_keys)
  moreover have "distinct (map fst (filter (\<lambda>(h, _). h \<noteq> host) (heartbeats s)))"
    using assms(1) by (simp add: cqStoreInv_def distinct_map_filter)
  ultimately have "cqStoreInv (s\<lparr>heartbeats := filter (\<lambda>(h, _). h \<noteq> host) (heartbeats s) @ [(host, now)]\<rparr>)"
    using assms(1) by (auto simp: cqStoreInv_def)
  moreover have "insert host (set (sqlHosts s)) = set (sqlHosts s)"
    using \<open>host \<in> fst ` set (heartbeats s)\<close> assms(1) by (auto simp: cqStoreInv_def)
  ultimately show ?thesis using False assms(2) by (auto simp: handlerSql2MetaHeartbeat_def leasesExact_def)
next
  case True
  then have new: "host \<notin> set (sqlHosts s)" using assms(1) by (simp add: cqStoreInv_def map_of_eq_None_iff)
  then have "host \<notin> fst ` set (heartbeats s)" using assms(1) by (simp add: cqStoreInv_def)
  then have f: "filter (\<lambda>(h, _). h \<noteq> host) (heartbeats s) = heartbeats s" by (rule filter_key_absent)
  let ?s = "s\<lparr>heartbeats := heartbeats s @ [(host, now)], cqLease := AList.update host [] (cqLease s),
    sqlHosts := sort (sqlHosts s @ [host])\<rparr>"
  have "cqStoreInv ?s"
    using assms(1) new by (auto simp: cqStoreInv_def dom_update)
  then obtain s' where "scheduleCQsWithoutLock ?s = (s', None)" "cqStoreInv s'" "leasesExact s'" "cqNames s' = cqNames s"
      "sqlHosts s' = sort (sqlHosts s @ [host])" "heartbeats s' = heartbeats s @ [(host, now)]"
    using schedule_exact [of ?s] by auto
  then show ?thesis using True f by (auto simp: handlerSql2MetaHeartbeat_def)
qed

definition late :: "time \<Rightarrow> string \<times> time \<Rightarrow> bool" where
  "late now hb \<longleftrightarrow> heartbeatToleranceDuration < now - snd hb"

lemma offlineLoop_exact:
  assumes "cqStoreInv s" "leasesExact s" "sorted (map snd (heartbeats s))" "length (heartbeats s) \<le> fuel"
  shows "\<exists>s'. offlineLoop fuel now s = (s', None) \<and> cqStoreInv s' \<and> leasesExact s' \<and> cqNames s' = cqNames s
    \<and> heartbeats s' = filter (\<lambda>hb. \<not> late now hb) (heartbeats s)"
  using assms
proof (induction fuel arbitrary: s)
  case 0
  then show ?case by auto
next
  case (Suc fuel)
  show ?case
  proof (cases "heartbeats s")
    case Nil
    then show ?thesis using Suc.prems by simp
  next
    case (Cons p hbs)
    obtain h t where p: "p = (h, t)" by fastforce
    show ?thesis
    proof (cases "late now p")
      case False
      have "\<not> late now q" if "q \<in> set (heartbeats s)" for q
        using that False Suc.prems(3) Cons by (auto simp: late_def)
      then have "filter (\<lambda>hb. \<not> late now hb) (heartbeats s) = heartbeats s" by (simp add: filter_id_conv)
      moreover have "offlineLoop (Suc fuel) now s = (s, None)" using False Cons p by (simp add: late_def)
      ultimately show ?thesis using Suc.prems(1,2) by simp
    next
      case True
      have "h \<in> set (sqlHosts s)" using Suc.prems(1) Cons p by (force simp: cqStoreInv_def)
      then obtain s1 where s1: "handlerSQLNodeOffline h s = (s1, None)" "cqStoreInv s1" "leasesExact s1"
          "cqNames s1 = cqNames s" "heartbeats s1 = filter (\<lambda>(g, _). g \<noteq> h) (heartbeats s)"
        using handlerSQLNodeOffline_inv [OF Suc.prems(1)] by blast
      have "h \<notin> fst ` set hbs" using Suc.prems(1) Cons p by (simp add: cqStoreInv_def)
      then have "filter (\<lambda>(g, _). g \<noteq> h) hbs = hbs" by (rule filter_key_absent)
      then have hb: "heartbeats s1 = hbs" using s1(5) Cons p by simp
      obtain s' where "offlineLoop fuel now s1 = (s', None)" "cqStoreInv s'" "leasesExact s'" "cqNames s' = cqNames s"
          "heartbeats s' = filter (\<lambda>hb. \<not> late now hb) hbs"
        using Suc.IH [OF s1(2,3)] hb s1(4) Suc.prems(3,4) Cons by auto
      then show ?thesis using s1(1) True Cons p by (auto simp: late_def)
    qed
  qed
qed

text \<open>C28: As long as there is a continuous query, the periodic check takes exactly those SQL nodes out whose last
  heartbeat is more than five seconds old, never fails, and hands the queries to the remaining nodes: each query then
  belongs to the lease of exactly one live node and the leases of two nodes differ by at most one query.\<close>

theorem checkSQLNodesHeartbeat_exact:
  assumes "cqStoreInv s" "leasesExact s" "sorted (map snd (heartbeats s))"
    and "\<exists>(k, db) \<in> set (Databases d). db_ContinuousQueries db \<noteq> []"
  shows "\<exists>s'. checkSQLNodesHeartbeat True now d s = (s', None) \<and> cqNames s' = cqNames s
    \<and> set (sqlHosts s') = {h. \<exists>t. (h, t) \<in> set (heartbeats s) \<and> now - t \<le> heartbeatToleranceDuration}
    \<and> (sqlHosts s' \<noteq> [] \<longrightarrow> (\<forall>cq \<in> set (cqNames s). \<exists>!h. \<exists>names. map_of (cqLease s') h = Some names \<and> cq \<in> set names))
    \<and> (\<forall>h1 h2 n1 n2. cqNames s \<noteq> [] \<longrightarrow> map_of (cqLease s') h1 = Some n1 \<longrightarrow> map_of (cqLease s') h2 = Some n2 \<longrightarrow>
         length n1 \<le> length n2 + 1)"
proof -
  obtain s' where s': "offlineLoop (length (heartbeats s)) now s = (s', None)" "cqStoreInv s'" "leasesExact s'"
      "cqNames s' = cqNames s" "heartbeats s' = filter (\<lambda>hb. \<not> late now hb) (heartbeats s)"
    using offlineLoop_exact [OF assms(1-3) le_refl, of now] by blast
  have "set (sqlHosts s') = fst ` set (heartbeats s')" using s'(2) by (simp add: cqStoreInv_def)
  then have "set (sqlHosts s') = {h. \<exists>t. (h, t) \<in> set (heartbeats s) \<and> now - t \<le> heartbeatToleranceDuration}"
    by (force simp: s'(5) late_def not_less)
  moreover have "checkSQLNodesHeartbeat True now d s = (s', None)" using assms(4) s'(1) by (simp add: checkSQLNodesHeartbeat_def)
  ultimately show ?thesis using s'(4) leases_unique [OF s'(2,3)] leases_even [OF s'(2,3)] by auto
qed

definition exampleStore :: CqStore where
  "exampleStore = \<lparr>cqNames = [''a'', ''b''], sqlHosts = [''h1'', ''h2''],
     cqLease = [(''h1'', [''a'']), (''h2'', [''b''])], heartbeats = [(''h1'', 0), (''h2'', 9000000000)]\<rparr>"

definition cqData :: "string Data" where
  "cqData = zeroData\<lparr>Databases := [(''db'', (NewDatabase ''db'')\<lparr>db_ContinuousQueries :=
     [(''a'', \<lparr>cq_Name = ''a'', cq_Query = [], cq_LastRunTime = 0\<rparr>)]\<rparr>)]\<rparr>"

lemma exampleStore_recent:
  "{h. \<exists>t. (h, t) \<in> set (heartbeats exampleStore) \<and> 10000000000 - t \<le> heartbeatToleranceDuration} = {''h2''}"
  by (auto simp: exampleStore_def heartbeatToleranceDuration_def)

theorem checkSQLNodesHeartbeat_exact_witness:
  "\<exists>s'. checkSQLNodesHeartbeat True 10000000000 cqData exampleStore = (s', None) \<and> set (sqlHosts s') = {''h2''}
     \<and> (\<exists>!h. \<exists>names. map_of (cqLease s') h = Some names \<and> ''a'' \<in> set names)"
proof -
  have i: "cqStoreInv exampleStore" by (auto simp: cqStoreInv_def exampleStore_def mwf_def)
  have l: "leasesExact exampleStore"
    by (simp add: leasesExact_def exampleStore_def leaseOf_def less_Suc_eq numeral_2_eq_2)
  have t: "sorted (map snd (heartbeats exampleStore))" by (simp add: exampleStore_def)
  have c: "\<exists>(k, db) \<in> set (Databases cqData). db_ContinuousQueries db \<noteq> []" by (simp add: cqData_def)
  obtain s' where s': "checkSQLNodesHeartbeat True 10000000000 cqData exampleStore = (s', None)"
      "set (sqlHosts s') = {h. \<exists>t. (h, t) \<in> set (heartbeats exampleStore) \<and> 10000000000 - t \<le> heartbeatToleranceDuration}"
      "sqlHosts s' \<noteq> [] \<longrightarrow> (\<forall>cq \<in> set (cqNames exampleStore). \<exists>!h. \<exists>names. map_of (cqLease s') h = Some names \<and> cq \<in> set names)"
    using checkSQLNodesHeartbeat_exact [OF i l t c, of 10000000000] by (elim exE conjE) (rule that; assumption)
  have h: "set (sqlHosts s') = {''h2''}"
    unfolding s'(2) by (rule exampleStore_recent)
  have ne: "sqlHosts s' \<noteq> []" using h by (metis empty_set insert_not_empty)
  have "''a'' \<in> set (cqNames exampleStore)" by (simp add: exampleStore_def)
  then have "\<exists>!h. \<exists>names. map_of (cqLease s') h = Some names \<and> ''a'' \<in> set names" by (rule bspec [OF mp [OF s'(3) ne]])
  then show ?thesis by (intro exI [of _ s'] conjI s'(1) h)
qed

lemma searchStrings_small: "searchStrings [] x = 0" "searchStrings [x] x = 0"
proof -
  show "searchStrings [] x = 0" by (simp add: searchStrings_def sortSearch_def searchLoop.simps [of _ 0 0])
  have "searchLoop (\<lambda>i. x \<le> [x] ! i) 0 1 = 0"
    by (subst searchLoop.simps) (simp add: searchLoop.simps [of _ 0 0])
  then show "searchStrings [x] x = 0" by (simp add: searchStrings_def sortSearch_def)
qed

definition oneHost :: "string list \<Rightarrow> string list \<Rightarrow> CqStore" where
  "oneHost names lease = \<lparr>cqNames = names, sqlHosts = [''h''], cqLease = [(''h'', lease)], heartbeats = [(''h'', 0)]\<rparr>"


section \<open>The lock held while the change is replicated\<close>

text \<open>
  \<open>handlerSql2MetaHeartbeat\<close> takes \<open>cqLock\<close>, proposes the command \<open>NotifyCQLeaseChanged\<close> and waits,
  still holding the lock, until the state machine has applied it. The state machine applies the log in order;
  applying the creation or deletion of a continuous query takes \<open>cqLock\<close>. The log is the one of the replication
  library: entries are applied one after the other, and a proposal returns when its entry has been applied.
\<close>

datatype Entry = CqEntry | NotifyEntry | OtherEntry
datatype Handler = HIdle | HHolds | HWaits
datatype Applier = AIdle | AWantsLock | AHolds

record Sys =
  log :: "Entry list"
  handler :: Handler
  applier :: Applier

definition lockFree :: "Sys \<Rightarrow> bool" where
  "lockFree s \<longleftrightarrow> handler s = HIdle \<and> applier s \<noteq> AHolds"

inductive sysStep :: "Sys \<Rightarrow> Sys \<Rightarrow> bool" where
  propose: "e \<noteq> NotifyEntry \<Longrightarrow> sysStep s (s\<lparr>log := log s @ [e]\<rparr>)"
| heartbeat: "lockFree s \<Longrightarrow> sysStep s (s\<lparr>handler := HHolds\<rparr>)"
| notify: "handler s = HHolds \<Longrightarrow> sysStep s (s\<lparr>handler := HWaits, log := log s @ [NotifyEntry]\<rparr>)"
| applyOther: "applier s = AIdle \<Longrightarrow> log s = OtherEntry # es \<Longrightarrow> sysStep s (s\<lparr>log := es\<rparr>)"
| applyNotify: "applier s = AIdle \<Longrightarrow> log s = NotifyEntry # es \<Longrightarrow> sysStep s (s\<lparr>log := es, handler := HIdle\<rparr>)"
| applyCq: "applier s = AIdle \<Longrightarrow> log s = CqEntry # es \<Longrightarrow> sysStep s (s\<lparr>log := es, applier := AWantsLock\<rparr>)"
| acquire: "applier s = AWantsLock \<Longrightarrow> lockFree s \<Longrightarrow> sysStep s (s\<lparr>applier := AHolds\<rparr>)"
| release: "applier s = AHolds \<Longrightarrow> sysStep s (s\<lparr>applier := AIdle\<rparr>)"

inductive_cases sysStepE: "sysStep s t"

definition initSys :: Sys where
  "initSys = \<lparr>log = [], handler = HIdle, applier = AIdle\<rparr>"

definition stuck :: "Sys \<Rightarrow> bool" where
  "stuck s \<longleftrightarrow> handler s = HWaits \<and> applier s = AWantsLock"

lemma stuck_step: "sysStep s t \<Longrightarrow> stuck s \<Longrightarrow> stuck t"
  by (auto simp: stuck_def lockFree_def elim: sysStepE)

lemma stuck_forever: "sysStep\<^sup>*\<^sup>* s t \<Longrightarrow> stuck s \<Longrightarrow> stuck t"
  by (induction rule: rtranclp_induct) (auto intro: stuck_step)

lemma stuck_reachable: "\<exists>s. sysStep\<^sup>*\<^sup>* initSys s \<and> stuck s"
proof -
  let ?s1 = "\<lparr>log = [], handler = HHolds, applier = AIdle\<rparr>"
  let ?s2 = "\<lparr>log = [CqEntry], handler = HHolds, applier = AIdle\<rparr>"
  let ?s3 = "\<lparr>log = [CqEntry, NotifyEntry], handler = HWaits, applier = AIdle\<rparr>"
  let ?s4 = "\<lparr>log = [NotifyEntry], handler = HWaits, applier = AWantsLock\<rparr>"
  have "sysStep initSys ?s1" using sysStep.heartbeat [of initSys] by (simp add: initSys_def lockFree_def)
  moreover have "sysStep ?s1 ?s2" using sysStep.propose [of CqEntry ?s1] by simp
  moreover have "sysStep ?s2 ?s3" using sysStep.notify [of ?s2] by simp
  moreover have "sysStep ?s3 ?s4" using sysStep.applyCq [of ?s3] by simp
  ultimately have "sysStep\<^sup>*\<^sup>* initSys ?s4" by (meson rtranclp.rtrancl_into_rtrancl rtranclp.rtrancl_refl)
  then show ?thesis by (auto simp: stuck_def)
qed



end
