(* ===== verification/MetaApply.thy ===== *)
theory MetaApply
  imports MetaNodes MetaPrune MetaMst MetaCQ
begin

text \<open>
  The functions of \<open>lib/util/lifted/influx/meta/apply_func_base.go\<close>: each takes the fields of a decoded
  command and calls the operation of the state. The decoding of the protobuf bytes is not modelled; a field
  that the message leaves out has the zero value its getter returns, and an optional message is an option.
  Messages whose structure is the one of the Go struct (shard keys, streams, options) are given as that struct.
\<close>

text \<open>The part of the message \<open>RetentionPolicyInfo\<close> that the commands read.\<close>

record RpMsg =
  rm_Name :: string
  rm_ReplicaN :: nat
  rm_Duration :: int
  rm_ShardGroupDuration :: int
  rm_HotDuration :: int
  rm_WarmDuration :: int
  rm_IndexGroupDuration :: int

definition rpOfMsg :: "RpMsg \<Rightarrow> RetentionPolicyInfo" where
  "rpOfMsg pb = (NewRetentionPolicyInfo (rm_Name pb))\<lparr>rp_ReplicaN := int (rm_ReplicaN pb),
     rp_Duration := rm_Duration pb, rp_ShardGroupDuration := rm_ShardGroupDuration pb,
     rp_HotDuration := rm_HotDuration pb, rp_WarmDuration := rm_WarmDuration pb,
     rp_IndexGroupDuration := rm_IndexGroupDuration pb\<rparr>"

section \<open>Databases and retention policies\<close>

definition ApplyCreateRetentionPolicy :: "string \<Rightarrow> RpMsg \<Rightarrow> bool \<Rightarrow> 'c Data \<Rightarrow> 'c Data \<times> err option" where
  "ApplyCreateRetentionPolicy database pb defaultRP data =
     CreateRetentionPolicy database (Some (rpOfMsg pb)) defaultRP data"

definition ApplyDropRetentionPolicy :: "string \<Rightarrow> string \<Rightarrow> 'c Data \<Rightarrow> 'c Data \<times> err option" where
  "ApplyDropRetentionPolicy database name data = DropRetentionPolicy database name data"

definition ApplySetDefaultRetentionPolicy :: "string \<Rightarrow> string \<Rightarrow> 'c Data \<Rightarrow> 'c Data \<times> err option" where
  "ApplySetDefaultRetentionPolicy database name data = SetDefaultRetentionPolicy database name data"

record RpUpdateMsg =
  um_NewName :: "string option"
  um_Duration :: "int option"
  um_ReplicaN :: "nat option"
  um_ShardGroupDuration :: "int option"
  um_HotDuration :: "int option"
  um_WarmDuration :: "int option"
  um_IndexGroupDuration :: "int option"

definition ApplyUpdateRetentionPolicy ::
  "string \<Rightarrow> string \<Rightarrow> RpUpdateMsg \<Rightarrow> bool \<Rightarrow> 'c Data \<Rightarrow> 'c Data \<times> err option" where
  "ApplyUpdateRetentionPolicy database name v makeDefault data =
     UpdateRetentionPolicy database name
       \<lparr>rpu_Name = um_NewName v, rpu_Duration = um_Duration v, rpu_ReplicaN = map_option int (um_ReplicaN v),
        rpu_ShardGroupDuration = um_ShardGroupDuration v, rpu_HotDuration = um_HotDuration v,
        rpu_WarmDuration = um_WarmDuration v, rpu_IndexGroupDuration = um_IndexGroupDuration v\<rparr> makeDefault data"

definition ApplyMarkDatabaseDelete :: "string \<Rightarrow> 'c Data \<Rightarrow> 'c Data \<times> err option" where
  "ApplyMarkDatabaseDelete name data = MarkDatabaseDelete name data"

definition ApplyMarkRetentionPolicyDelete :: "string \<Rightarrow> string \<Rightarrow> 'c Data \<Rightarrow> 'c Data \<times> err option" where
  "ApplyMarkRetentionPolicyDelete database name data = MarkRetentionPolicyDelete database name data"

definition ApplyCreateSubscription ::
  "string \<Rightarrow> string \<Rightarrow> string \<Rightarrow> string \<Rightarrow> string list \<Rightarrow> 'c Data \<Rightarrow> 'c Data \<times> err option" where
  "ApplyCreateSubscription database rp name mode destinations data =
     CreateSubscription database rp name mode destinations data"

definition ApplyDropSubscription :: "string \<Rightarrow> string \<Rightarrow> string \<Rightarrow> 'c Data \<Rightarrow> 'c Data \<times> err option" where
  "ApplyDropSubscription database rp name data = DropSubscription database rp name data"

section \<open>Shard groups and measurements\<close>

definition ApplyCreateShardGroup ::
  "Env \<Rightarrow> string \<Rightarrow> string \<Rightarrow> int \<Rightarrow> nat \<Rightarrow> nat \<Rightarrow> nat \<Rightarrow> 'c Data \<Rightarrow> 'c Data \<times> err option" where
  "ApplyCreateShardGroup env database policy timestamp shardTier engineType version data =
     CreateShardGroup env database policy timestamp shardTier engineType version data"

definition ApplyDeleteShardGroup ::
  "time \<Rightarrow> string \<Rightarrow> string \<Rightarrow> nat \<Rightarrow> int \<Rightarrow> int \<Rightarrow> 'c Data \<Rightarrow> 'c Data \<times> err option" where
  "ApplyDeleteShardGroup now database policy shardGroupID deletedAt deleteType data =
     DeleteShardGroup now database policy shardGroupID deletedAt deleteType data"

definition ApplyDeleteIndexGroup :: "time \<Rightarrow> string \<Rightarrow> string \<Rightarrow> nat \<Rightarrow> 'c Data \<Rightarrow> 'c Data \<times> err option" where
  "ApplyDeleteIndexGroup now database policy indexGroupID data = DeleteIndexGroup now database policy indexGroupID data"

definition ApplyPruneGroups :: "Env \<Rightarrow> bool \<Rightarrow> nat \<Rightarrow> 'c Data \<Rightarrow> 'c Data \<times> err option" where
  "ApplyPruneGroups env shardGroup i data = PruneGroups env shardGroup i data"

definition ApplyReSharding :: "string \<Rightarrow> string \<Rightarrow> nat \<Rightarrow> int \<Rightarrow> string list \<Rightarrow> 'c Data \<Rightarrow> 'c Data \<times> err option" where
  "ApplyReSharding database rpName shardGroupID splitTime shardBounds data =
     ReSharding \<lparr>rs_Database = database, rs_Rp = rpName, rs_ShardGroupID = shardGroupID, rs_SplitTime = splitTime,
       rs_Bounds = shardBounds\<rparr> data"

definition ApplyUpdateShardInfoTier :: "nat \<Rightarrow> nat \<Rightarrow> string \<Rightarrow> string \<Rightarrow> 'c Data \<Rightarrow> 'c Data \<times> err option" where
  "ApplyUpdateShardInfoTier shardID tier dbName rpName data = UpdateShardInfoTier shardID tier dbName rpName data"

definition ApplyUpdateShardDownSampleInfo :: "ShardIdentifier \<Rightarrow> 'c Data \<Rightarrow> 'c Data \<times> err option" where
  "ApplyUpdateShardDownSampleInfo ident data = UpdateShardDownSampleInfo ident data"

definition ApplyCreateMeasurement ::
  "Env \<Rightarrow> string \<Rightarrow> string \<Rightarrow> string \<Rightarrow> ShardKeyInfo option \<Rightarrow> int \<Rightarrow> IndexRelation option \<Rightarrow> nat
     \<Rightarrow> ColStoreInfo option \<Rightarrow> FieldSchema list \<Rightarrow> Options option \<Rightarrow> 'c Data \<Rightarrow> 'c Data \<times> err option" where
  "ApplyCreateMeasurement env dbName rpName name ski initNumOfShards ir engineType colStoreInfo schemaInfo options data =
     CreateMeasurement env dbName rpName name ski initNumOfShards ir engineType colStoreInfo schemaInfo options data"

definition ApplyUpdateSchema ::
  "Env \<Rightarrow> string \<Rightarrow> string \<Rightarrow> string \<Rightarrow> FieldSchema list \<Rightarrow> 'c Data \<Rightarrow> 'c Data \<times> err option" where
  "ApplyUpdateSchema env database rpName measurement fieldToCreate data =
     UpdateSchema env database rpName measurement fieldToCreate data"

definition ApplyAlterShardKey ::
  "string \<Rightarrow> string \<Rightarrow> string \<Rightarrow> ShardKeyInfo option \<Rightarrow> 'c Data \<Rightarrow> 'c Data \<times> err option" where
  "ApplyAlterShardKey dbName rpName name ski data = AlterShardKey dbName rpName name ski data"

definition ApplyMarkMeasurementDelete :: "string \<Rightarrow> string \<Rightarrow> string \<Rightarrow> 'c Data \<Rightarrow> 'c Data \<times> err option" where
  "ApplyMarkMeasurementDelete database policy measurement data = MarkMeasurementDelete database policy measurement data"

definition ApplyDropMeasurement :: "string \<Rightarrow> string \<Rightarrow> string \<Rightarrow> 'c Data \<Rightarrow> 'c Data \<times> err option" where
  "ApplyDropMeasurement database policy measurement data = DropMeasurement database policy measurement data"

definition ApplyUpdateMeasurement :: "string \<Rightarrow> string \<Rightarrow> string \<Rightarrow> Options \<Rightarrow> 'c Data \<Rightarrow> 'c Data \<times> err option" where
  "ApplyUpdateMeasurement db rp mst options data = UpdateMeasurement db rp mst options data"

section \<open>Users\<close>

definition ApplyCreateUser :: "string \<Rightarrow> string \<Rightarrow> bool \<Rightarrow> bool \<Rightarrow> 'c Data \<Rightarrow> 'c Data \<times> err option" where
  "ApplyCreateUser name hash admin rwUser data = CreateUser name hash admin rwUser data"

definition ApplyDropUser :: "string \<Rightarrow> 'c Data \<Rightarrow> 'c Data \<times> err option" where
  "ApplyDropUser name data = DropUser name data"

definition ApplyUpdateUser :: "string \<Rightarrow> string \<Rightarrow> 'c Data \<Rightarrow> 'c Data \<times> err option" where
  "ApplyUpdateUser name hash data = UpdateUser name hash data"

definition ApplySetPrivilege :: "string \<Rightarrow> string \<Rightarrow> int \<Rightarrow> 'c Data \<Rightarrow> 'c Data \<times> err option" where
  "ApplySetPrivilege username database privilege data = SetPrivilege username database privilege data"

definition ApplySetAdminPrivilege :: "string \<Rightarrow> bool \<Rightarrow> 'c Data \<Rightarrow> 'c Data \<times> err option" where
  "ApplySetAdminPrivilege username admin data = SetAdminPrivilege username admin data"

section \<open>Nodes and partitions\<close>

definition ApplyCreateMetaNode :: "string \<Rightarrow> string \<Rightarrow> string \<Rightarrow> nat \<Rightarrow> 'c Data \<Rightarrow> 'c Data \<times> err option" where
  "ApplyCreateMetaNode httpAddr rpcAddr tcpAddr rand data =
     (case CreateMetaNode httpAddr rpcAddr tcpAddr data of
        (data', Some e) \<Rightarrow> (data', Some e)
      | (data', None) \<Rightarrow> (data'\<lparr>ClusterID := rand\<rparr>, None))"

definition ApplySetMetaNode :: "string \<Rightarrow> string \<Rightarrow> string \<Rightarrow> nat \<Rightarrow> 'c Data \<Rightarrow> 'c Data \<times> err option" where
  "ApplySetMetaNode httpAddr rpcAddr tcpAddr rand data =
     (case SetMetaNode httpAddr rpcAddr tcpAddr data of
        (data', Some e) \<Rightarrow> (data', Some e)
      | (data', None) \<Rightarrow> (if ClusterID data' = 0 then data'\<lparr>ClusterID := rand\<rparr> else data', None))"

definition ApplyDeleteMetaNode :: "nat \<Rightarrow> 'c Data \<Rightarrow> 'c Data \<times> err option" where
  "ApplyDeleteMetaNode i data = DeleteMetaNode i data"

definition ApplyCreateDataNode ::
  "Env \<Rightarrow> string \<Rightarrow> string \<Rightarrow> string \<Rightarrow> string \<Rightarrow> 'c Data \<Rightarrow> 'c Data \<times> err option" where
  "ApplyCreateDataNode env httpAddr tcpAddr role az data =
     (case DataNodeByHttpHost httpAddr data of
        Some dataNode \<Rightarrow>
          if env_repDisPolicy env = AzHard \<and> az \<noteq> dn_Az dataNode then (data, Some (Err ''ErrAzChange''))
          else
            let connID = u64 (MaxConnID data + 1) in
            (data\<lparr>MaxConnID := connID,
               DataNodes := updFirst (\<lambda>n. ni_Host n = httpAddr) (\<lambda>n. n\<lparr>dn_ConnID := connID\<rparr>) (DataNodes data)\<rparr>, None)
      | None \<Rightarrow>
          (case CreateDataNode env httpAddr tcpAddr role az data of
             (data', Inl e) \<Rightarrow> (data', Some e)
           | (data', Inr _) \<Rightarrow> (data', None)))"

definition DeleteDataNode :: "nat \<Rightarrow> 'c Data \<Rightarrow> 'c Data \<times> err option" where
  "DeleteDataNode i data = (data, None)"

definition ApplyDeleteDataNode :: "nat \<Rightarrow> 'c Data \<Rightarrow> 'c Data \<times> err option" where
  "ApplyDeleteDataNode i data = DeleteDataNode i data"

definition ApplyUpdateNodeStatus :: "Env \<Rightarrow> nat \<Rightarrow> int \<Rightarrow> nat \<Rightarrow> string \<Rightarrow> 'c Data \<Rightarrow> 'c Data \<times> err option" where
  "ApplyUpdateNodeStatus env i status ltime gossipAddr data = UpdateNodeStatus env i status ltime gossipAddr data"

text \<open>An error that the caller discards; a panic cannot be discarded.\<close>

fun isPanic :: "err option \<Rightarrow> bool" where
  "isPanic (Some (Panic _)) = True"
| "isPanic _ = False"

definition discardErr :: "'c Data \<times> err option \<Rightarrow> 'c Data \<times> err option" where
  "discardErr r = (fst r, if isPanic (snd r) then snd r else None)"

definition ApplySetNodeSegregateStatus :: "nat list \<Rightarrow> nat list \<Rightarrow> 'c Data \<Rightarrow> 'c Data \<times> err option" where
  "ApplySetNodeSegregateStatus status nodeIds data = discardErr (SetSegregateNodeStatus status nodeIds data)"

definition ApplyRemoveNode :: "nat list \<Rightarrow> 'c Data \<Rightarrow> 'c Data \<times> err option" where
  "ApplyRemoveNode nodeIds data = (RemoveNode nodeIds data, None)"

definition ApplyUpdatePtInfo :: "Env \<Rightarrow> string \<Rightarrow> PtInfo \<Rightarrow> nat \<Rightarrow> nat \<Rightarrow> 'c Data \<Rightarrow> 'c Data \<times> err option" where
  "ApplyUpdatePtInfo env db pt ownerNode status data = UpdatePtInfo env db pt ownerNode status data"

definition ApplyCreateDbPtViewCommand :: "Env \<Rightarrow> string \<Rightarrow> nat \<Rightarrow> 'c Data \<Rightarrow> 'c Data \<times> err option" where
  "ApplyCreateDbPtViewCommand env dbName replicaNum data =
     (case CreateDBPtView env dbName data of
        (_, data', Some e) \<Rightarrow> (data', Some e)
      | (ok, data', None) \<Rightarrow> if ok then CreateDBReplication env dbName replicaNum data' else (data', None))"

definition ApplyUpdatePtVersion :: "string \<Rightarrow> nat \<Rightarrow> 'c Data \<Rightarrow> 'c Data \<times> err option" where
  "ApplyUpdatePtVersion db pt data = discardErr (UpdatePtVersion db pt data)"

definition ApplyUpdateReplication :: "string \<Rightarrow> nat \<Rightarrow> nat \<Rightarrow> Peer list \<Rightarrow> 'c Data \<Rightarrow> 'c Data \<times> err option" where
  "ApplyUpdateReplication db rgId masterId peers data = UpdateReplication db rgId masterId peers data"

section \<open>Streams, queries and down-sampling\<close>

definition DownSamplePolicyInfo_IsNil :: "DownSamplePolicyInfo \<Rightarrow> bool" where
  "DownSamplePolicyInfo_IsNil d \<longleftrightarrow> dpi_Calls d = [] \<or> dpi_DownSamplePolicies d = []"

definition ApplyCreateDownSample ::
  "string \<Rightarrow> string \<Rightarrow> DownSamplePolicyInfo \<Rightarrow> 'c Data \<Rightarrow> 'c Data \<times> err option" where
  "ApplyCreateDownSample database name rpi data =
     CreateDownSamplePolicy database name (if DownSamplePolicyInfo_IsNil rpi then None else Some rpi) data"

definition ApplyDropDownSample :: "string \<Rightarrow> string \<Rightarrow> bool \<Rightarrow> 'c Data \<Rightarrow> 'c Data \<times> err option" where
  "ApplyDropDownSample database rpName dropAll data = discardErr (DropDownSamplePolicy database rpName dropAll data)"

definition ApplyCreateStream :: "StreamInfo \<Rightarrow> 'c Data \<Rightarrow> 'c Data \<times> err option" where
  "ApplyCreateStream info data = CreateStream (Some info) data"

definition ApplyDropStream :: "string \<Rightarrow> 'c Data \<Rightarrow> 'c Data \<times> err option" where
  "ApplyDropStream name data = DropStream name data"

definition ApplyRegisterQueryIDOffset :: "string \<Rightarrow> 'c Data \<Rightarrow> 'c Data \<times> err option" where
  "ApplyRegisterQueryIDOffset host data = RegisterQueryIDOffset host data"

definition ApplyContinuousQueryReport :: "(string \<times> int) list \<Rightarrow> 'c Data \<Rightarrow> 'c Data \<times> err option" where
  "ApplyContinuousQueryReport cqStates data = BatchUpdateContinuousQueryStat cqStates data"

end
