(* ===== verification/MetaOverlay.thy ===== *)
theory MetaOverlay
  imports MetaOps MetaApply
begin

text \<open>
  Parts of the state that the operations of the catalogue neither read nor change: the term and the index of
  the replicated log, the operation log, the counters of migration events and of query changes, the balancer
  switch and the index that each node has reported. An overlay replaces those parts; every operation commutes
  with it. The locale proves this once for all operations.
\<close>

definition reindex :: "(nat \<Rightarrow> nat) \<Rightarrow> DataNode \<Rightarrow> DataNode" where
  "reindex ix n = n\<lparr>dn_Index := ix (dn_Index n)\<rparr>"

lemma reindex_sel [simp]:
  "ni_ID (reindex ix n) = ni_ID n" "ni_Host (reindex ix n) = ni_Host n" "ni_RPCAddr (reindex ix n) = ni_RPCAddr n"
  "ni_TCPHost (reindex ix n) = ni_TCPHost n" "ni_Status (reindex ix n) = ni_Status n"
  "ni_LTime (reindex ix n) = ni_LTime n" "ni_GossipAddr (reindex ix n) = ni_GossipAddr n"
  "ni_SegregateStatus (reindex ix n) = ni_SegregateStatus n" "ni_Role (reindex ix n) = ni_Role n"
  "dn_ConnID (reindex ix n) = dn_ConnID n" "dn_AliveConnID (reindex ix n) = dn_AliveConnID n"
  "dn_Az (reindex ix n) = dn_Az n"
  by (simp_all add: reindex_def)

lemma reindex_upd [simp]:
  "ni_Status_update f (reindex ix n) = reindex ix (ni_Status_update f n)"
  "ni_LTime_update g (reindex ix n) = reindex ix (ni_LTime_update g n)"
  "ni_GossipAddr_update a (reindex ix n) = reindex ix (ni_GossipAddr_update a n)"
  "ni_SegregateStatus_update g (reindex ix n) = reindex ix (ni_SegregateStatus_update g n)"
  "dn_ConnID_update g (reindex ix n) = reindex ix (dn_ConnID_update g n)"
  "dn_AliveConnID_update g (reindex ix n) = reindex ix (dn_AliveConnID_update g n)"
  by (simp_all add: reindex_def)

lemma reindex_same: "reindex (\<lambda>i. i) = (\<lambda>n. n)"
  by (simp add: reindex_def fun_eq_iff)

lemma find_reindex:
  "(\<And>n. p (reindex ix n) = p n) \<Longrightarrow> find p (map (reindex ix) ns) = map_option (reindex ix) (find p ns)"
  by (induction ns) auto

lemma updFirst_reindex:
  "(\<And>n. p (reindex ix n) = p n) \<Longrightarrow> (\<And>n. g (reindex ix n) = reindex ix (f n)) \<Longrightarrow>
     updFirst p g (map (reindex ix) ns) = map (reindex ix) (updFirst p f ns)"
  by (induction ns) auto

lemma sort_key_reindex: "sort_key ni_ID (map (reindex ix) ns) = map (reindex ix) (sort_key ni_ID ns)"
proof -
  have "insort_key ni_ID (reindex ix n) (map (reindex ix) ms) = map (reindex ix) (insort_key ni_ID n ms)" for n ms
    by (induction ms) auto
  then show ?thesis by (induction ns) auto
qed

lemma segregateLoop_reindex:
  "segregateLoop st is (map (reindex ix) ns) = map_sum id (map (reindex ix)) (segregateLoop st is ns)"
proof (induction st "is" ns rule: segregateLoop.induct)
  case (3 s st i "is" ns)
  then show ?case
    using updFirst_reindex [of "\<lambda>n. ni_ID n = i" ix "\<lambda>n. n\<lparr>ni_SegregateStatus := s\<rparr>" "\<lambda>n. n\<lparr>ni_SegregateStatus := s\<rparr>" ns]
    by simp
qed auto

definition relay :: "('a \<Rightarrow> 'b) \<Rightarrow> 'a \<times> 'e \<Rightarrow> 'b \<times> 'e" where
  "relay f r = (f (fst r), snd r)"

lemma relay_Pair [simp]: "relay f (d, e) = (f d, e)"
  by (simp add: relay_def)

lemma relay_if: "relay f (if b then x else y) = (if b then relay f x else relay f y)"
  by simp

named_theorems overlaid

locale overlay =
  fixes h :: "'c Data \<Rightarrow> 'c Data" and ix :: "nat \<Rightarrow> nat"
  assumes sel:
      "\<And>d. ClusterID (h d) = ClusterID d" "\<And>d. ClusterPtNum (h d) = ClusterPtNum d"
      "\<And>d. PtNumPerNode (h d) = PtNumPerNode d" "\<And>d. NumOfShards (h d) = NumOfShards d"
      "\<And>d. MetaNodes (h d) = MetaNodes d" "\<And>d. PtView (h d) = PtView d"
      "\<And>d. ReplicaGroups (h d) = ReplicaGroups d" "\<And>d. Databases (h d) = Databases d"
      "\<And>d. Streams (h d) = Streams d" "\<And>d. Users (h d) = Users d"
      "\<And>d. QueryIDInit (h d) = QueryIDInit d" "\<And>d. AdminUserExists (h d) = AdminUserExists d"
      "\<And>d. TakeOverEnabled (h d) = TakeOverEnabled d" "\<And>d. ExpandShardsEnable (h d) = ExpandShardsEnable d"
      "\<And>d. MaxNodeID (h d) = MaxNodeID d" "\<And>d. MaxShardGroupID (h d) = MaxShardGroupID d"
      "\<And>d. MaxShardID (h d) = MaxShardID d" "\<And>d. MaxMstID (h d) = MaxMstID d"
      "\<And>d. MaxIndexGroupID (h d) = MaxIndexGroupID d" "\<And>d. MaxIndexID (h d) = MaxIndexID d"
      "\<And>d. MaxDownSampleID (h d) = MaxDownSampleID d" "\<And>d. MaxStreamID (h d) = MaxStreamID d"
      "\<And>d. MaxConnID (h d) = MaxConnID d" "\<And>d. MaxSubscriptionID (h d) = MaxSubscriptionID d"
    and upd:
      "\<And>f d. ClusterID_update f (h d) = h (ClusterID_update f d)"
      "\<And>f d. ClusterPtNum_update f (h d) = h (ClusterPtNum_update f d)"
      "\<And>f d. PtNumPerNode_update f (h d) = h (PtNumPerNode_update f d)"
      "\<And>f d. NumOfShards_update f (h d) = h (NumOfShards_update f d)"
      "\<And>f d. MetaNodes_update f (h d) = h (MetaNodes_update f d)"
      "\<And>f d. PtView_update f (h d) = h (PtView_update f d)"
      "\<And>f d. ReplicaGroups_update f (h d) = h (ReplicaGroups_update f d)"
      "\<And>f d. Databases_update f (h d) = h (Databases_update f d)"
      "\<And>f d. Streams_update f (h d) = h (Streams_update f d)"
      "\<And>f d. Users_update f (h d) = h (Users_update f d)"
      "\<And>f d. QueryIDInit_update f (h d) = h (QueryIDInit_update f d)"
      "\<And>f d. AdminUserExists_update f (h d) = h (AdminUserExists_update f d)"
      "\<And>f d. TakeOverEnabled_update f (h d) = h (TakeOverEnabled_update f d)"
      "\<And>f d. ExpandShardsEnable_update f (h d) = h (ExpandShardsEnable_update f d)"
      "\<And>f d. MaxNodeID_update f (h d) = h (MaxNodeID_update f d)"
      "\<And>f d. MaxShardGroupID_update f (h d) = h (MaxShardGroupID_update f d)"
      "\<And>f d. MaxShardID_update f (h d) = h (MaxShardID_update f d)"
      "\<And>f d. MaxMstID_update f (h d) = h (MaxMstID_update f d)"
      "\<And>f d. MaxIndexGroupID_update f (h d) = h (MaxIndexGroupID_update f d)"
      "\<And>f d. MaxIndexID_update f (h d) = h (MaxIndexID_update f d)"
      "\<And>f d. MaxDownSampleID_update f (h d) = h (MaxDownSampleID_update f d)"
      "\<And>f d. MaxStreamID_update f (h d) = h (MaxStreamID_update f d)"
      "\<And>f d. MaxConnID_update f (h d) = h (MaxConnID_update f d)"
      "\<And>f d. MaxSubscriptionID_update f (h d) = h (MaxSubscriptionID_update f d)"
    and nodes: "\<And>d. DataNodes (h d) = map (reindex ix) (DataNodes d)" "\<And>d. SqlNodes (h d) = map (reindex ix) (SqlNodes d)"
    and updNodes: "\<And>ns d. (h d)\<lparr>DataNodes := map (reindex ix) ns\<rparr> = h (d\<lparr>DataNodes := ns\<rparr>)"
      "\<And>ns d. (h d)\<lparr>SqlNodes := map (reindex ix) ns\<rparr> = h (d\<lparr>SqlNodes := ns\<rparr>)"
    and ix0: "ix 0 = 0"
begin

lemmas hs [overlaid] = sel upd nodes updNodes

lemmas relay_cases = sum.case_distrib [of "relay h"] option.case_distrib [of "relay h"] prod.case_distrib [of "relay h"]
  list.case_distrib [of "relay h"] if_distrib [of "relay h"] relay_Pair

lemma pt_lookups [overlaid]:
  "data_DataNode i (h d) = map_option (reindex ix) (data_DataNode i d)"
  "DBPtView db (h d) = DBPtView db d" "DBRepGroups db (h d) = DBRepGroups db d" "DBReplicaN db (h d) = DBReplicaN db d"
  "GetReplicaN db (h d) = GetReplicaN db d" "GetWriteNode (h d) = map (reindex ix) (GetWriteNode d)"
  "GetAliveWriteNode (h d) = map (reindex ix) (GetAliveWriteNode d)" "GetWriteNodeNum (h d) = GetWriteNodeNum d"
  "GetPtInfo db i (h d) = GetPtInfo db i d" "GetRGOfPtFast i db (h d) = GetRGOfPtFast i db d"
  "getNodeStatus i (h d) = getNodeStatus i d"
proof -
  have f: "find (\<lambda>n. ni_ID n = i) (map (reindex ix) ns) = map_option (reindex ix) (find (\<lambda>n. ni_ID n = i) ns)" for ns
    by (induction ns) auto
  show n: "data_DataNode i (h d) = map_option (reindex ix) (data_DataNode i d)"
    by (simp add: data_DataNode_def hs f)
  show v: "DBPtView db (h d) = DBPtView db d" "DBRepGroups db (h d) = DBRepGroups db d"
    by (simp_all add: DBPtView_def DBRepGroups_def hs)
  show "DBReplicaN db (h d) = DBReplicaN db d" "GetReplicaN db (h d) = GetReplicaN db d"
    "GetRGOfPtFast i db (h d) = GetRGOfPtFast i db d" "GetPtInfo db i (h d) = GetPtInfo db i d"
    by (simp_all add: DBReplicaN_def GetReplicaN_def GetRGOfPtFast_def GetPtInfo_def hs v)
  show w: "GetWriteNode (h d) = map (reindex ix) (GetWriteNode d)"
    "GetAliveWriteNode (h d) = map (reindex ix) (GetAliveWriteNode d)"
    by (simp_all add: GetWriteNode_def GetAliveWriteNode_def hs filter_map comp_def)
  show "GetWriteNodeNum (h d) = GetWriteNodeNum d" by (simp add: GetWriteNodeNum_def w)
  show "getNodeStatus i (h d) = getNodeStatus i d"
    by (simp add: getNodeStatus_def n split: option.splits)
qed

lemma loopE_h:
  assumes "\<And>x d. x \<in> set xs \<Longrightarrow> f x (h d) = relay h (f x d)"
  shows "loopE f xs (h d) = relay h (loopE f xs d)"
  using assms
proof (induction xs arbitrary: d)
  case (Cons x xs)
  then show ?case by (cases "f x d"; cases "snd (f x d)") auto
qed simp

lemma putRG_h [overlaid]: "putRG db i f (h d) = h (putRG db i f d)"
  by (simp add: putRG_def hs)

lemma data_nextSubHealth_h [overlaid]: "data_nextSubHealth db i v (h d) = relay h (data_nextSubHealth db i v d)"
  by (simp add: data_nextSubHealth_def overlaid split: sum.splits option.splits)

lemma data_nextHealth_h [overlaid]: "data_nextHealth db i v (h d) = relay h (data_nextHealth db i v d)"
  by (simp add: data_nextHealth_def overlaid split: sum.splits option.splits prod.splits)

lemma updatePtStatus_h [overlaid]: "updatePtStatus env db i n st (h d) = relay h (updatePtStatus env db i n st d)"
proof -
  have c: "(case relay h r of (data', Some e) \<Rightarrow> (data', Some e)
        | (data', None) \<Rightarrow> (data'\<lparr>PtView := AList.update db v (PtView data')\<rparr>, None))
      = relay h (case r of (data', Some e) \<Rightarrow> (data', Some e)
        | (data', None) \<Rightarrow> (data'\<lparr>PtView := AList.update db v (PtView data')\<rparr>, None))" for r v
    by (cases r; cases "snd r") (auto simp: hs)
  have i: "(if b then relay h x else (h y, None)) = relay h (if b then x else (y, None))" for b x y by simp
  show ?thesis
    unfolding updatePtStatus_def Let_def hs data_nextSubHealth_h i c by (simp only: relay_if relay_Pair)
qed

lemma initDataNodePtView_h [overlaid]: "initDataNodePtView n (h d) = h (initDataNodePtView n d)"
  by (simp add: initDataNodePtView_def Let_def overlaid)

lemma assignPts_h [overlaid]: "assignPts env db (map (reindex ix) ns) (h d) = relay h (assignPts env db ns d)"
proof -
  have "ni_ID (map (reindex ix) ns ! (p mod length ns)) = ni_ID (ns ! (p mod length ns))" if "ns \<noteq> []" for p
    using that by simp
  then show ?thesis by (simp add: assignPts_def hs loopE_h updatePtStatus_h)
qed

lemma CreateDBPtView_h [overlaid]:
  "CreateDBPtView env db (h d) = (case CreateDBPtView env db d of (b, r) \<Rightarrow> (b, relay h r))"
  by (simp add: CreateDBPtView_def assignPtForSS_def assignPtForWAF_def overlaid split: HaPolicy.splits)

lemma updatePtViewStep_h [overlaid]: "updatePtViewStep env n st db i (h d) = relay h (updatePtViewStep env n st db i d)"
  by (simp add: updatePtViewStep_def Let_def overlaid)

lemma updatePtViewStatus_h [overlaid]: "updatePtViewStatus env n st (h d) = relay h (updatePtViewStatus env n st d)"
  unfolding updatePtViewStatus_def hs by (rule loopE_h) (auto simp: updatePtViewStep_h split: prod.splits)

lemma UpdatePtVersion_h [overlaid]: "UpdatePtVersion db i (h d) = relay h (UpdatePtVersion db i d)"
  by (simp add: UpdatePtVersion_def hs split: option.splits)

lemma UpdatePtInfo_h [overlaid]: "UpdatePtInfo env db p n st (h d) = relay h (UpdatePtInfo env db p n st d)"
  by (simp add: UpdatePtInfo_def Let_def overlaid split: prod.splits)

lemma azSet_h [overlaid]: "inAzSet (h d) db rg az = inAzSet d db rg az"
proof -
  have g: "getDataNodeByPtId (h d) db p = map_option (reindex ix) (getDataNodeByPtId d db p)" for p
    by (simp add: getDataNodeByPtId_def overlaid split: option.splits)
  have "getAzSet (h d) db rg = getAzSet d db rg"
    by (auto simp: getAzSet_def Let_def g image_iff) (metis option.map_sel reindex_sel(12))+
  then show ?thesis by (simp add: inAzSet_def)
qed

lemma firstUnFullDiffAz_h [overlaid]: "firstUnFullDiffAz (h d) db az rgs = firstUnFullDiffAz d db az rgs"
  by (induction rgs) (simp_all add: azSet_h split: option.split)

lemma joinRpGroup_h:
  assumes "\<And>d rg az. join (h d) db rg az = join d db rg az"
  shows "joinRpGroup db (reindex ix n) r s az join (h d) = relay h (joinRpGroup db n r s az join d)"
  by (simp add: joinRpGroup_def Let_def overlaid assms split: option.splits prod.splits)

lemma ChooseRG_h [overlaid]:
  "NodeHardChooseRG db (reindex ix n) r (h d) = relay h (NodeHardChooseRG db n r d)"
  "AzHardChooseRG db (reindex ix n) r (h d) = relay h (AzHardChooseRG db n r d)"
proof -
  show "NodeHardChooseRG db (reindex ix n) r (h d) = relay h (NodeHardChooseRG db n r d)"
    by (simp add: NodeHardChooseRG_def joinRpGroup_h joinForNodeHard_def overlaid)
  show "AzHardChooseRG db (reindex ix n) r (h d) = relay h (AzHardChooseRG db n r d)"
    by (simp add: AzHardChooseRG_def getFirstUnFullRGLocWithDiffAz_def joinRpGroup_h joinForAzHard_def overlaid
        split: option.splits)
qed

lemma chooseRG_h [overlaid]: "chooseRG env db (reindex ix n) r (h d) = relay h (chooseRG env db n r d)"
  by (simp add: chooseRG_def overlaid split: RepDisPolicy.splits)

lemma loopE_nodes:
  assumes "\<And>n d. f (reindex ix n) (h d) = relay h (f n d)"
  shows "loopE f (map (reindex ix) ns) (h d) = relay h (loopE f ns d)"
proof (induction ns arbitrary: d)
  case (Cons n ns)
  then show ?case by (cases "f n d"; cases "snd (f n d)") (auto simp: assms)
qed simp

lemma CreateDBReplication_h [overlaid]: "CreateDBReplication env db n (h d) = relay h (CreateDBReplication env db n d)"
proof -
  have e: "expandDBRG db (h d) = h (expandDBRG db d)" by (simp add: expandDBRG_def overlaid)
  show ?thesis
    by (simp add: CreateDBReplication_def NodeHardCreateDBRG_def AzHardCreateDBRG_def e nodes loopE_nodes ChooseRG_h
        split: RepDisPolicy.splits)
qed

lemma expandDBPtView_h [overlaid]:
  "expandDBPtView env db n (reindex ix nn) (h d) = relay h (expandDBPtView env db n nn d)"
proof -
  have "loopE (\<lambda>p. updatePtStatus env db p (ni_ID nn) Offline) xs (h d)
      = relay h (loopE (\<lambda>p. updatePtStatus env db p (ni_ID nn) Offline) xs d)" for xs
    by (rule loopE_h) (simp add: updatePtStatus_h)
  then show ?thesis
    by (simp add: expandDBPtView_def Let_def overlaid split: option.splits prod.splits)
qed

lemma UpdateReplication_h [overlaid]: "UpdateReplication db i m ps (h d) = relay h (UpdateReplication db i m ps d)"
  by (simp add: UpdateReplication_def overlaid split: option.splits)

lemma db_lookups [overlaid]:
  "data_Database db (h d) = data_Database db d" "data_GetDatabase db (h d) = data_GetDatabase db d"
  "data_RetentionPolicy db rp (h d) = data_RetentionPolicy db rp d" "checkStoreReady (h d) = checkStoreReady d"
  by (simp_all add: data_Database_def data_GetDatabase_def data_RetentionPolicy_def checkStoreReady_def hs)

lemma put_h [overlaid]: "putDB db f (h d) = h (putDB db f d)" "putRP db rp g (h d) = h (putRP db rp g d)"
  by (simp_all add: putDB_def putRP_def hs)

lemma createIndexGroupIfNeeded_h [overlaid]:
  "createIndexGroupIfNeeded env t et n rp (h d) =
     (case createIndexGroupIfNeeded env t et n rp d of (ig, rp', d') \<Rightarrow> (ig, rp', h d'))"
  by (simp add: createIndexGroupIfNeeded_def CreateIndexGroup_def Let_def hs split: option.splits)

lemma newShards_h [overlaid]:
  "newShardGroup env t et v rp (h d) = (case newShardGroup env t et v rp d of (sg, d') \<Rightarrow> (sg, h d'))"
  "createShards ig rp m tier sg (h d) = (case createShards ig rp m tier sg d of (sg', d') \<Rightarrow> (sg', h d'))"
  unfolding newShardGroup_def createShards_def Let_def hs by (simp_all only: prod.case)

lemma addShardGroup_h [overlaid]:
  "addShardGroup env t tier et v m rp (h d) =
     (case addShardGroup env t tier et v m rp d of Inl e \<Rightarrow> Inl e | Inr (rp', d') \<Rightarrow> Inr (rp', h d'))"
proof -
  obtain ig rp1 d1 where 1: "createIndexGroupIfNeeded env t et (ClusterPtNum d) rp d = (ig, rp1, d1)" by (metis prod_cases3)
  obtain sg0 d2 where 2: "newShardGroup env t et v rp1 d1 = (sg0, d2)" by (metis surj_pair)
  obtain sg d3 where 3: "createShards ig rp1 m tier sg0 d2 = (sg, d3)" by (metis surj_pair)
  show ?thesis
    unfolding addShardGroup_def hs createIndexGroupIfNeeded_h newShards_h 1 2 3 Let_def prod.case
    by (simp split: option.split)
qed

lemma CreateShardGroup_h [overlaid]:
  "CreateShardGroup env db rp t tier et v (h d) = relay h (CreateShardGroup env db rp t tier et v d)"
  by (simp add: CreateShardGroup_def overlaid split: option.splits sum.splits list.splits prod.splits)

lemma createIndexGroup_h [overlaid]: "createIndexGroup t rp (h d) = (case createIndexGroup t rp d of (rp', d') \<Rightarrow> (rp', h d'))"
  by (simp add: createIndexGroup_def Let_def hs)

lemma CreateShardGroupWithBounds_h [overlaid]:
  "CreateShardGroupWithBounds t bs et rp (h d) =
     (case CreateShardGroupWithBounds t bs et rp d of Inl e \<Rightarrow> Inl e | Inr (rp', d') \<Rightarrow> Inr (rp', h d'))"
  unfolding CreateShardGroupWithBounds_def Let_def hs by (simp only: sum.case prod.case split: if_split) simp

lemma ReSharding_h [overlaid]: "ReSharding info (h d) = relay h (ReSharding info d)"
proof (cases "data_RetentionPolicy (rs_Database info) (rs_Rp info) d")
  case (Inr rp)
  obtain rp1 d1 where "createIndexGroup (Unix0 (rs_SplitTime info + 1)) rp d = (rp1, d1)" by (metis surj_pair)
  then show ?thesis by (simp add: ReSharding_def Inr Let_def overlaid split: sum.split prod.split)
qed (simp add: ReSharding_def overlaid)

lemma walkE_h:
  assumes "\<And>x d. x \<in> set xs \<Longrightarrow> f x (g d) = (case f x d of Inl e \<Rightarrow> Inl e | Inr (y, d') \<Rightarrow> Inr (y, g d'))"
  shows "walkE f xs (g d) = (case walkE f xs d of Inl e \<Rightarrow> Inl e | Inr (ys, d') \<Rightarrow> Inr (ys, g d'))"
  using assms
proof (induction xs arbitrary: d)
  case (Cons x xs)
  show ?case
  proof (cases "f x d")
    case (Inr r)
    obtain y d1 where r: "r = (y, d1)" by (metis surj_pair)
    have "walkE f xs (g d1) = (case walkE f xs d1 of Inl e \<Rightarrow> Inl e | Inr (ys, d') \<Rightarrow> Inr (ys, g d'))"
      using Cons by simp
    then show ?thesis using Cons.prems [of x d] Inr r by (simp split: sum.split prod.split)
  qed (use Cons.prems [of x d] in simp)
qed simp

lemma walkMap_h:
  assumes "\<And>x d. f x (g d) = (case f x d of Inl e \<Rightarrow> Inl e | Inr (y, d') \<Rightarrow> Inr (y, g d'))"
  shows "walkMap f m (g d) = (case walkMap f m d of Inl e \<Rightarrow> Inl e | Inr (ys, d') \<Rightarrow> Inr (ys, g d'))"
  unfolding walkMap_def by (rule walkE_h) (auto simp: assms split: sum.split prod.split)

lemma expandShards_h:
  "expandShards env n sg (map_prod id h s) =
     (case expandShards env n sg s of Inl e \<Rightarrow> Inl e | Inr (sg', s') \<Rightarrow> Inr (sg', map_prod id h s'))"
proof -
  let ?H = "\<lambda>(sg, rp, d). (sg :: ShardGroupInfo, rp :: RetentionPolicyInfo, h d)"
  have 1: "expandShard env n i (?H t) = relay ?H (expandShard env n i t)" for i t
    by (simp add: expandShard_def overlaid split: prod.split)
  have "loopE (expandShard env n) xs (?H t) = relay ?H (loopE (expandShard env n) xs t)" for xs t
  proof (induction xs arbitrary: t)
    case (Cons x xs)
    then show ?case by (cases "expandShard env n x t"; cases "snd (expandShard env n x t)") (auto simp: 1)
  qed simp
  from this [of "[length (sg_Shards sg)..<n]" "(sg, s)"] show ?thesis
    by (cases s; cases "loopE (expandShard env n) [length (sg_Shards sg)..<n] (sg, s)";
        cases "snd (loopE (expandShard env n) [length (sg_Shards sg)..<n] (sg, s))")
      (auto simp: expandShards_def)
qed

lemma expandRP_h:
  "expandRP env n rp (h d) = (case expandRP env n rp d of Inl e \<Rightarrow> Inl e | Inr (rp', d') \<Rightarrow> Inr (rp', h d'))"
proof -
  have 1: "walkE (expandIndexes n) xs (h d) =
      (case walkE (expandIndexes n) xs d of Inl e \<Rightarrow> Inl e | Inr (ys, d') \<Rightarrow> Inr (ys, h d'))" for xs d
    by (rule walkE_h) (simp add: expandIndexes_def Let_def hs)
  have 2: "walkE (expandShards env n) xs (r, h d) =
      (case walkE (expandShards env n) xs (r, d) of Inl e \<Rightarrow> Inl e | Inr (ys, s') \<Rightarrow> Inr (ys, map_prod id h s'))" for xs r d
    using walkE_h [where g = "map_prod id h" and xs = xs and f = "expandShards env n" and d = "(r, d)", OF expandShards_h]
    by simp
  show ?thesis by (simp add: expandRP_def 1 2 split: sum.split prod.split)
qed

lemma ExpandGroups_h [overlaid]:
  "ExpandGroups env (h d) = (case ExpandGroups env d of Inl e \<Rightarrow> Inl e | Inr d' \<Rightarrow> Inr (h d'))"
proof -
  have "expandDB env n db (h d) = (case expandDB env n db d of Inl e \<Rightarrow> Inl e | Inr (db', d') \<Rightarrow> Inr (db', h d'))" for n db d
    unfolding expandDB_def walkMap_h [where g = h and f = "expandRP env n", OF expandRP_h] by (simp split: sum.split prod.split)
  then show ?thesis
    unfolding ExpandGroups_def hs walkMap_h [where g = h and f = "expandDB env (ClusterPtNum d)"]
    by (subst walkMap_h [where g = h]) (auto simp: hs split: sum.split prod.split)
qed

lemma group_ops_h [overlaid]:
  "DeleteIndexGroup now db rp i (h d) = relay h (DeleteIndexGroup now db rp i d)"
  "DeleteShardGroup now db rp i at ty (h d) = relay h (DeleteShardGroup now db rp i at ty d)"
  "UpdateShardInfoTier i tier db rp (h d) = relay h (UpdateShardInfoTier i tier db rp d)"
  "UpdateShardDownSampleInfo ident (h d) = relay h (UpdateShardDownSampleInfo ident d)"
  "PruneGroups env b i (h d) = relay h (PruneGroups env b i d)"
  by (simp_all add: DeleteIndexGroup_def DeleteShardGroup_def UpdateShardInfoTier_def UpdateShardDownSampleInfo_def
      PruneGroups_def pruneShardGroups_def pruneIndexGroups_def walkRPs_def overlaid split: sum.split option.split)

lemma newNode_reindex: "reindex ix (newNode i host tcp role az g c) = newNode i host tcp role az g c"
  by (simp add: reindex_def newNode_def ix0)

lemma keys_reindex: "(\<lambda>n. (ni_ID n, ni_TCPHost n)) \<circ> reindex ix = (\<lambda>n. (ni_ID n, ni_TCPHost n))"
  by auto

lemma CreateDataNode_h [overlaid]:
  "CreateDataNode env host tcp role az (h d) = relay h (CreateDataNode env host tcp role az d)"
proof -
  let ?c = "u64 (MaxConnID d + 1)"
  have f: "find (\<lambda>n. ni_TCPHost n = tcp) (map (reindex ix) ns) = map_option (reindex ix) (find (\<lambda>n. ni_TCPHost n = tcp) ns)" for ns
    by (rule find_reindex) simp
  have u: "updFirst (\<lambda>n. ni_TCPHost n = tcp) (\<lambda>n. n\<lparr>dn_ConnID := c\<rparr>) (map (reindex ix) ns)
      = map (reindex ix) (updFirst (\<lambda>n. ni_TCPHost n = tcp) (\<lambda>n. n\<lparr>dn_ConnID := c\<rparr>) ns)" for c ns
    by (rule updFirst_reindex) simp_all
  obtain i m where im: "chooseID (MaxNodeID d) tcp (map (\<lambda>n. (ni_ID n, ni_TCPHost n)) (MetaNodes d)) = (i, m)"
    by (metis surj_pair)
  let ?nn = "newNode i host tcp role az []"
  let ?dn = "?nn ?c"
  let ?d1 = "d\<lparr>MaxConnID := ?c, MaxNodeID := m, DataNodes := sort_key ni_ID (DataNodes d @ [?dn])\<rparr>"
  have s: "sort_key ni_ID (map (reindex ix) ns @ [newNode j ho tc r z g c])
      = map (reindex ix) (sort_key ni_ID (ns @ [newNode j ho tc r z g c]))" for ns j ho tc r z g c
    using sort_key_reindex [of ix "ns @ [newNode j ho tc r z g c]"] by (simp add: newNode_reindex)
  have e: "expandDBPtView env db n (?nn c) (h x) = relay h (expandDBPtView env db n (?nn c) x)" for db n x c
    using expandDBPtView_h [of env db n "?nn c" x] by (simp add: newNode_reindex)
  have l: "loopE (\<lambda>db. expandDBPtView env db n (?nn c)) xs (h x) = relay h (loopE (\<lambda>db. expandDBPtView env db n (?nn c)) xs x)"
    for n xs x c by (rule loopE_h) (rule e)
  let ?l = "loopE (\<lambda>db. expandDBPtView env db (ClusterPtNum (initDataNodePtView (ClusterPtNum ?d1) ?d1)) ?dn)
    (map fst (PtView (initDataNodePtView (ClusterPtNum ?d1) ?d1))) (initDataNodePtView (ClusterPtNum ?d1) ?d1)"
  show ?thesis
  proof (cases "find (\<lambda>n. ni_TCPHost n = tcp) (DataNodes d)")
    case None
    have "CreateDataNode env host tcp role az (h d) =
      (if role = ''reader'' then (h (initDataNodePtView (ClusterPtNum ?d1) ?d1), Inr i)
       else case relay h ?l of (d3, Some e) \<Rightarrow> (d3, Inl e)
          | (d3, None) \<Rightarrow> if ExpandShardsEnable d3 then
               case ExpandGroups env d3 of Inl e \<Rightarrow> (d3, Inl e) | Inr d4 \<Rightarrow> (d4, Inr i) else (d3, Inr i))"
      using None im by (simp add: CreateDataNode_def Let_def hs f s l initDataNodePtView_h)
    also have "\<dots> = relay h (CreateDataNode env host tcp role az d)"
      using None im
      by (cases ?l; cases "snd ?l")
        (simp_all add: CreateDataNode_def Let_def hs ExpandGroups_h split: sum.split)
    finally show ?thesis .
  qed (simp add: CreateDataNode_def Let_def hs f u)
qed

lemma node_ops_h [overlaid]:
  "CreateSqlNode host g (h d) = relay h (CreateSqlNode host g d)"
  "CreateMetaNode host rpc tcp (h d) = relay h (CreateMetaNode host rpc tcp d)"
  "DeleteMetaNode i (h d) = relay h (DeleteMetaNode i d)"
  "RemoveNode is (h d) = h (RemoveNode is d)"
  "SetSegregateNodeStatus st is (h d) = relay h (SetSegregateNodeStatus st is d)"
  "DataNodeByHttpHost host (h d) = map_option (reindex ix) (DataNodeByHttpHost host d)"
  "SqlNodeByHttpHost host (h d) = map_option (reindex ix) (SqlNodeByHttpHost host d)"
proof -
  have f: "find (\<lambda>n. ni_TCPHost n = host) (map (reindex ix) ns) = map_option (reindex ix) (find (\<lambda>n. ni_TCPHost n = host) ns)"
    "find (\<lambda>n. ni_Host n = host) (map (reindex ix) ns) = map_option (reindex ix) (find (\<lambda>n. ni_Host n = host) ns)" for ns
    by (rule find_reindex, simp)+
  show "DataNodeByHttpHost host (h d) = map_option (reindex ix) (DataNodeByHttpHost host d)"
    "SqlNodeByHttpHost host (h d) = map_option (reindex ix) (SqlNodeByHttpHost host d)"
    by (simp_all add: DataNodeByHttpHost_def SqlNodeByHttpHost_def hs f)
  have u: "updFirst (\<lambda>n. ni_TCPHost n = host) (\<lambda>n. n\<lparr>dn_ConnID := c\<rparr>) (map (reindex ix) ns)
      = map (reindex ix) (updFirst (\<lambda>n. ni_TCPHost n = host) (\<lambda>n. n\<lparr>dn_ConnID := c\<rparr>) ns)" for c ns
    by (rule updFirst_reindex) simp_all
  have a: "map (reindex ix) ns @ [newNode j ho tc r z g c] = map (reindex ix) (ns @ [newNode j ho tc r z g c])" for ns j ho tc r z g c
    by (simp add: newNode_reindex)
  show "CreateSqlNode host g (h d) = relay h (CreateSqlNode host g d)"
    by (simp add: CreateSqlNode_def Let_def hs f u a del: map_append split: option.split prod.split)
  show "CreateMetaNode host rpc tcp (h d) = relay h (CreateMetaNode host rpc tcp d)"
    by (simp add: CreateMetaNode_def Let_def hs keys_reindex split: prod.split)
  show "DeleteMetaNode i (h d) = relay h (DeleteMetaNode i d)"
    by (simp add: DeleteMetaNode_def Let_def hs)
  show "RemoveNode is (h d) = h (RemoveNode is d)"
    by (simp add: RemoveNode_def hs filter_map comp_def)
  show "SetSegregateNodeStatus st is (h d) = relay h (SetSegregateNodeStatus st is d)"
    by (simp add: SetSegregateNodeStatus_def hs segregateLoop_reindex split: sum.split)
qed

lemma SetMetaNode_h [overlaid]: "SetMetaNode host rpc tcp (h d) = relay h (SetMetaNode host rpc tcp d)"
  by (simp add: SetMetaNode_def hs node_ops_h split: list.split)

lemma UpdateNodeStatus_h [overlaid]: "UpdateNodeStatus env i st lt port (h d) = relay h (UpdateNodeStatus env i st lt port d)"
proof -
  have u: "updFirst (\<lambda>n. ni_ID n = i) (\<lambda>_. reindex ix m) (map (reindex ix) ns)
      = map (reindex ix) (updFirst (\<lambda>n. ni_ID n = i) (\<lambda>_. m) ns)" for m ns
    by (rule updFirst_reindex) simp_all
  show ?thesis
    by (simp add: UpdateNodeStatus_def Let_def overlaid u split: option.split)
qed

lemma UpdateSqlNodeStatus_h [overlaid]: "UpdateSqlNodeStatus i st lt (h d) = relay h (UpdateSqlNodeStatus i st lt d)"
proof -
  have f: "find (\<lambda>n. ni_ID n = i) (map (reindex ix) ns) = map_option (reindex ix) (find (\<lambda>n. ni_ID n = i) ns)" for ns
    by (rule find_reindex) simp
  have u: "updFirst (\<lambda>n. ni_ID n = i) (\<lambda>dn. dn\<lparr>ni_Status := st, ni_LTime := lt,
        dn_AliveConnID := (if st = StatusAlive then dn_ConnID dn else dn_AliveConnID dn)\<rparr>) (map (reindex ix) ns)
      = map (reindex ix) (updFirst (\<lambda>n. ni_ID n = i) (\<lambda>dn. dn\<lparr>ni_Status := st, ni_LTime := lt,
        dn_AliveConnID := (if st = StatusAlive then dn_ConnID dn else dn_AliveConnID dn)\<rparr>) ns)" for ns
    by (rule updFirst_reindex) simp_all
  show ?thesis unfolding UpdateSqlNodeStatus_def SqlNode_def hs f u by (simp split: option.split)
qed

lemma stream_ops_h [overlaid]:
  "checkStreams p (h d) = checkStreams p d" "SetStream s (h d) = relay h (SetStream s d)"
  "CreateStream so (h d) = relay h (CreateStream so d)" "DropStream n (h d) = relay h (DropStream n d)"
  by (simp_all add: checkStreams_def SetStream_def CreateStream_def DropStream_def Let_def hs split: option.split)

lemma CheckStreamExist_h [overlaid]:
  "CheckStreamExistInDatabase db (h d) = CheckStreamExistInDatabase db d"
  "CheckStreamExistInRetention db rp (h d) = CheckStreamExistInRetention db rp d"
  "CheckStreamExistInMst db rp m (h d) = CheckStreamExistInMst db rp m d"
  by (simp_all add: CheckStreamExistInDatabase_def CheckStreamExistInRetention_def CheckStreamExistInMst_def overlaid)

lemma database_ops_h [overlaid]:
  "CheckCanCreateDatabase db (h d) = CheckCanCreateDatabase db d"
  "SetDatabase di (h d) = relay h (SetDatabase di d)"
  "DropDatabase db (h d) = h (DropDatabase db d)"
  by (simp_all add: CheckCanCreateDatabase_def SetDatabase_def DropDatabase_def overlaid split: option.split)

lemma CreateDatabase_h [overlaid]:
  "CreateDatabase db rp sk tag n opt (h d) = relay h (CreateDatabase db rp sk tag n opt d)"
  unfolding CreateDatabase_def Let_def database_ops_h by (simp split: option.split prod.split)

lemma policy_ops_h [overlaid]:
  "CreateRetentionPolicy db rp b (h d) = relay h (CreateRetentionPolicy db rp b d)"
  "DropRetentionPolicy db n (h d) = relay h (DropRetentionPolicy db n d)"
  "SetDefaultRetentionPolicy db n (h d) = relay h (SetDefaultRetentionPolicy db n d)"
  "CreateSubscription db n s m ds (h d) = relay h (CreateSubscription db n s m ds d)"
  by (simp_all add: CreateRetentionPolicy_def DropRetentionPolicy_def SetDefaultRetentionPolicy_def CreateSubscription_def
      overlaid Let_def split: sum.split option.split prod.split)

lemma UpdateRetentionPolicy_h [overlaid]:
  "UpdateRetentionPolicy db n u b (h d) = relay h (UpdateRetentionPolicy db n u b d)"
  unfolding UpdateRetentionPolicy_def Let_def db_lookups put_h relay_cases ..

lemma DropSubscription_h [overlaid]: "DropSubscription db rp n (h d) = relay h (DropSubscription db rp n d)"
proof -
  have b: "bumpSub (h x) = relay h (bumpSub x)" for x by (simp add: bumpSub_def hs)
  have "dropSubRP db r n (h d) = relay h (dropSubRP db r n d)" for r
    by (simp add: dropSubRP_def overlaid b Let_def split: sum.split option.split)
  then show ?thesis by (simp add: DropSubscription_def overlaid b split: option.split)
qed

lemma query_ops_h [overlaid]:
  "CreateContinuousQueryBase db n q (h d) = (case CreateContinuousQueryBase db n q d of (d', r) \<Rightarrow> (h d', r))"
  "DropContinuousQueryBase n db (h d) = (case DropContinuousQueryBase n db d of (d', r) \<Rightarrow> (h d', r))"
  "BatchUpdateContinuousQueryStat cqs (h d) = relay h (BatchUpdateContinuousQueryStat cqs d)"
  "RegisterQueryIDOffset host (h d) = relay h (RegisterQueryIDOffset host d)"
  by (simp_all add: CreateContinuousQueryBase_def DropContinuousQueryBase_def BatchUpdateContinuousQueryStat_def
      RegisterQueryIDOffset_def overlaid split: sum.split option.split)

lemma user_ops_h [overlaid]:
  "CreateUser n hash a rw (h d) = relay h (CreateUser n hash a rw d)" "DropUser n (h d) = relay h (DropUser n d)"
  "UpdateUser n hash (h d) = relay h (UpdateUser n hash d)" "SetPrivilege n db p (h d) = relay h (SetPrivilege n db p d)"
  "SetAdminPrivilege n a (h d) = relay h (SetAdminPrivilege n a d)"
  by (simp_all add: CreateUser_def DropUser_def UpdateUser_def SetPrivilege_def SetAdminPrivilege_def GetUser_def
      HasAdminUser_def Let_def overlaid split: option.split sum.split)

lemma downsample_ops_h [overlaid]:
  "CreateDownSamplePolicy db rp i (h d) = relay h (CreateDownSamplePolicy db rp i d)"
  "DropDownSamplePolicy db rp b (h d) = relay h (DropDownSamplePolicy db rp b d)"
  by (simp_all add: CreateDownSamplePolicy_def DropDownSamplePolicy_def Let_def overlaid split: option.split)

lemma mst_lookups [overlaid]: "putMst db rp m f (h d) = h (putMst db rp m f d)"
  "data_Measurement db rp m (h d) = relay h (data_Measurement db rp m d)"
  by (simp_all add: putMst_def data_Measurement_def overlaid split: sum.split option.split)

lemma UpdateSchema_h [overlaid]: "UpdateSchema env db rp m fs (h d) = relay h (UpdateSchema env db rp m fs d)"
  by (cases "data_Measurement db rp m d"; cases "snd (data_Measurement db rp m d)")
    (simp_all add: UpdateSchema_def overlaid split: prod.split)

lemma createVersionMeasurement_h [overlaid]:
  "createVersionMeasurement env db rpn rp sk n ir m v et cs fs opt (h d) =
     relay h (createVersionMeasurement env db rpn rp sk n ir m v et cs fs opt d)"
proof -
  have "placeMst env n ty rp (h x) m' = placeMst env n ty rp x m'" for n ty x m'
    by (simp add: placeMst_def Let_def hs)
  then show ?thesis
    unfolding createVersionMeasurement_def Let_def hs put_h UpdateSchema_h by (simp split: option.split)
qed

lemma CreateMeasurement_h [overlaid]:
  "CreateMeasurement env db rpn m sk n ir et cs fs opt (h d) = relay h (CreateMeasurement env db rpn m sk n ir et cs fs opt d)"
  unfolding CreateMeasurement_def db_lookups createVersionMeasurement_h relay_cases ..

lemma mst_ops_h [overlaid]:
  "AlterShardKey db rp m sk (h d) = relay h (AlterShardKey db rp m sk d)"
  "DropMeasurement db rp m (h d) = relay h (DropMeasurement db rp m d)"
  "UpdateMeasurement db rp m o' (h d) = relay h (UpdateMeasurement db rp m o' d)"
  unfolding AlterShardKey_def DropMeasurement_def UpdateMeasurement_def Let_def db_lookups mst_lookups put_h hs relay_cases
  by (rule refl)+

lemma discardErr_relay: "discardErr (relay h r) = relay h (discardErr r)"
  by (simp add: discardErr_def relay_def)

lemma connect_h:
  "(h d)\<lparr>MaxConnID := c, DataNodes := updFirst (\<lambda>n. ni_Host n = host) (\<lambda>n. n\<lparr>dn_ConnID := c'\<rparr>) (DataNodes (h d))\<rparr> =
     h (d\<lparr>MaxConnID := c, DataNodes := updFirst (\<lambda>n. ni_Host n = host) (\<lambda>n. n\<lparr>dn_ConnID := c'\<rparr>) (DataNodes d)\<rparr>)"
  "(h d)\<lparr>MaxConnID := c, SqlNodes := updFirst (\<lambda>n. ni_TCPHost n = host) (\<lambda>n. n\<lparr>dn_ConnID := c'\<rparr>) (SqlNodes (h d))\<rparr> =
     h (d\<lparr>MaxConnID := c, SqlNodes := updFirst (\<lambda>n. ni_TCPHost n = host) (\<lambda>n. n\<lparr>dn_ConnID := c'\<rparr>) (SqlNodes d)\<rparr>)"
proof -
  have u: "updFirst (\<lambda>n. ni_Host n = host) (\<lambda>n. n\<lparr>dn_ConnID := c\<rparr>) (map (reindex ix) ns)
      = map (reindex ix) (updFirst (\<lambda>n. ni_Host n = host) (\<lambda>n. n\<lparr>dn_ConnID := c\<rparr>) ns)"
    "updFirst (\<lambda>n. ni_TCPHost n = host) (\<lambda>n. n\<lparr>dn_ConnID := c\<rparr>) (map (reindex ix) ns)
      = map (reindex ix) (updFirst (\<lambda>n. ni_TCPHost n = host) (\<lambda>n. n\<lparr>dn_ConnID := c\<rparr>) ns)" for c ns
    by (rule updFirst_reindex, simp_all)+
  show "(h d)\<lparr>MaxConnID := c, DataNodes := updFirst (\<lambda>n. ni_Host n = host) (\<lambda>n. n\<lparr>dn_ConnID := c'\<rparr>) (DataNodes (h d))\<rparr> =
     h (d\<lparr>MaxConnID := c, DataNodes := updFirst (\<lambda>n. ni_Host n = host) (\<lambda>n. n\<lparr>dn_ConnID := c'\<rparr>) (DataNodes d)\<rparr>)"
   "(h d)\<lparr>MaxConnID := c, SqlNodes := updFirst (\<lambda>n. ni_TCPHost n = host) (\<lambda>n. n\<lparr>dn_ConnID := c'\<rparr>) (SqlNodes (h d))\<rparr> =
     h (d\<lparr>MaxConnID := c, SqlNodes := updFirst (\<lambda>n. ni_TCPHost n = host) (\<lambda>n. n\<lparr>dn_ConnID := c'\<rparr>) (SqlNodes d)\<rparr>)"
    by (simp_all add: hs u)
qed

lemma apply_meta_h [overlaid]:
  "ApplyCreateMetaNode host rpc tcp r (h d) = relay h (ApplyCreateMetaNode host rpc tcp r d)"
  "ApplySetMetaNode host rpc tcp r (h d) = relay h (ApplySetMetaNode host rpc tcp r d)"
  "ApplyDeleteMetaNode i (h d) = relay h (ApplyDeleteMetaNode i d)"
  by (cases "CreateMetaNode host rpc tcp d"; cases "snd (CreateMetaNode host rpc tcp d)";
      simp add: ApplyCreateMetaNode_def overlaid)
    (cases "SetMetaNode host rpc tcp d"; cases "snd (SetMetaNode host rpc tcp d)";
      simp add: ApplySetMetaNode_def ApplyDeleteMetaNode_def overlaid)+

lemma ApplyCreateDataNode_h [overlaid]:
  "ApplyCreateDataNode env host tcp role az (h d) = relay h (ApplyCreateDataNode env host tcp role az d)"
proof (cases "DataNodeByHttpHost host d")
  case None
  then show ?thesis
    by (cases "CreateDataNode env host tcp role az d"; cases "snd (CreateDataNode env host tcp role az d)")
      (simp_all add: ApplyCreateDataNode_def overlaid)
next
  case (Some n)
  then show ?thesis
    by (simp add: ApplyCreateDataNode_def node_ops_h sel(23) Let_def connect_h)
qed

lemma ApplyCreateDbPtViewCommand_h [overlaid]:
  "ApplyCreateDbPtViewCommand env db n (h d) = relay h (ApplyCreateDbPtViewCommand env db n d)"
proof -
  obtain b d' e where "CreateDBPtView env db d = (b, d', e)" by (metis prod_cases3)
  then show ?thesis by (cases e) (simp_all add: ApplyCreateDbPtViewCommand_def overlaid)
qed

lemma apply_ops_h [overlaid]:
  "ApplyCreateRetentionPolicy db rp b (h d) = relay h (ApplyCreateRetentionPolicy db rp b d)"
  "ApplyDropRetentionPolicy db n (h d) = relay h (ApplyDropRetentionPolicy db n d)"
  "ApplySetDefaultRetentionPolicy db n (h d) = relay h (ApplySetDefaultRetentionPolicy db n d)"
  "ApplyUpdateRetentionPolicy db n u b (h d) = relay h (ApplyUpdateRetentionPolicy db n u b d)"
  "ApplyCreateSubscription db n s m ds (h d) = relay h (ApplyCreateSubscription db n s m ds d)"
  "ApplyDropSubscription db n s (h d) = relay h (ApplyDropSubscription db n s d)"
  "ApplyCreateShardGroup env db n t tier et v (h d) = relay h (ApplyCreateShardGroup env db n t tier et v d)"
  "ApplyDeleteShardGroup now db n i at ty (h d) = relay h (ApplyDeleteShardGroup now db n i at ty d)"
  "ApplyDeleteIndexGroup now db n i (h d) = relay h (ApplyDeleteIndexGroup now db n i d)"
  "ApplyPruneGroups env b i (h d) = relay h (ApplyPruneGroups env b i d)"
  "ApplyReSharding db n i t bs (h d) = relay h (ApplyReSharding db n i t bs d)"
  "ApplyUpdateShardInfoTier i tier db n (h d) = relay h (ApplyUpdateShardInfoTier i tier db n d)"
  "ApplyUpdateShardDownSampleInfo ident (h d) = relay h (ApplyUpdateShardDownSampleInfo ident d)"
  "ApplyCreateMeasurement env db n m sk k ir et cs fs opt (h d) = relay h (ApplyCreateMeasurement env db n m sk k ir et cs fs opt d)"
  "ApplyUpdateSchema env db n m fs (h d) = relay h (ApplyUpdateSchema env db n m fs d)"
  "ApplyAlterShardKey db n m sk (h d) = relay h (ApplyAlterShardKey db n m sk d)"
  "ApplyDropMeasurement db n m (h d) = relay h (ApplyDropMeasurement db n m d)"
  "ApplyUpdateMeasurement db n m opts (h d) = relay h (ApplyUpdateMeasurement db n m opts d)"
  by (simp_all only: ApplyCreateRetentionPolicy_def ApplyDropRetentionPolicy_def ApplySetDefaultRetentionPolicy_def
      ApplyUpdateRetentionPolicy_def ApplyCreateSubscription_def ApplyDropSubscription_def ApplyCreateShardGroup_def
      ApplyDeleteShardGroup_def ApplyDeleteIndexGroup_def ApplyPruneGroups_def ApplyReSharding_def
      ApplyUpdateShardInfoTier_def ApplyUpdateShardDownSampleInfo_def ApplyCreateMeasurement_def ApplyUpdateSchema_def
      ApplyAlterShardKey_def ApplyDropMeasurement_def ApplyUpdateMeasurement_def overlaid)

lemma apply_more_h [overlaid]:
  "ApplyCreateUser n hash a rw (h d) = relay h (ApplyCreateUser n hash a rw d)"
  "ApplyDropUser n (h d) = relay h (ApplyDropUser n d)" "ApplyUpdateUser n hash (h d) = relay h (ApplyUpdateUser n hash d)"
  "ApplySetPrivilege n db p (h d) = relay h (ApplySetPrivilege n db p d)"
  "ApplySetAdminPrivilege n a (h d) = relay h (ApplySetAdminPrivilege n a d)"
  "ApplyDeleteDataNode i (h d) = relay h (ApplyDeleteDataNode i d)"
  "ApplyUpdateNodeStatus env i st lt g (h d) = relay h (ApplyUpdateNodeStatus env i st lt g d)"
  "ApplySetNodeSegregateStatus sts ids (h d) = relay h (ApplySetNodeSegregateStatus sts ids d)"
  "ApplyRemoveNode ids (h d) = relay h (ApplyRemoveNode ids d)"
  "ApplyUpdatePtInfo env db pt i st' (h d) = relay h (ApplyUpdatePtInfo env db pt i st' d)"
  "ApplyUpdatePtVersion db i (h d) = relay h (ApplyUpdatePtVersion db i d)"
  "ApplyUpdateReplication db i m ps (h d) = relay h (ApplyUpdateReplication db i m ps d)"
  "ApplyCreateDownSample db n i' (h d) = relay h (ApplyCreateDownSample db n i' d)"
  "ApplyDropDownSample db n b (h d) = relay h (ApplyDropDownSample db n b d)"
  "ApplyCreateStream s (h d) = relay h (ApplyCreateStream s d)" "ApplyDropStream n (h d) = relay h (ApplyDropStream n d)"
  "ApplyRegisterQueryIDOffset n (h d) = relay h (ApplyRegisterQueryIDOffset n d)"
  "ApplyContinuousQueryReport cqs (h d) = relay h (ApplyContinuousQueryReport cqs d)"
  by (simp_all only: ApplyCreateUser_def ApplyDropUser_def ApplyUpdateUser_def ApplySetPrivilege_def ApplySetAdminPrivilege_def
      ApplyDeleteDataNode_def DeleteDataNode_def ApplyUpdateNodeStatus_def ApplySetNodeSegregateStatus_def ApplyRemoveNode_def
      ApplyUpdatePtInfo_def ApplyUpdatePtVersion_def ApplyUpdateReplication_def ApplyCreateDownSample_def
      ApplyDropDownSample_def ApplyCreateStream_def ApplyDropStream_def ApplyRegisterQueryIDOffset_def
      ApplyContinuousQueryReport_def discardErr_relay relay_Pair overlaid)

end

text \<open>An overlay that also keeps the counters of events and queries and the reported indexes: only the term,
  the index and the operation log may differ.\<close>

locale full_overlay = overlay +
  assumes sel': "\<And>d. MigrateEvents (h d) = MigrateEvents d" "\<And>d. MaxEventOpId (h d) = MaxEventOpId d" "\<And>d. MaxCQChangeID (h d) = MaxCQChangeID d" "\<And>d. BalancerEnabled (h d) = BalancerEnabled d"
    and upd': "\<And>f d. MigrateEvents_update f (h d) = h (MigrateEvents_update f d)"
      "\<And>f d. MaxEventOpId_update f (h d) = h (MaxEventOpId_update f d)"
      "\<And>f d. MaxCQChangeID_update f (h d) = h (MaxCQChangeID_update f d)"
      "\<And>f d. BalancerEnabled_update f (h d) = h (BalancerEnabled_update f d)"
    and ix_id: "ix = (\<lambda>i. i)"
begin

lemmas hs' = sel' upd'

lemma migrate_h [overlaid]:
  "checkMigrateConflict db (h d) = checkMigrateConflict db d"
  "CreateMigrateEvent b e (h d) = relay h (CreateMigrateEvent b e d)"
  "UpdateMigrateEvent e (h d) = relay h (UpdateMigrateEvent e d)"
  "RemoveEventInfo i (h d) = relay h (RemoveEventInfo i d)"
  by (simp_all add: checkMigrateConflict_def CreateMigrateEvent_def checkDDLConflict_def UpdateMigrateEvent_def
      RemoveEventInfo_def overlaid hs' split: option.split)

lemma mark_h [overlaid]:
  "ApplyMarkDatabaseDelete db (h d) = relay h (ApplyMarkDatabaseDelete db d)"
  "ApplyMarkRetentionPolicyDelete db rp (h d) = relay h (ApplyMarkRetentionPolicyDelete db rp d)"
  "ApplyMarkMeasurementDelete db rp m (h d) = relay h (ApplyMarkMeasurementDelete db rp m d)"
proof -
  show "ApplyMarkDatabaseDelete db (h d) = relay h (ApplyMarkDatabaseDelete db d)"
    "ApplyMarkRetentionPolicyDelete db rp (h d) = relay h (ApplyMarkRetentionPolicyDelete db rp d)"
    unfolding ApplyMarkDatabaseDelete_def MarkDatabaseDelete_def ApplyMarkRetentionPolicyDelete_def
      MarkRetentionPolicyDelete_def Let_def CheckStreamExist_h migrate_h put_h db_lookups hs relay_cases
    by (rule refl)+
  show "ApplyMarkMeasurementDelete db rp m (h d) = relay h (ApplyMarkMeasurementDelete db rp m d)"
    by (cases "data_Measurement db rp m d"; cases "snd (data_Measurement db rp m d)")
      (simp_all add: ApplyMarkMeasurementDelete_def MarkMeasurementDelete_def overlaid split: option.split)
qed

lemma cq_h [overlaid]:
  "CreateContinuousQuery db n q (h d) = relay h (CreateContinuousQuery db n q d)"
  "DropContinuousQuery n db (h d) = (case DropContinuousQuery n db d of (d', r) \<Rightarrow> (h d', r))"
proof -
  obtain d1 b e where "CreateContinuousQueryBase db n q d = (d1, b, e)" by (metis prod_cases3)
  then show "CreateContinuousQuery db n q (h d) = relay h (CreateContinuousQuery db n q d)"
    by (cases b) (simp_all add: CreateContinuousQuery_def overlaid hs')
  obtain d2 b' e' where "DropContinuousQueryBase n db d = (d2, b', e')" by (metis prod_cases3)
  then show "DropContinuousQuery n db (h d) = (case DropContinuousQuery n db d of (d', r) \<Rightarrow> (h d', r))"
    by (cases e') (simp_all add: DropContinuousQuery_def overlaid hs')
qed

lemma index_h [overlaid]: "UpdateNodeTmpIndex r j i (h d) = relay h (UpdateNodeTmpIndex r j i d)"
proof -
  have n: "DataNodes (h d) = DataNodes d" "SqlNodes (h d) = SqlNodes d"
    "(h d)\<lparr>DataNodes := ns\<rparr> = h (d\<lparr>DataNodes := ns\<rparr>)" "(h d)\<lparr>SqlNodes := ns\<rparr> = h (d\<lparr>SqlNodes := ns\<rparr>)" for ns
    using nodes [of d] updNodes [of ns d] by (simp_all add: ix_id reindex_same)
  show ?thesis
    by (simp add: UpdateNodeTmpIndex_def SetSqlNodeIndex_def SetDataNodeIndex_def n split: prod.split)
qed

lemma switch_h [overlaid]: "MarkTakeover b (h d) = h (MarkTakeover b d)" "MarkBalancer b (h d) = h (MarkBalancer b d)"
  by (simp_all add: MarkTakeover_def MarkBalancer_def hs hs')

end

text \<open>An overlay as a client sees the state: it knows of no migration events, and a statement that the server has
  accepted passes the client's own check.\<close>

locale client_overlay = overlay +
  assumes quiet: "\<And>d. MigrateEvents (h d) = []"
begin

lemma checkMigrateConflict_quiet [overlaid]: "checkMigrateConflict db (h d) = None"
  by (simp add: checkMigrateConflict_def quiet)

lemma mark_quiet:
  "ApplyMarkDatabaseDelete db d = (d', None) \<Longrightarrow> ApplyMarkDatabaseDelete db (h d) = (h d', None)"
  "ApplyMarkRetentionPolicyDelete db rp d = (d', None) \<Longrightarrow> ApplyMarkRetentionPolicyDelete db rp (h d) = (h d', None)"
  "ApplyMarkMeasurementDelete db rp m d = (d', None) \<Longrightarrow> ApplyMarkMeasurementDelete db rp m (h d) = (h d', None)"
  by (auto simp: ApplyMarkDatabaseDelete_def MarkDatabaseDelete_def ApplyMarkRetentionPolicyDelete_def
      MarkRetentionPolicyDelete_def ApplyMarkMeasurementDelete_def MarkMeasurementDelete_def overlaid Let_def
      split: option.splits sum.splits prod.splits if_splits)

end

section \<open>The two overlays\<close>

text \<open>\<open>Apply\<close> and \<open>ApplyBatch\<close> store the term and the index of the log entry.\<close>

definition stamp :: "nat \<Rightarrow> nat \<Rightarrow> 'c Data \<Rightarrow> 'c Data" where
  "stamp term index d = d\<lparr>Term := term, Index := index\<rparr>"

interpretation stamped: full_overlay "stamp t i" "\<lambda>i. i" for t i
  by unfold_locales (simp_all add: stamp_def reindex_same)

text \<open>What a client that follows the server by operations has in common with it.\<close>

definition clientView :: "'c Data \<Rightarrow> 'c Data" where
  "clientView d = d\<lparr>Term := 0, Index := 0, MigrateEvents := [], BalancerEnabled := False, MaxEventOpId := 0, MaxCQChangeID := 0,
     OpsMap := None, OpsMapMinIndex := 0, OpsMapMaxIndex := 0, OpsToMarshalIndex := 0,
     DataNodes := map (reindex (\<lambda>_. 0)) (DataNodes d), SqlNodes := map (reindex (\<lambda>_. 0)) (SqlNodes d)\<rparr>"

interpretation viewed: client_overlay clientView "\<lambda>_. 0"
  by unfold_locales (simp_all add: clientView_def reindex_def)

end
