(* ===== verification/MetaFSM.thy ===== *)
theory MetaFSM
  imports MetaOverlay
begin

text \<open>
  The state machine of the meta service, \<open>app/ts-meta/meta/store_fsm.go\<close>: the commands of the replicated log,
  the handlers that \<open>applyFunc\<close> selects by the type of the command, \<open>Apply\<close> and \<open>ApplyBatch\<close>. The state is the
  catalogue \<open>fsm.data\<close> together with the continuous query leases of the store. \<open>SetDataCommand\<close> (which
  replaces the whole catalogue by a decoded one) and \<open>InsertFilesCommand\<close> (which writes to SQLite) are not
  commands of the model. The commands are grouped by the component they address.
\<close>

section \<open>Commands\<close>

datatype DatabaseCmd =
    CreateDatabaseCommand string "RpMsg option" nat "ShardKeyInfo option" bool "ObsOptions option"
  | DropDatabaseCommand string
  | MarkDatabaseDeleteCommand string
  | CreateRetentionPolicyCommand string RpMsg bool
  | DropRetentionPolicyCommand string string
  | MarkRetentionPolicyDeleteCommand string string
  | SetDefaultRetentionPolicyCommand string string
  | UpdateRetentionPolicyCommand string string RpUpdateMsg bool
  | CreateSubscriptionCommand string string string string "string list"
  | DropSubscriptionCommand string string string

datatype GroupCmd =
    CreateShardGroupCommand string string int nat nat nat
  | DeleteShardGroupCommand string string nat int int
  | DeleteIndexGroupCommand string string nat
  | PruneGroupsCommand bool nat
  | ReShardingCommand string string nat int "string list"
  | ExpandGroupsCommand
  | UpdateShardInfoTierCommand nat nat string string
  | UpdateShardDownSampleInfoCommand ShardIdentifier
  | CreateDownSamplePolicyCommand string string DownSamplePolicyInfo
  | DropDownSamplePolicyCommand string string bool

datatype MstCmd =
    CreateMeasurementCommand string string string "ShardKeyInfo option" int "IndexRelation option" nat
      "ColStoreInfo option" "FieldSchema list" "Options option"
  | UpdateSchemaCommand string string string "FieldSchema list"
  | AlterShardKeyCmd string string string "ShardKeyInfo option"
  | MarkMeasurementDeleteCommand string string string
  | DropMeasurementCommand string string string
  | UpdateMeasurementCommand string string string Options

datatype UserCmd =
    CreateUserCommand string string bool bool
  | DropUserCommand string
  | UpdateUserCommand string string
  | SetPrivilegeCommand string string int
  | SetAdminPrivilegeCommand string bool

datatype NodeCmd =
    CreateMetaNodeCommand string string string nat
  | DeleteMetaNodeCommand nat
  | SetMetaNodeCommand string string string nat
  | CreateDataNodeCommand string string string string
  | CreateSqlNodeCommand string string
  | DeleteDataNodeCommand nat
  | UpdateNodeStatusCommand nat int nat string
  | UpdateSqlNodeStatusCommand nat int nat string
  | SetNodeSegregateStatusCommand "nat list" "nat list"
  | RemoveNodeCommand "nat list"
  | UpdateNodeTmpIndexCommand int nat nat
  | MarkTakeoverCommand bool
  | MarkBalancerCommand bool
  | VerifyDataNodeCommand

datatype PtCmd =
    CreateDbPtViewCommand string nat
  | UpdatePtInfoCommand string PtInfo nat nat
  | UpdatePtVersionCommand string nat
  | UpdateReplicationCommand string nat nat "Peer list"
  | CreateEventCommand bool MigrateEventInfo
  | UpdateEventCommand MigrateEventInfo
  | RemoveEventCommand string

datatype QueryCmd =
    CreateStreamCommand StreamInfo
  | DropStreamCommand string
  | RegisterQueryIDOffsetCommand string
  | CreateContinuousQueryCommand string string string
  | ContinuousQueryReportCommand "(string \<times> int) list"
  | DropContinuousQueryCommand string string
  | NotifyCQLeaseChangedCommand

datatype Cmd = DatabaseC DatabaseCmd | GroupC GroupCmd | MstC MstCmd | UserC UserCmd | NodeC NodeCmd | PtC PtCmd
  | QueryC QueryCmd

text \<open>The numbers of the enumeration \<open>Command.Type\<close> in \<open>meta.proto\<close>.\<close>

fun cmdType :: "Cmd \<Rightarrow> nat" where
  "cmdType (DatabaseC c) = (case c of
     CreateDatabaseCommand _ _ _ _ _ _ \<Rightarrow> 3 | DropDatabaseCommand _ \<Rightarrow> 4 | MarkDatabaseDeleteCommand _ \<Rightarrow> 31
   | CreateRetentionPolicyCommand _ _ _ \<Rightarrow> 5 | DropRetentionPolicyCommand _ _ \<Rightarrow> 6
   | MarkRetentionPolicyDeleteCommand _ _ \<Rightarrow> 39 | SetDefaultRetentionPolicyCommand _ _ \<Rightarrow> 7
   | UpdateRetentionPolicyCommand _ _ _ _ \<Rightarrow> 8 | CreateSubscriptionCommand _ _ _ _ _ \<Rightarrow> 21
   | DropSubscriptionCommand _ _ _ \<Rightarrow> 22)"
| "cmdType (GroupC c) = (case c of
     CreateShardGroupCommand _ _ _ _ _ _ \<Rightarrow> 9 | DeleteShardGroupCommand _ _ _ _ _ \<Rightarrow> 10
   | DeleteIndexGroupCommand _ _ _ \<Rightarrow> 62 | PruneGroupsCommand _ _ \<Rightarrow> 57 | ReShardingCommand _ _ _ _ _ \<Rightarrow> 52
   | ExpandGroupsCommand \<Rightarrow> 81 | UpdateShardInfoTierCommand _ _ _ _ \<Rightarrow> 63
   | UpdateShardDownSampleInfoCommand _ \<Rightarrow> 74 | CreateDownSamplePolicyCommand _ _ _ \<Rightarrow> 69
   | DropDownSamplePolicyCommand _ _ _ \<Rightarrow> 70)"
| "cmdType (MstC c) = (case c of
     CreateMeasurementCommand _ _ _ _ _ _ _ _ _ _ \<Rightarrow> 49 | UpdateSchemaCommand _ _ _ _ \<Rightarrow> 53
   | AlterShardKeyCmd _ _ _ _ \<Rightarrow> 50 | MarkMeasurementDeleteCommand _ _ _ \<Rightarrow> 58
   | DropMeasurementCommand _ _ _ \<Rightarrow> 59 | UpdateMeasurementCommand _ _ _ _ \<Rightarrow> 101)"
| "cmdType (UserC c) = (case c of
     CreateUserCommand _ _ _ _ \<Rightarrow> 13 | DropUserCommand _ \<Rightarrow> 14 | UpdateUserCommand _ _ \<Rightarrow> 15
   | SetPrivilegeCommand _ _ _ \<Rightarrow> 16 | SetAdminPrivilegeCommand _ _ \<Rightarrow> 18)"
| "cmdType (NodeC c) = (case c of
     CreateMetaNodeCommand _ _ _ _ \<Rightarrow> 24 | DeleteMetaNodeCommand _ \<Rightarrow> 27 | SetMetaNodeCommand _ _ _ _ \<Rightarrow> 29
   | CreateDataNodeCommand _ _ _ _ \<Rightarrow> 25 | CreateSqlNodeCommand _ _ \<Rightarrow> 96 | DeleteDataNodeCommand _ \<Rightarrow> 28
   | UpdateNodeStatusCommand _ _ _ _ \<Rightarrow> 64 | UpdateSqlNodeStatusCommand _ _ _ _ \<Rightarrow> 97
   | SetNodeSegregateStatusCommand _ _ \<Rightarrow> 92 | RemoveNodeCommand _ \<Rightarrow> 93 | UpdateNodeTmpIndexCommand _ _ _ \<Rightarrow> 95
   | MarkTakeoverCommand _ \<Rightarrow> 75 | MarkBalancerCommand _ \<Rightarrow> 76 | VerifyDataNodeCommand \<Rightarrow> 80)"
| "cmdType (PtC c) = (case c of
     CreateDbPtViewCommand _ _ \<Rightarrow> 72 | UpdatePtInfoCommand _ _ _ _ \<Rightarrow> 67 | UpdatePtVersionCommand _ _ \<Rightarrow> 82
   | UpdateReplicationCommand _ _ _ _ \<Rightarrow> 94 | CreateEventCommand _ _ \<Rightarrow> 65 | UpdateEventCommand _ \<Rightarrow> 66
   | RemoveEventCommand _ \<Rightarrow> 68)"
| "cmdType (QueryC c) = (case c of
     CreateStreamCommand _ \<Rightarrow> 77 | DropStreamCommand _ \<Rightarrow> 78 | RegisterQueryIDOffsetCommand _ \<Rightarrow> 85
   | CreateContinuousQueryCommand _ _ _ \<Rightarrow> 86 | ContinuousQueryReportCommand _ \<Rightarrow> 88
   | DropContinuousQueryCommand _ _ \<Rightarrow> 90 | NotifyCQLeaseChangedCommand \<Rightarrow> 91)"

section \<open>The state machine\<close>

record FsmConfig =
  RetentionAutoCreate :: bool
  cfg_ExpandShardsEnable :: bool
  UseIncSyncData :: bool
  cfg_PtNumPerNode :: nat
  cfg_NumOfShards :: int

record Store =
  fsm_data :: "Cmd Data"
  fsm_cq :: CqStore

text \<open>A new store; with incremental synchronisation it keeps an operation log.\<close>

definition NewStore :: "FsmConfig \<Rightarrow> Store" where
  "NewStore c =
     (let data = zeroData\<lparr>Index := 1, PtNumPerNode := cfg_PtNumPerNode c, TakeOverEnabled := True, BalancerEnabled := True,
                   NumOfShards := cfg_NumOfShards c\<rparr>
      in \<lparr>fsm_data = (if UseIncSyncData c then data\<lparr>OpsMap := Some [], OpsMapMinIndex := maxU64, OpsMapMaxIndex := 0\<rparr> else data),
          fsm_cq = \<lparr>cqNames = [], sqlHosts = [], cqLease = [], heartbeats = []\<rparr>\<rparr>)"

definition onData :: "(Cmd Data \<Rightarrow> Cmd Data \<times> err option) \<Rightarrow> Store \<Rightarrow> Store \<times> err option" where
  "onData f s = (case f (fsm_data s) of (d, e) \<Rightarrow> (s\<lparr>fsm_data := d\<rparr>, e))"

text \<open>
  The policy of a new database: the one of the command, or the automatic policy. With incremental
  synchronisation the automatic policy is written back into the command, so that the recorded command carries it.
\<close>

definition repNum :: "nat \<Rightarrow> nat" where
  "repNum n = (if n = 0 then 1 else n)"

definition databasePolicy :: "bool \<Rightarrow> RpMsg option \<Rightarrow> nat \<Rightarrow> RetentionPolicyInfo option" where
  "databasePolicy autoCreate rpi repN =
     (case rpi of
        Some pb \<Rightarrow> Some (rpOfMsg pb)
      | None \<Rightarrow>
          if autoCreate
          then Some ((NewRetentionPolicyInfo ''autogen'')\<lparr>rp_ReplicaN := int repN, rp_Duration := 0, rp_WarmDuration := 0\<rparr>)
          else None)"

definition policyMsg :: "RetentionPolicyInfo \<Rightarrow> RpMsg" where
  "policyMsg rp = \<lparr>rm_Name = rp_Name rp, rm_ReplicaN = nat (rp_ReplicaN rp mod 2 ^ 32), rm_Duration = rp_Duration rp,
     rm_ShardGroupDuration = rp_ShardGroupDuration rp, rm_HotDuration = rp_HotDuration rp,
     rm_WarmDuration = rp_WarmDuration rp, rm_IndexGroupDuration = rp_IndexGroupDuration rp\<rparr>"

definition applyCreateDatabaseCommand ::
  "FsmConfig \<Rightarrow> string \<Rightarrow> RpMsg option \<Rightarrow> nat \<Rightarrow> ShardKeyInfo option \<Rightarrow> bool \<Rightarrow> ObsOptions option \<Rightarrow> 'c Data
     \<Rightarrow> 'c Data \<times> err option" where
  "applyCreateDatabaseCommand cfg name rpi replicaNum ski enableTagArray options data =
     CreateDatabase name (databasePolicy (RetentionAutoCreate cfg) rpi (repNum replicaNum)) ski enableTagArray
       (repNum replicaNum) options data"

definition recordedCmd :: "FsmConfig \<Rightarrow> Cmd \<Rightarrow> Cmd" where
  "recordedCmd cfg cmd =
     (case cmd of
        DatabaseC (CreateDatabaseCommand name None replicaNum ski tag opts) \<Rightarrow>
          if RetentionAutoCreate cfg \<and> UseIncSyncData cfg
          then DatabaseC (CreateDatabaseCommand name
                 (map_option policyMsg (databasePolicy True None (repNum replicaNum))) replicaNum ski tag opts)
          else cmd
      | _ \<Rightarrow> cmd)"

definition dropCQName :: "string \<Rightarrow> CqStore \<Rightarrow> CqStore" where
  "dropCQName cqName s = s\<lparr>cqNames := removeAt (searchStrings (cqNames s) cqName) (cqNames s)\<rparr>"

definition applyDropDatabaseCommand :: "string \<Rightarrow> Store \<Rightarrow> Store \<times> err option" where
  "applyDropDatabaseCommand name s =
     (case data_Database name (fsm_data s) of
        None \<Rightarrow> (s, None)
      | Some dbi \<Rightarrow>
          if db_ContinuousQueries dbi = [] then (s\<lparr>fsm_data := DropDatabase name (fsm_data s)\<rparr>, None)
          else
            (case scheduleCQsWithoutLock (fold dropCQName (map fst (db_ContinuousQueries dbi)) (fsm_cq s)) of
               (cq, Some e) \<Rightarrow> (s\<lparr>fsm_cq := cq\<rparr>, Some e)
             | (cq, None) \<Rightarrow>
                 (s\<lparr>fsm_cq := cq,
                    fsm_data := DropDatabase name ((fsm_data s)\<lparr>MaxCQChangeID := u64 (MaxCQChangeID (fsm_data s) + 1)\<rparr>)\<rparr>, None)))"

definition applyCreateContinuousQueryCommand :: "string \<Rightarrow> string \<Rightarrow> string \<Rightarrow> Store \<Rightarrow> Store \<times> err option" where
  "applyCreateContinuousQueryCommand database name query s =
     (case CreateContinuousQuery database name query (fsm_data s) of
        (d, Some e) \<Rightarrow> (s\<lparr>fsm_data := d\<rparr>, Some e)
      | (d, None) \<Rightarrow> (case handleCQCreated name (fsm_cq s) of (cq, e) \<Rightarrow> (s\<lparr>fsm_data := d, fsm_cq := cq\<rparr>, e)))"

definition applyDropContinuousQueryCommand :: "string \<Rightarrow> string \<Rightarrow> Store \<Rightarrow> Store \<times> err option" where
  "applyDropContinuousQueryCommand name database s =
     (case DropContinuousQuery name database (fsm_data s) of
        (d, changed, e) \<Rightarrow>
          if e \<noteq> None \<or> \<not> changed then (s\<lparr>fsm_data := d\<rparr>, e)
          else (case handleCQDropped name (fsm_cq s) of (cq, e') \<Rightarrow> (s\<lparr>fsm_data := d, fsm_cq := cq\<rparr>, e')))"

definition applyNotifyCQLeaseChangedCommand :: "'c Data \<Rightarrow> 'c Data \<times> err option" where
  "applyNotifyCQLeaseChangedCommand data = (data\<lparr>MaxCQChangeID := u64 (MaxCQChangeID data + 1)\<rparr>, None)"

definition applyCreateDataNodeCommand ::
  "Env \<Rightarrow> FsmConfig \<Rightarrow> string \<Rightarrow> string \<Rightarrow> string \<Rightarrow> string \<Rightarrow> 'c Data \<Rightarrow> 'c Data \<times> err option" where
  "applyCreateDataNodeCommand env cfg httpAddr tcpAddr role az data =
     ApplyCreateDataNode env httpAddr tcpAddr role az (data\<lparr>ExpandShardsEnable := cfg_ExpandShardsEnable cfg\<rparr>)"

definition reconnectSqlNode :: "string \<Rightarrow> 'c Data \<Rightarrow> 'c Data" where
  "reconnectSqlNode httpAddr data =
     data\<lparr>MaxConnID := u64 (MaxConnID data + 1),
       SqlNodes := updFirst (\<lambda>n. ni_TCPHost n = httpAddr) (\<lambda>n. n\<lparr>dn_ConnID := u64 (MaxConnID data + 1)\<rparr>) (SqlNodes data)\<rparr>"

definition applyCreateSqlNodeCommand :: "FsmConfig \<Rightarrow> string \<Rightarrow> string \<Rightarrow> 'c Data \<Rightarrow> 'c Data \<times> err option" where
  "applyCreateSqlNodeCommand cfg httpAddr gossipAddr data =
     (case SqlNodeByHttpHost httpAddr data of
        Some _ \<Rightarrow> (reconnectSqlNode httpAddr data, None)
      | None \<Rightarrow>
          (case CreateSqlNode httpAddr gossipAddr (data\<lparr>ExpandShardsEnable := cfg_ExpandShardsEnable cfg\<rparr>) of
             (d, Inl e) \<Rightarrow> (d, Some e)
           | (d, Inr _) \<Rightarrow> (d, None)))"

definition applyExpandGroupsCommand :: "Env \<Rightarrow> 'c Data \<Rightarrow> 'c Data \<times> err option" where
  "applyExpandGroupsCommand env data = (case ExpandGroups env data of Inl e \<Rightarrow> (data, Some e) | Inr d \<Rightarrow> (d, None))"

section \<open>Executing a command\<close>

text \<open>\<open>now\<close> is what \<open>time.Now\<close> returns while the command is applied. The entries of the table \<open>applyFunc\<close>, by component:\<close>

fun applyDatabaseCmd :: "FsmConfig \<Rightarrow> DatabaseCmd \<Rightarrow> Store \<Rightarrow> Store \<times> err option" where
  "applyDatabaseCmd cfg (CreateDatabaseCommand name rpi repN ski tag opts) =
     onData (applyCreateDatabaseCommand cfg name rpi repN ski tag opts)"
| "applyDatabaseCmd cfg (DropDatabaseCommand name) = applyDropDatabaseCommand name"
| "applyDatabaseCmd cfg (MarkDatabaseDeleteCommand name) = onData (ApplyMarkDatabaseDelete name)"
| "applyDatabaseCmd cfg (CreateRetentionPolicyCommand db pb def) = onData (ApplyCreateRetentionPolicy db pb def)"
| "applyDatabaseCmd cfg (DropRetentionPolicyCommand db name) = onData (ApplyDropRetentionPolicy db name)"
| "applyDatabaseCmd cfg (MarkRetentionPolicyDeleteCommand db name) = onData (ApplyMarkRetentionPolicyDelete db name)"
| "applyDatabaseCmd cfg (SetDefaultRetentionPolicyCommand db name) = onData (ApplySetDefaultRetentionPolicy db name)"
| "applyDatabaseCmd cfg (UpdateRetentionPolicyCommand db name v def) = onData (ApplyUpdateRetentionPolicy db name v def)"
| "applyDatabaseCmd cfg (CreateSubscriptionCommand db rp name mode dests) = onData (ApplyCreateSubscription db rp name mode dests)"
| "applyDatabaseCmd cfg (DropSubscriptionCommand db rp name) = onData (ApplyDropSubscription db rp name)"

fun applyGroupCmd :: "Env \<Rightarrow> time \<Rightarrow> GroupCmd \<Rightarrow> Cmd Data \<Rightarrow> Cmd Data \<times> err option" where
  "applyGroupCmd env now (CreateShardGroupCommand db rp ts tier et v) = ApplyCreateShardGroup env db rp ts tier et v"
| "applyGroupCmd env now (DeleteShardGroupCommand db rp i at ty) = ApplyDeleteShardGroup now db rp i at ty"
| "applyGroupCmd env now (DeleteIndexGroupCommand db rp i) = ApplyDeleteIndexGroup now db rp i"
| "applyGroupCmd env now (PruneGroupsCommand sg i) = ApplyPruneGroups env sg i"
| "applyGroupCmd env now (ReShardingCommand db rp i t bounds) = ApplyReSharding db rp i t bounds"
| "applyGroupCmd env now ExpandGroupsCommand = applyExpandGroupsCommand env"
| "applyGroupCmd env now (UpdateShardInfoTierCommand i tier db rp) = ApplyUpdateShardInfoTier i tier db rp"
| "applyGroupCmd env now (UpdateShardDownSampleInfoCommand ident) = ApplyUpdateShardDownSampleInfo ident"
| "applyGroupCmd env now (CreateDownSamplePolicyCommand db name info) = ApplyCreateDownSample db name info"
| "applyGroupCmd env now (DropDownSamplePolicyCommand db rp all') = ApplyDropDownSample db rp all'"

fun applyMstCmd :: "Env \<Rightarrow> MstCmd \<Rightarrow> Cmd Data \<Rightarrow> Cmd Data \<times> err option" where
  "applyMstCmd env (CreateMeasurementCommand db rp m ski n ir et cs fs opts) = ApplyCreateMeasurement env db rp m ski n ir et cs fs opts"
| "applyMstCmd env (UpdateSchemaCommand db rp m fs) = ApplyUpdateSchema env db rp m fs"
| "applyMstCmd env (AlterShardKeyCmd db rp m ski) = ApplyAlterShardKey db rp m ski"
| "applyMstCmd env (MarkMeasurementDeleteCommand db rp m) = ApplyMarkMeasurementDelete db rp m"
| "applyMstCmd env (DropMeasurementCommand db rp m) = ApplyDropMeasurement db rp m"
| "applyMstCmd env (UpdateMeasurementCommand db rp m opts) = ApplyUpdateMeasurement db rp m opts"

fun applyUserCmd :: "UserCmd \<Rightarrow> Cmd Data \<Rightarrow> Cmd Data \<times> err option" where
  "applyUserCmd (CreateUserCommand name hash admin rw) = ApplyCreateUser name hash admin rw"
| "applyUserCmd (DropUserCommand name) = ApplyDropUser name"
| "applyUserCmd (UpdateUserCommand name hash) = ApplyUpdateUser name hash"
| "applyUserCmd (SetPrivilegeCommand name db p) = ApplySetPrivilege name db p"
| "applyUserCmd (SetAdminPrivilegeCommand name admin) = ApplySetAdminPrivilege name admin"

fun applyNodeCmd :: "Env \<Rightarrow> FsmConfig \<Rightarrow> NodeCmd \<Rightarrow> Cmd Data \<Rightarrow> Cmd Data \<times> err option" where
  "applyNodeCmd env cfg (CreateMetaNodeCommand http rpc tcp rand) = ApplyCreateMetaNode http rpc tcp rand"
| "applyNodeCmd env cfg (DeleteMetaNodeCommand i) = ApplyDeleteMetaNode i"
| "applyNodeCmd env cfg (SetMetaNodeCommand http rpc tcp rand) = ApplySetMetaNode http rpc tcp rand"
| "applyNodeCmd env cfg (CreateDataNodeCommand http tcp role az) = applyCreateDataNodeCommand env cfg http tcp role az"
| "applyNodeCmd env cfg (CreateSqlNodeCommand http gossip) = applyCreateSqlNodeCommand cfg http gossip"
| "applyNodeCmd env cfg (DeleteDataNodeCommand i) = ApplyDeleteDataNode i"
| "applyNodeCmd env cfg (UpdateNodeStatusCommand i st lt gossip) = ApplyUpdateNodeStatus env i st lt gossip"
| "applyNodeCmd env cfg (UpdateSqlNodeStatusCommand i st lt gossip) = UpdateSqlNodeStatus i st lt"
| "applyNodeCmd env cfg (SetNodeSegregateStatusCommand st ids) = ApplySetNodeSegregateStatus st ids"
| "applyNodeCmd env cfg (RemoveNodeCommand ids) = ApplyRemoveNode ids"
| "applyNodeCmd env cfg (UpdateNodeTmpIndexCommand role index i) = UpdateNodeTmpIndex role index i"
| "applyNodeCmd env cfg (MarkTakeoverCommand b) = (\<lambda>d. (MarkTakeover b d, None))"
| "applyNodeCmd env cfg (MarkBalancerCommand b) = (\<lambda>d. (MarkBalancer b d, None))"
| "applyNodeCmd env cfg VerifyDataNodeCommand = (\<lambda>d. (d, None))"

fun applyPtCmd :: "Env \<Rightarrow> PtCmd \<Rightarrow> Cmd Data \<Rightarrow> Cmd Data \<times> err option" where
  "applyPtCmd env (CreateDbPtViewCommand db n) = ApplyCreateDbPtViewCommand env db n"
| "applyPtCmd env (UpdatePtInfoCommand db pt owner st) = ApplyUpdatePtInfo env db pt owner st"
| "applyPtCmd env (UpdatePtVersionCommand db pt) = ApplyUpdatePtVersion db pt"
| "applyPtCmd env (UpdateReplicationCommand db rg master peers) = ApplyUpdateReplication db rg master peers"
| "applyPtCmd env (CreateEventCommand check e) = CreateMigrateEvent check e"
| "applyPtCmd env (UpdateEventCommand e) = UpdateMigrateEvent e"
| "applyPtCmd env (RemoveEventCommand i) = RemoveEventInfo i"

fun applyQueryCmd :: "QueryCmd \<Rightarrow> Store \<Rightarrow> Store \<times> err option" where
  "applyQueryCmd (CreateStreamCommand info) = onData (ApplyCreateStream info)"
| "applyQueryCmd (DropStreamCommand name) = onData (ApplyDropStream name)"
| "applyQueryCmd (RegisterQueryIDOffsetCommand host) = onData (ApplyRegisterQueryIDOffset host)"
| "applyQueryCmd (CreateContinuousQueryCommand db name query) = applyCreateContinuousQueryCommand db name query"
| "applyQueryCmd (ContinuousQueryReportCommand states) = onData (ApplyContinuousQueryReport states)"
| "applyQueryCmd (DropContinuousQueryCommand name db) = applyDropContinuousQueryCommand name db"
| "applyQueryCmd NotifyCQLeaseChangedCommand = onData applyNotifyCQLeaseChangedCommand"

fun executeCmd :: "Env \<Rightarrow> FsmConfig \<Rightarrow> time \<Rightarrow> Cmd \<Rightarrow> Store \<Rightarrow> Store \<times> err option" where
  "executeCmd env cfg now (DatabaseC c) = applyDatabaseCmd cfg c"
| "executeCmd env cfg now (GroupC c) = onData (applyGroupCmd env now c)"
| "executeCmd env cfg now (MstC c) = onData (applyMstCmd env c)"
| "executeCmd env cfg now (UserC c) = onData (applyUserCmd c)"
| "executeCmd env cfg now (NodeC c) = onData (applyNodeCmd env cfg c)"
| "executeCmd env cfg now (PtC c) = onData (applyPtCmd env c)"
| "executeCmd env cfg now (QueryC c) = applyQueryCmd c"

text \<open>An entry of the replicated log, with the time at which it is applied. Raft also logs changes of its own
  configuration; they carry no command.\<close>

record LogEntry =
  log_Term :: nat
  log_Index :: nat
  log_IsCommand :: bool
  log_Cmd :: Cmd
  log_Now :: time

definition recordOp :: "FsmConfig \<Rightarrow> LogEntry \<Rightarrow> Store \<Rightarrow> Store \<times> err option" where
  "recordOp cfg l =
     (let cmd = recordedCmd cfg (log_Cmd l) in onData (AddCmdAsOpToOpMap (Command (cmdType cmd) cmd) (log_Index l)))"

text \<open>A panic ends the process: nothing after it is executed.\<close>

definition Apply :: "Env \<Rightarrow> FsmConfig \<Rightarrow> LogEntry \<Rightarrow> Store \<Rightarrow> Store \<times> err option" where
  "Apply env cfg l s =
     (case executeCmd env cfg (log_Now l) (log_Cmd l) s of
        (s1, e) \<Rightarrow>
          if isPanic e then (s1, e)
          else
            let s2 = s1\<lparr>fsm_data := stamp (log_Term l) (log_Index l) (fsm_data s1)\<rparr> in
            if e \<noteq> None then (s2, e) else recordOp cfg l s2)"

definition batchStep :: "Env \<Rightarrow> FsmConfig \<Rightarrow> LogEntry \<Rightarrow> Store \<Rightarrow> Store \<times> err option" where
  "batchStep env cfg l s =
     (if \<not> log_IsCommand l then (s, None)
      else case executeCmd env cfg (log_Now l) (log_Cmd l) s of
        (s1, e) \<Rightarrow> if e \<noteq> None then (s1, e) else recordOp cfg l s1)"

text \<open>The loop of \<open>ApplyBatch\<close>: the state and the results; a panic ends it, which the boolean says.\<close>

fun batchLoop ::
  "(LogEntry \<Rightarrow> Store \<Rightarrow> Store \<times> err option) \<Rightarrow> LogEntry list \<Rightarrow> Store \<Rightarrow> Store \<times> err option list \<times> bool" where
  "batchLoop step [] s = (s, [], False)"
| "batchLoop step (l # ls) s =
     (case step l s of
        (s1, e) \<Rightarrow>
          if isPanic e then (s1, [e], True)
          else case batchLoop step ls s1 of (s2, es, p) \<Rightarrow> (s2, e # es, p))"

definition ApplyBatch :: "Env \<Rightarrow> FsmConfig \<Rightarrow> LogEntry list \<Rightarrow> Store \<Rightarrow> Store \<times> err option list \<times> bool" where
  "ApplyBatch env cfg logs s =
     (case batchLoop (batchStep env cfg) logs s of
        (s1, es, True) \<Rightarrow> (s1, es, True)
      | (s1, es, False) \<Rightarrow>
          if logs = [] then (s1, [Some index_panic], True)
          else (s1\<lparr>fsm_data := stamp (log_Term (last logs)) (log_Index (last logs)) (fsm_data s1)\<rparr>, es, False))"

section \<open>Applying entries one by one or in a batch\<close>

definition onStore :: "(Cmd Data \<Rightarrow> Cmd Data) \<Rightarrow> Store \<Rightarrow> Store" where
  "onStore h s = s\<lparr>fsm_data := h (fsm_data s)\<rparr>"

lemma onStore_simps [simp]: "fsm_data (onStore h s) = h (fsm_data s)" "fsm_cq (onStore h s) = fsm_cq s"
  "fsm_cq_update f (onStore h s) = onStore h (fsm_cq_update f s)"
  "(onStore h s)\<lparr>fsm_data := h d\<rparr> = onStore h (s\<lparr>fsm_data := d\<rparr>)"
  by (simp_all add: onStore_def)

lemma onData_onStore:
  assumes "\<And>d. f (h d) = relay h (f d)"
  shows "onData f (onStore h s) = relay (onStore h) (onData f s)"
  by (simp add: onData_def assms relay_def split: prod.split)

context overlay
begin

lemma CreateDataNodeCommand_h [overlaid]:
  "applyCreateDataNodeCommand env cfg host tcp role az (h d) = relay h (applyCreateDataNodeCommand env cfg host tcp role az d)"
  by (simp add: applyCreateDataNodeCommand_def hs ApplyCreateDataNode_h)

lemma reconnectSqlNode_h [overlaid]: "reconnectSqlNode host (h d) = h (reconnectSqlNode host d)"
  unfolding reconnectSqlNode_def sel(23) by (rule connect_h)

lemma CreateSqlNodeCommand_h [overlaid]:
  "applyCreateSqlNodeCommand cfg host gossip (h d) = relay h (applyCreateSqlNodeCommand cfg host gossip d)"
proof (cases "SqlNodeByHttpHost host d")
  case None
  let ?r = "CreateSqlNode host gossip (d\<lparr>ExpandShardsEnable := cfg_ExpandShardsEnable cfg\<rparr>)"
  show ?thesis
    by (cases ?r; cases "snd ?r") (simp_all add: None applyCreateSqlNodeCommand_def hs node_ops_h)
qed (simp add: applyCreateSqlNodeCommand_def node_ops_h reconnectSqlNode_h)

lemma ExpandGroupsCommand_h [overlaid]:
  "applyExpandGroupsCommand env (h d) = relay h (applyExpandGroupsCommand env d)"
  by (simp add: applyExpandGroupsCommand_def ExpandGroups_h split: sum.split)

lemma CreateDatabaseCommand_h [overlaid]:
  "applyCreateDatabaseCommand cfg name rpi n ski tag opts (h d) = relay h (applyCreateDatabaseCommand cfg name rpi n ski tag opts d)"
  by (simp add: applyCreateDatabaseCommand_def CreateDatabase_h)

end

text \<open>The same for whole commands: an overlay of the catalogue in the store.\<close>

locale store_overlay = full_overlay h ix for h :: "Cmd Data \<Rightarrow> Cmd Data" and ix
begin

lemma notify_h: "applyNotifyCQLeaseChangedCommand (h d) = relay h (applyNotifyCQLeaseChangedCommand d)"
  by (simp add: applyNotifyCQLeaseChangedCommand_def hs')

lemma store_cmds_h:
  "applyDropDatabaseCommand name (onStore h s) = relay (onStore h) (applyDropDatabaseCommand name s)"
  "applyCreateContinuousQueryCommand db name q (onStore h s) = relay (onStore h) (applyCreateContinuousQueryCommand db name q s)"
  "applyDropContinuousQueryCommand name db (onStore h s) = relay (onStore h) (applyDropContinuousQueryCommand name db s)"
proof -
  show "applyDropDatabaseCommand name (onStore h s) = relay (onStore h) (applyDropDatabaseCommand name s)"
    by (simp add: applyDropDatabaseCommand_def db_lookups hs' database_ops_h split: option.split prod.split)
  show "applyCreateContinuousQueryCommand db name q (onStore h s) = relay (onStore h) (applyCreateContinuousQueryCommand db name q s)"
    by (cases "CreateContinuousQuery db name q (fsm_data s)"; cases "snd (CreateContinuousQuery db name q (fsm_data s))")
      (simp_all add: applyCreateContinuousQueryCommand_def cq_h split: prod.split)
  show "applyDropContinuousQueryCommand name db (onStore h s) = relay (onStore h) (applyDropContinuousQueryCommand name db s)"
    by (simp add: applyDropContinuousQueryCommand_def cq_h split: prod.split)
qed

lemmas cmd_h = onData_onStore apply_ops_h apply_more_h apply_meta_h ApplyCreateDbPtViewCommand_h
  mark_h migrate_h index_h switch_h UpdateSqlNodeStatus_h
  CreateDataNodeCommand_h CreateSqlNodeCommand_h ExpandGroupsCommand_h CreateDatabaseCommand_h notify_h store_cmds_h

lemma executeCmd_h: "executeCmd env cfg now c (onStore h s) = relay (onStore h) (executeCmd env cfg now c s)"
proof (cases c)
  case (DatabaseC x)
  then show ?thesis by (cases x) (simp_all add: cmd_h)
next
  case (GroupC x)
  then show ?thesis by (cases x) (simp_all add: cmd_h)
next
  case (MstC x)
  then show ?thesis by (cases x) (simp_all add: cmd_h)
next
  case (UserC x)
  then show ?thesis by (cases x) (simp_all add: cmd_h)
next
  case (NodeC x)
  then show ?thesis by (cases x) (simp_all add: cmd_h)
next
  case (PtC x)
  then show ?thesis by (cases x) (simp_all add: cmd_h)
next
  case (QueryC x)
  then show ?thesis by (cases x) (simp_all add: cmd_h)
qed

end

interpretation stamped_store: store_overlay "stamp t i" "\<lambda>i. i" for t i
  by unfold_locales

abbreviation stampS :: "nat \<Rightarrow> nat \<Rightarrow> Store \<Rightarrow> Store" where
  "stampS t i \<equiv> onStore (stamp t i)"

lemma stampS_idem [simp]: "stampS t i (stampS t' i' s) = stampS t i s"
  by (simp add: onStore_def stamp_def)

lemma AddCmd_stamp: "AddCmdAsOpToOpMap c j (stamp t i d) = relay (stamp t i) (AddCmdAsOpToOpMap c j d)"
proof (cases "OpsMap d")
  case (Some m)
  then show ?thesis
    unfolding AddCmdAsOpToOpMap_def stamp_def Let_def by (cases "cmd_type c \<in> set commandUseForClient") simp_all
qed (simp add: AddCmdAsOpToOpMap_def stamp_def)

lemma recordOp_stamp: "recordOp cfg l (stampS t i s) = relay (stampS t i) (recordOp cfg l s)"
  unfolding recordOp_def Let_def by (rule onData_onStore) (rule AddCmd_stamp)

lemma batchStep_stamp: "batchStep env cfg l (stampS t i s) = relay (stampS t i) (batchStep env cfg l s)"
  by (simp add: batchStep_def stamped_store.executeCmd_h recordOp_stamp split: prod.split)

lemma batchLoop_stamp:
  "batchLoop (batchStep env cfg) ls (stampS t i s) =
     (case batchLoop (batchStep env cfg) ls s of (s', r) \<Rightarrow> (stampS t i s', r))"
  by (induction ls arbitrary: s) (simp_all add: batchStep_stamp relay_def split: prod.split)

lemma Apply_batchStep:
  "log_IsCommand l \<Longrightarrow> snd (Apply env cfg l s) = snd (batchStep env cfg l s)"
  "log_IsCommand l \<Longrightarrow> \<not> isPanic (snd (batchStep env cfg l s)) \<Longrightarrow>
     fst (Apply env cfg l s) = stampS (log_Term l) (log_Index l) (fst (batchStep env cfg l s))"
  using recordOp_stamp [of cfg l "log_Term l" "log_Index l"]
  by (auto simp: Apply_def batchStep_def Let_def onStore_def [symmetric] relay_def split: prod.split)

lemma batchLoop_Apply:
  assumes "batchLoop (batchStep env cfg) ls s = (s1, es, p)" "batchLoop (Apply env cfg) ls s = (s2, es', p')"
    "list_all log_IsCommand ls"
  shows "es' = es \<and> p' = p \<and> (\<not> p \<longrightarrow> ls \<noteq> [] \<longrightarrow> s2 = stampS (log_Term (last ls)) (log_Index (last ls)) s1)"
  using assms
proof (induction ls arbitrary: s s1 es p s2 es' p')
  case (Cons l ls)
  obtain a e where a: "batchStep env cfg l s = (a, e)" by (metis surj_pair)
  obtain b where b: "Apply env cfg l s = (b, e)" using Apply_batchStep(1) [of l env cfg s] Cons.prems(3) a by (metis list.pred_inject(2) prod.collapse snd_conv)
  show ?case
  proof (cases "isPanic e")
    case False
    then have b': "b = stampS (log_Term l) (log_Index l) a" using Apply_batchStep(2) [of l env cfg s] Cons.prems(3) a b by simp
    obtain x r where x: "batchLoop (batchStep env cfg) ls a = (x, r, p)" "s1 = x" "es = e # r"
      using Cons.prems(1) a False by (auto split: prod.splits)
    obtain y r' where y: "batchLoop (Apply env cfg) ls b = (y, r', p')" "s2 = y" "es' = e # r'"
      using Cons.prems(2) b False by (auto split: prod.splits)
    have "batchLoop (batchStep env cfg) ls b = (stampS (log_Term l) (log_Index l) x, r, p)"
      using batchLoop_stamp [of env cfg ls "log_Term l" "log_Index l" a] x(1) b' by simp
    note ih = Cons.IH [OF this y(1)]
    show ?thesis
    proof (cases "ls = []")
      case True
      then show ?thesis using x y b' by simp
    qed (use ih Cons.prems(3) x y in auto)
  qed (use Cons.prems a b in auto)
qed simp

text \<open>C3: Applying a batch of commands from the log is the same as applying them one after the other: the results of
  all commands are the same, a panic happens at the same entry, and without a panic the final state, with its term,
  index and operation log, is the same. No command reads the term or the index of the entry before it.\<close>

theorem ApplyBatch_sequential:
  assumes "logs \<noteq> []" "list_all log_IsCommand logs"
  shows "case (ApplyBatch env cfg logs s, batchLoop (Apply env cfg) logs s) of
     ((s1, es1, p1), (s2, es2, p2)) \<Rightarrow> es1 = es2 \<and> p1 = p2 \<and> (\<not> p1 \<longrightarrow> s1 = s2)"
proof -
  obtain a es p where a: "batchLoop (batchStep env cfg) logs s = (a, es, p)" by (metis prod_cases3)
  obtain b es' p' where b: "batchLoop (Apply env cfg) logs s = (b, es', p')" by (metis prod_cases3)
  show ?thesis
    using batchLoop_Apply [OF a b assms(2)] assms a b by (cases p) (auto simp: ApplyBatch_def onStore_def)
qed

definition exampleCfg :: FsmConfig where
  "exampleCfg = \<lparr>RetentionAutoCreate = True, cfg_ExpandShardsEnable = True, UseIncSyncData = True,
     cfg_PtNumPerNode = 1, cfg_NumOfShards = 0\<rparr>"

definition exampleLog :: "LogEntry list" where
  "exampleLog =
     [\<lparr>log_Term = 1, log_Index = 4, log_IsCommand = True, log_Cmd = UserC (CreateUserCommand ''root'' ''h'' True False), log_Now = 0\<rparr>,
      \<lparr>log_Term = 2, log_Index = 5, log_IsCommand = True, log_Cmd = UserC (CreateUserCommand ''u'' ''h'' True False), log_Now = 0\<rparr>,
      \<lparr>log_Term = 2, log_Index = 6, log_IsCommand = True, log_Cmd = NodeC (MarkBalancerCommand True), log_Now = 0\<rparr>]"

text \<open>A log of three entries whose second command is refused: the batch stores the third entry's index.\<close>

theorem ApplyBatch_sequential_witness:
  "exampleLog \<noteq> [] \<and> list_all log_IsCommand exampleLog \<and>
   (case (ApplyBatch exampleEnv exampleCfg exampleLog (NewStore exampleCfg), batchLoop (Apply exampleEnv exampleCfg) exampleLog (NewStore exampleCfg)) of
     ((s1, es1, p1), (s2, es2, p2)) \<Rightarrow> es1 = [None, Some (Err ''ErrUserForbidden''), None] \<and> es2 = es1 \<and> s1 = s2
        \<and> Index (fsm_data s2) = 6)"
proof -
  have ne: "exampleLog \<noteq> []" "list_all log_IsCommand exampleLog" by (simp_all add: exampleLog_def)
  obtain s1 es1 p1 where 1: "ApplyBatch exampleEnv exampleCfg exampleLog (NewStore exampleCfg) = (s1, es1, p1)" by (metis prod_cases3)
  obtain s2 es2 p2 where 2: "batchLoop (Apply exampleEnv exampleCfg) exampleLog (NewStore exampleCfg) = (s2, es2, p2)" by (metis prod_cases3)
  have "es2 = [None, Some (Err ''ErrUserForbidden''), None] \<and> \<not> p2 \<and> Index (fsm_data s2) = 6"
    using 2 by (auto simp: exampleLog_def Apply_def onData_def recordOp_def recordedCmd_def ApplyCreateUser_def CreateUser_def
        GetUser_def HasAdminUser_def NewStore_def exampleCfg_def zeroData_def AddCmdAsOpToOpMap_def commandUseForClient_def
        MarkBalancer_def stamp_def Let_def)
  then show ?thesis
    using ApplyBatch_sequential [OF ne, of exampleEnv exampleCfg "NewStore exampleCfg"] 1 2 ne by auto
qed

end
