(* ===== verification/MetaFSMInv.thy ===== *)
theory MetaFSMInv
  imports MetaFSM "HOL-Library.Multiset"
begin

text \<open>
  What every run of the state machine keeps: node ids and addresses stay unambiguous, at most one administrator,
  disjoint query id ranges, a well-formed operation log, and the names of the continuous queries in the store are
  exactly those of the catalogue, each leased by exactly one SQL node. Most commands touch none of this; the first part
  shows that for each operation.
\<close>

section \<open>Operations that leave nodes, users and continuous queries alone\<close>

definition cqOf :: "(string, DatabaseInfo) gomap \<Rightarrow> (string \<times> string list) multiset" where
  "cqOf m = mset (map (\<lambda>(k, di). (k, map fst (db_ContinuousQueries di))) m)"

definition bystander :: "'c Data \<Rightarrow> NodeInfo list \<times> DataNode list \<times> DataNode list \<times> nat \<times> UserInfo list \<times> bool
    \<times> (string, nat) gomap \<times> (string \<times> string list) multiset" where
  "bystander d = (MetaNodes d, DataNodes d, SqlNodes d, MaxNodeID d, Users d, AdminUserExists d, QueryIDInit d, cqOf (Databases d))"

named_theorems bystanders

lemma bystander_upd [bystanders]:
  "bystander (PtView_update f d) = bystander d" "bystander (ReplicaGroups_update g d) = bystander d"
  "bystander (Streams_update h d) = bystander d" "bystander (MigrateEvents_update i d) = bystander d"
  "bystander (MaxShardGroupID_update n d) = bystander d" "bystander (MaxShardID_update n d) = bystander d"
  "bystander (MaxMstID_update n d) = bystander d" "bystander (MaxIndexGroupID_update n d) = bystander d"
  "bystander (MaxIndexID_update n d) = bystander d" "bystander (MaxDownSampleID_update n d) = bystander d"
  "bystander (MaxStreamID_update n d) = bystander d" "bystander (MaxSubscriptionID_update n d) = bystander d"
  "bystander (MaxEventOpId_update n d) = bystander d" "bystander (MaxCQChangeID_update n d) = bystander d"
  "bystander (TakeOverEnabled_update b d) = bystander d" "bystander (BalancerEnabled_update b d) = bystander d"
  "bystander (ClusterPtNum_update n d) = bystander d"
  by (simp_all add: bystander_def)

lemma bystander_Databases: "cqOf m = cqOf (Databases d) \<Longrightarrow> bystander (d\<lparr>Databases := m\<rparr>) = bystander d"
  by (simp add: bystander_def)

lemma cqOf_mmodify:
  "(\<And>di. map fst (db_ContinuousQueries (f di)) = map fst (db_ContinuousQueries di)) \<Longrightarrow> cqOf (mmodify k f m) = cqOf m"
  by (induction m) (auto simp: cqOf_def mmodify_def)

lemma cqOf_mmap:
  "(\<And>di. map fst (db_ContinuousQueries (f di)) = map fst (db_ContinuousQueries di)) \<Longrightarrow> cqOf (mmap f m) = cqOf m"
  by (induction m) (auto simp: cqOf_def mmap_def)

lemma bystander_putDB:
  "(\<And>di. map fst (db_ContinuousQueries (f di)) = map fst (db_ContinuousQueries di)) \<Longrightarrow> bystander (putDB db f d) = bystander d"
  unfolding putDB_def by (rule bystander_Databases) (rule cqOf_mmodify)

lemma bystander_put [bystanders]: "bystander (putRP db rp g d) = bystander d" "bystander (putMst db rp m h d) = bystander d"
  by (simp_all add: putRP_def putMst_def bystander_putDB)

lemma bystander_loopE:
  assumes "\<And>x d. bystander (fst (f x d)) = bystander d"
  shows "bystander (fst (loopE f xs d)) = bystander d"
  by (rule loopE_inv [where P = "\<lambda>d'. bystander d' = bystander d"]) (auto simp: assms)

lemma ptFrame_bystander: "ptFrame d d' \<Longrightarrow> bystander d' = bystander d"
  by (auto simp: ptFrame_def bystander_def)

lemma bystander_updatePtStatus [bystanders]: "bystander (fst (updatePtStatus env db i n st d)) = bystander d"
  by (rule ptFrame_bystander) (rule ptFrame_updatePtStatus)

lemma bystander_pt [bystanders]:
  "bystander (fst (UpdatePtVersion db i d)) = bystander d"
  "bystander (fst (UpdatePtInfo env db p n st d)) = bystander d"
  "bystander (fst (UpdateReplication db i m ps d)) = bystander d"
  by (simp_all add: UpdatePtVersion_def UpdateReplication_def UpdatePtInfo_def putRG_def Let_def bystanders
      split: option.split prod.split)

lemma bystander_ChooseRG [bystanders]:
  "bystander (fst (NodeHardChooseRG db nn r d)) = bystander d" "bystander (fst (AzHardChooseRG db nn r d)) = bystander d"
  by (simp_all add: NodeHardChooseRG_def AzHardChooseRG_def ptFrame_bystander [OF ptFrame_joinRpGroup] split: option.split)

lemma bystander_CreateDBPtView: "bystander (fst (snd (CreateDBPtView env db d))) = bystander d"
proof -
  have "bystander (fst (assignPts env db ns d)) = bystander d" for ns
    by (simp add: assignPts_def bystander_loopE bystanders)
  then show ?thesis by (simp add: CreateDBPtView_def assignPtForSS_def assignPtForWAF_def split: HaPolicy.split)
qed

lemma bystander_CreateDBReplication [bystanders]: "bystander (fst (CreateDBReplication env db n d)) = bystander d"
  by (simp add: CreateDBReplication_def NodeHardCreateDBRG_def AzHardCreateDBRG_def bystander_loopE expandDBRG_def bystanders
      split: RepDisPolicy.split)

lemma bystander_ApplyCreateDbPtViewCommand [bystanders]:
  "bystander (fst (ApplyCreateDbPtViewCommand env db n d)) = bystander d"
proof -
  obtain b d1 e where 1: "CreateDBPtView env db d = (b, d1, e)" by (metis prod_cases3)
  then have "bystander d1 = bystander d" using bystander_CreateDBPtView [of env db d] by simp
  then show ?thesis using 1 by (cases e) (simp_all add: ApplyCreateDbPtViewCommand_def bystanders)
qed

lemma createIndexGroupIfNeeded_bystander:
  "createIndexGroupIfNeeded env t et n rp d = (ig, rp', d') \<Longrightarrow> bystander d' = bystander d"
  by (auto simp: createIndexGroupIfNeeded_def CreateIndexGroup_def Let_def bystanders split: option.splits if_splits)

lemma addShardGroup_bystander: "addShardGroup env t tier et v m rp d = Inr (rp', d') \<Longrightarrow> bystander d' = bystander d"
proof -
  assume a: "addShardGroup env t tier et v m rp d = Inr (rp', d')"
  obtain ig rp1 d1 where 1: "createIndexGroupIfNeeded env t et (ClusterPtNum d) rp d = (ig, rp1, d1)" by (metis prod_cases3)
  obtain sg0 d2 where 2: "newShardGroup env t et v rp1 d1 = (sg0, d2)" by (metis surj_pair)
  obtain sg d3 where 3: "createShards ig rp1 m tier sg0 d2 = (sg, d3)" by (metis surj_pair)
  have "d' = d3" using a 1 2 3 by (auto simp: addShardGroup_def split: if_splits option.splits)
  moreover have "bystander d3 = bystander d2" using 3 by (auto simp: createShards_def Let_def bystanders)
  moreover have "bystander d2 = bystander d1" using 2 by (auto simp: newShardGroup_def Let_def bystanders)
  ultimately show ?thesis using createIndexGroupIfNeeded_bystander [OF 1] by simp
qed

lemma bystander_CreateShardGroup [bystanders]: "bystander (fst (CreateShardGroup env db rp t tier et v d)) = bystander d"
  by (auto simp: CreateShardGroup_def bystanders dest: addShardGroup_bystander
      split: option.split sum.split list.split prod.split)

lemma bystander_ReSharding [bystanders]: "bystander (fst (ReSharding info d)) = bystander d"
proof -
  have 1: "bystander d' = bystander d" if "createIndexGroup t rp d = (rp', d')" for t rp rp' d'
    using that by (auto simp: createIndexGroup_def Let_def bystanders)
  have 2: "bystander d'' = bystander d'" if "CreateShardGroupWithBounds t bs et rp d' = Inr (rp', d'')" for t bs et rp d' rp' d''
    using that by (auto simp: CreateShardGroupWithBounds_def Let_def bystanders split: if_splits)
  show ?thesis
  proof (cases "data_RetentionPolicy (rs_Database info) (rs_Rp info) d")
    case (Inr rp)
    obtain rp1 d1 where d1: "createIndexGroup (Unix0 (rs_SplitTime info + 1)) rp d = (rp1, d1)" by (metis surj_pair)
    show ?thesis
      using 1 [OF d1] by (auto simp: ReSharding_def Inr Let_def d1 bystanders dest: 2 split: sum.split prod.split)
  qed (simp add: ReSharding_def)
qed

lemma walkE_map:
  assumes "walkE f xs s = Inr (ys, s')" "\<And>x s y s'. f x s = Inr (y, s') \<Longrightarrow> g y = g x"
  shows "map g ys = map g xs"
  using assms(1)
proof (induction xs arbitrary: s ys)
  case (Cons x xs)
  then show ?case using assms(2) by (auto split: sum.splits prod.splits)
qed simp

lemma ExpandGroups_cqOf:
  assumes "ExpandGroups env d = Inr d'"
  shows "cqOf (Databases d') = cqOf (Databases d)"
proof -
  let ?g = "\<lambda>(k, di). (k :: string, map fst (db_ContinuousQueries di))"
  obtain dbs d1 where w: "walkMap (expandDB env (ClusterPtNum d)) (Databases d) d = Inr (dbs, d1)" "Databases d' = dbs"
    using assms by (auto simp: ExpandGroups_def split: sum.splits)
  have "map ?g dbs = map ?g (sort_key fst (Databases d))"
    using w(1) unfolding walkMap_def by (rule walkE_map) (auto simp: expandDB_def split: sum.splits prod.splits)
  then have "mset (map ?g dbs) = mset (map ?g (sort_key fst (Databases d)))" by (rule arg_cong)
  also have "\<dots> = mset (map ?g (Databases d))" by (simp only: mset_map mset_sort)
  finally show ?thesis unfolding cqOf_def w(2) .
qed

lemma bystander_ExpandGroups: "ExpandGroups env d = Inr d' \<Longrightarrow> bystander d' = bystander d"
  using groupFrame_ExpandGroups [of env d d'] ExpandGroups_cqOf [of env d d'] by (auto simp: groupFrame_def bystander_def)

lemma mapE_map:
  assumes "mapE f m = Inr m'" "\<And>v w. f v = Inr w \<Longrightarrow> g w = g v"
  shows "map (\<lambda>(k, v). (k, g v)) m' = map (\<lambda>(k, v). (k, g v)) m"
  using assms(1)
proof (induction m arbitrary: m')
  case (Cons p m)
  then show ?case using assms(2) by (cases p) (auto split: sum.splits)
qed simp

lemma bystander_walkRPs [bystanders]: "bystander (fst (walkRPs f d)) = bystander d"
proof (cases "fst (walkRPs f d) = d")
  case False
  let ?F = "\<lambda>db. case mapE f (db_RetentionPolicies db) of
      Inl e \<Rightarrow> Inl e | Inr rps \<Rightarrow> Inr (db\<lparr>db_RetentionPolicies := rps\<rparr>)"
  obtain m where m: "mapE ?F (Databases d) = Inr m" "fst (walkRPs f d) = d\<lparr>Databases := m\<rparr>"
    using False by (auto simp: walkRPs_def split: sum.splits)
  have "map (\<lambda>(k, v). (k, map fst (db_ContinuousQueries v))) m = map (\<lambda>(k, v). (k, map fst (db_ContinuousQueries v))) (Databases d)"
    by (rule mapE_map [OF m(1), where g = "\<lambda>v. map fst (db_ContinuousQueries v)"]) (auto split: sum.splits)
  then show ?thesis unfolding m(2) by (intro bystander_Databases) (simp add: cqOf_def)
qed simp

lemma bystander_groups [bystanders]:
  "bystander (fst (DeleteIndexGroup now db rp i d)) = bystander d"
  "bystander (fst (DeleteShardGroup now db rp i at ty d)) = bystander d"
  "bystander (fst (UpdateShardInfoTier i tier db rp d)) = bystander d"
  "bystander (fst (UpdateShardDownSampleInfo ident d)) = bystander d"
  "bystander (fst (PruneGroups env b i d)) = bystander d"
  "bystander (fst (CreateDownSamplePolicy db rp info d)) = bystander d"
  "bystander (fst (DropDownSamplePolicy db rp all' d)) = bystander d"
  "bystander (fst (applyExpandGroupsCommand env d)) = bystander d"
  by (simp_all add: DeleteIndexGroup_def DeleteShardGroup_def UpdateShardInfoTier_def UpdateShardDownSampleInfo_def
      PruneGroups_def pruneShardGroups_def pruneIndexGroups_def CreateDownSamplePolicy_def DropDownSamplePolicy_def
      applyExpandGroupsCommand_def Let_def bystanders bystander_putDB bystander_ExpandGroups split: sum.split option.split)

lemma bystander_UpdateRetentionPolicy [bystanders]: "bystander (fst (UpdateRetentionPolicy db n u b d)) = bystander d"
proof (cases "data_GetDatabase db d")
  case di: (Inr di)
  show ?thesis
  proof (cases "db_GetRetentionPolicy di n")
    case rp: (Inr rp)
    have "bystander (fst (case r of (c, None) \<Rightarrow> (putDB db (F c) d, None) | (c, Some e) \<Rightarrow> (d, Some e))) = bystander d"
      if "\<And>c di. map fst (db_ContinuousQueries (F c di)) = map fst (db_ContinuousQueries di)"
      for r :: "RetentionPolicyInfo \<times> err option" and F
      by (cases r; cases "snd r") (simp_all add: bystander_putDB that)
    then show ?thesis
      by (cases "checkUpdateRetentionPolicyName di n (rpu_Name u)") (simp_all add: UpdateRetentionPolicy_def di rp Let_def)
  qed (simp add: UpdateRetentionPolicy_def di)
qed (simp add: UpdateRetentionPolicy_def)

lemma bystander_policies [bystanders]:
  "bystander (fst (CreateRetentionPolicy db rpo b d)) = bystander d"
  "bystander (fst (DropRetentionPolicy db n d)) = bystander d"
  "bystander (fst (SetDefaultRetentionPolicy db n d)) = bystander d"
  "bystander (fst (MarkDatabaseDelete db d)) = bystander d"
  "bystander (fst (MarkRetentionPolicyDelete db n d)) = bystander d"
  "bystander (fst (CreateSubscription db rp s m ds d)) = bystander d"
  by (simp_all add: CreateRetentionPolicy_def DropRetentionPolicy_def SetDefaultRetentionPolicy_def MarkDatabaseDelete_def
      MarkRetentionPolicyDelete_def CreateSubscription_def SetRetentionPolicy_def Let_def bystanders bystander_putDB
      split: sum.split option.split prod.split)

lemma bystander_DropSubscription [bystanders]: "bystander (fst (DropSubscription db rp n d)) = bystander d"
proof -
  have c: "map fst (db_ContinuousQueries (clearSubs di)) = map fst (db_ContinuousQueries di)" for di
    by (simp add: clearSubs_def)
  have b: "bystander (fst (bumpSub d)) = bystander d" for d :: "'c Data" by (simp add: bumpSub_def bystanders)
  have r: "bystander (fst (dropSubRP db rp n d)) = bystander d" for rp and d :: "'c Data"
    by (simp add: dropSubRP_def b bystanders Let_def split: sum.split option.split)
  show ?thesis
    by (simp add: DropSubscription_def b r c bystander_putDB bystander_Databases cqOf_mmap split: option.split)
qed

lemma bystander_Measurement: "bystander (fst (data_Measurement db rp m d)) = bystander d"
  by (simp add: data_Measurement_def bystanders split: sum.split option.split)

lemma bystander_UpdateSchema [bystanders]: "bystander (fst (UpdateSchema env db rp m fs d)) = bystander d"
  using bystander_Measurement [of db rp m d]
  by (cases "data_Measurement db rp m d"; cases "snd (data_Measurement db rp m d)")
    (simp_all add: UpdateSchema_def bystanders split: prod.split)

lemma bystander_createVersionMeasurement [bystanders]:
  "bystander (fst (createVersionMeasurement env db rpn rp sk n ir m v et cs fs opt d)) = bystander d"
  unfolding createVersionMeasurement_def Let_def by (simp add: bystanders split: option.split)

lemma bystander_CreateMeasurement [bystanders]:
  "bystander (fst (CreateMeasurement env db rpn m sk n ir et cs fs opt d)) = bystander d"
proof (cases "data_RetentionPolicy db rpn d")
  case rp: (Inr rp)
  show ?thesis
    by (cases "rp_Measurement rp m"; cases sk)
      (simp_all add: CreateMeasurement_def rp bystanders split: option.split)
qed (simp add: CreateMeasurement_def)

lemma bystander_msts [bystanders]:
  "bystander (fst (AlterShardKey db rp m sk d)) = bystander d"
  "bystander (fst (DropMeasurement db rp m d)) = bystander d"
  "bystander (fst (UpdateMeasurement db rp m opts d)) = bystander d"
  by (simp_all add: AlterShardKey_def DropMeasurement_def UpdateMeasurement_def Let_def bystanders split: sum.split option.split)

lemma bystander_MarkMeasurementDelete [bystanders]: "bystander (fst (MarkMeasurementDelete db rp m d)) = bystander d"
  using bystander_Measurement [of db rp m d]
  by (cases "data_Measurement db rp m d"; cases "snd (data_Measurement db rp m d)")
    (simp_all add: MarkMeasurementDelete_def bystanders split: option.split)

lemma bystander_events [bystanders]:
  "bystander (fst (SetStream s d)) = bystander d" "bystander (fst (CreateStream so d)) = bystander d"
  "bystander (fst (DropStream n d)) = bystander d" "bystander (fst (CreateMigrateEvent b e d)) = bystander d"
  "bystander (fst (UpdateMigrateEvent e d)) = bystander d" "bystander (fst (RemoveEventInfo i d)) = bystander d"
  "bystander (fst (applyNotifyCQLeaseChangedCommand d)) = bystander d"
  by (simp_all add: SetStream_def CreateStream_def DropStream_def CreateMigrateEvent_def UpdateMigrateEvent_def RemoveEventInfo_def
      applyNotifyCQLeaseChangedCommand_def Let_def bystanders split: option.split)

lemma bystander_CQReport [bystanders]: "bystander (fst (BatchUpdateContinuousQueryStat cqs d)) = bystander d"
proof -
  have "map fst (fold (\<lambda>(n, t). mmodify n (\<lambda>cq. cq\<lparr>cq_LastRunTime := Unix0 t\<rparr>)) cqs m) = map fst m" for m :: "(string, ContinuousQueryInfo) gomap"
  proof (induction cqs arbitrary: m)
    case (Cons p cqs)
    then show ?case by (cases p) (simp add: mmodify_def case_prod_unfold comp_def)
  qed simp
  then show ?thesis by (simp add: BatchUpdateContinuousQueryStat_def bystander_Databases cqOf_mmap)
qed

lemma bystander_discardErr [bystanders]: "bystander (fst (discardErr r)) = bystander (fst r)"
  by (simp add: discardErr_def)

lemma bystander_groupCmd: "bystander (fst (applyGroupCmd env now c d)) = bystander d"
  by (cases c) (simp_all add: ApplyCreateShardGroup_def ApplyDeleteShardGroup_def ApplyDeleteIndexGroup_def ApplyPruneGroups_def
      ApplyReSharding_def ApplyUpdateShardInfoTier_def ApplyUpdateShardDownSampleInfo_def ApplyCreateDownSample_def
      ApplyDropDownSample_def bystanders)

lemma bystander_mstCmd: "bystander (fst (applyMstCmd env c d)) = bystander d"
  by (cases c) (simp_all add: ApplyCreateMeasurement_def ApplyUpdateSchema_def ApplyAlterShardKey_def ApplyMarkMeasurementDelete_def
      ApplyDropMeasurement_def ApplyUpdateMeasurement_def bystanders)

lemma bystander_ptCmd: "bystander (fst (applyPtCmd env c d)) = bystander d"
  by (cases c) (simp_all add: ApplyUpdatePtInfo_def ApplyUpdatePtVersion_def ApplyUpdateReplication_def bystanders)

section \<open>Nodes\<close>

definition nonNodes :: "'c Data \<Rightarrow> UserInfo list \<times> bool \<times> (string, nat) gomap \<times> (string \<times> string list) multiset" where
  "nonNodes d = (Users d, AdminUserExists d, QueryIDInit d, cqOf (Databases d))"

lemma nonNodes_upd [simp]:
  "nonNodes (MetaNodes_update f d) = nonNodes d" "nonNodes (DataNodes_update g d) = nonNodes d"
  "nonNodes (SqlNodes_update g d) = nonNodes d" "nonNodes (MaxNodeID_update n d) = nonNodes d"
  "nonNodes (MaxConnID_update n d) = nonNodes d" "nonNodes (ClusterID_update n d) = nonNodes d"
  "nonNodes (ClusterPtNum_update n d) = nonNodes d" "nonNodes (ExpandShardsEnable_update b d) = nonNodes d"
  "nonNodes (TakeOverEnabled_update b d) = nonNodes d" "nonNodes (BalancerEnabled_update b d) = nonNodes d"
  by (simp_all add: nonNodes_def)

lemma nonNodes_ptFrame: "ptFrame d d' \<Longrightarrow> nonNodes d' = nonNodes d"
  by (auto simp: ptFrame_def nonNodes_def)

lemma nonNodes_ExpandGroups: "ExpandGroups env d = Inr d' \<Longrightarrow> nonNodes d' = nonNodes d"
  using bystander_ExpandGroups [of env d d'] by (auto simp: bystander_def nonNodes_def)

lemma nonNodes_expand:
  "nonNodes (fst (case l of (d3, Some e) \<Rightarrow> (d3, Inl e)
     | (d3, None) \<Rightarrow> if ExpandShardsEnable d3 then
         case ExpandGroups env d3 of Inl e \<Rightarrow> (d3, Inl e) | Inr d4 \<Rightarrow> (d4, Inr i) else (d3, Inr i))) = nonNodes (fst l)"
  by (auto simp: nonNodes_ExpandGroups split: prod.split option.split sum.split)

lemma nonNodes_expandLoop:
  "nonNodes (fst (loopE (\<lambda>db. expandDBPtView env db n dn) dbs d)) = nonNodes d"
  by (rule nonNodes_ptFrame [OF ptFrame_loopE]) (rule ptFrame_expandDBPtView)

lemma nonNodes_CreateDataNode: "nonNodes (fst (CreateDataNode env host tcp role az d)) = nonNodes d"
  by (cases "chooseID (MaxNodeID d) tcp (map (\<lambda>n. (ni_ID n, ni_TCPHost n)) (MetaNodes d))";
      cases "find (\<lambda>n. ni_TCPHost n = tcp) (DataNodes d)")
    (simp_all add: CreateDataNode_def Let_def nonNodes_expand nonNodes_expandLoop initDataNodePtView_def if_distrib [of fst]
      if_distrib [of nonNodes])

lemma nonNodes_nodeCmd: "nonNodes (fst (applyNodeCmd env cfg c d)) = nonNodes d"
proof -
  have meta: "nonNodes (fst (CreateMetaNode http rpc tcp d)) = nonNodes d"
    "nonNodes (fst (SetMetaNode http rpc tcp d)) = nonNodes d" for http rpc tcp and d :: "Cmd Data"
    by (auto simp: CreateMetaNode_def SetMetaNode_def Let_def split: list.split prod.split)
  have sql: "nonNodes (fst (CreateSqlNode http g d)) = nonNodes d" for http g and d :: "Cmd Data"
    by (auto simp: CreateSqlNode_def Let_def split: option.split prod.split)
  have status: "nonNodes (fst (UpdateNodeStatus env i st lt g d)) = nonNodes d" for i st lt g and d :: "Cmd Data"
  proof -
    have "nonNodes (fst (updatePtViewStatus env i Offline (d\<lparr>DataNodes := ns\<rparr>))) = nonNodes d" for ns
      using nonNodes_ptFrame [OF ptFrame_updatePtViewStatus, of env i Offline "d\<lparr>DataNodes := ns\<rparr>"] by simp
    then show ?thesis by (simp add: UpdateNodeStatus_def Let_def split: option.split)
  qed
  show ?thesis
  proof (cases c)
    case (CreateMetaNodeCommand http rpc tcp r)
    then show ?thesis using meta(1) [of http rpc tcp d]
      by (cases "CreateMetaNode http rpc tcp d"; cases "snd (CreateMetaNode http rpc tcp d)") (auto simp: ApplyCreateMetaNode_def)
  next
    case (SetMetaNodeCommand http rpc tcp r)
    then show ?thesis using meta(2) [of http rpc tcp d]
      by (cases "SetMetaNode http rpc tcp d"; cases "snd (SetMetaNode http rpc tcp d)") (auto simp: ApplySetMetaNode_def)
  next
    case (CreateDataNodeCommand http tcp role az)
    let ?d = "d\<lparr>ExpandShardsEnable := cfg_ExpandShardsEnable cfg\<rparr>"
    show ?thesis using nonNodes_CreateDataNode [of env http tcp role az ?d] CreateDataNodeCommand
      by (cases "CreateDataNode env http tcp role az ?d"; cases "snd (CreateDataNode env http tcp role az ?d)")
        (auto simp: applyCreateDataNodeCommand_def ApplyCreateDataNode_def Let_def split: option.split)
  next
    case (CreateSqlNodeCommand http g)
    let ?d = "d\<lparr>ExpandShardsEnable := cfg_ExpandShardsEnable cfg\<rparr>"
    show ?thesis using sql [of http g ?d] CreateSqlNodeCommand
      by (cases "CreateSqlNode http g ?d"; cases "snd (CreateSqlNode http g ?d)")
        (auto simp: applyCreateSqlNodeCommand_def reconnectSqlNode_def split: option.split)
  qed (auto simp: ApplyDeleteMetaNode_def DeleteMetaNode_def ApplyDeleteDataNode_def DeleteDataNode_def ApplyUpdateNodeStatus_def
      status UpdateSqlNodeStatus_def ApplySetNodeSegregateStatus_def discardErr_def SetSegregateNodeStatus_def ApplyRemoveNode_def
      RemoveNode_def UpdateNodeTmpIndex_def SetSqlNodeIndex_def SetDataNodeIndex_def MarkTakeover_def MarkBalancer_def Let_def
      split: option.split sum.split prod.split)
qed


definition nodesUpTo :: "nat \<Rightarrow> 'c Data \<Rightarrow> bool" where
  "nodesUpTo n d \<longleftrightarrow> nodesInv d \<and> MaxNodeID d \<le> n"

lemma nodesUpTo_Suc: "nodesUpTo n d \<Longrightarrow> nodesUpTo (Suc n) d"
  by (simp add: nodesUpTo_def)

lemma nodesUpTo_same:
  "MetaNodes d' = MetaNodes d \<Longrightarrow> DataNodes d' = DataNodes d \<Longrightarrow> SqlNodes d' = SqlNodes d \<Longrightarrow> MaxNodeID d' = MaxNodeID d
   \<Longrightarrow> nodesUpTo n d' = nodesUpTo n d"
  using nodesInv_cong [of d' d] by (simp add: nodesUpTo_def)

lemma nodesUpTo_bystander: "bystander d' = bystander d \<Longrightarrow> nodesUpTo n d' = nodesUpTo n d"
  by (intro nodesUpTo_same) (simp_all add: bystander_def)

lemma nodesUpTo_reconnect:
  assumes "nodesUpTo n d"
  shows "nodesUpTo n (d\<lparr>MaxConnID := c, DataNodes := updFirst p (\<lambda>n. n\<lparr>dn_ConnID := c\<rparr>) (DataNodes d)\<rparr>)"
    "nodesUpTo n (d\<lparr>MaxConnID := c, SqlNodes := updFirst p (\<lambda>n. n\<lparr>dn_ConnID := c\<rparr>) (SqlNodes d)\<rparr>)"
  using assms nodeKeys_updFirst [of "\<lambda>n. n\<lparr>dn_ConnID := c\<rparr>" p]
  unfolding nodesUpTo_def by (auto intro: nodesInv_keys [of d])

lemma MaxNodeID_UpdateNodeStatus: "MaxNodeID (fst (UpdateNodeStatus env i st lt g d)) = MaxNodeID d"
proof -
  have "MaxNodeID (fst (updatePtViewStatus env i Offline (d\<lparr>DataNodes := ns\<rparr>))) = MaxNodeID d" for ns
    using ptFrame_updatePtViewStatus [of "d\<lparr>DataNodes := ns\<rparr>" env i Offline] by (auto simp: ptFrame_def)
  then show ?thesis by (simp add: UpdateNodeStatus_def Let_def split: option.split)
qed

text \<open>Only \<open>SetMetaNodeCommand\<close>, which joins the nodes of an existing cluster, can repeat an id.\<close>

definition joinsCluster :: "Cmd \<Rightarrow> bool" where
  "joinsCluster c = (case c of NodeC (SetMetaNodeCommand _ _ _ _) \<Rightarrow> True | _ \<Rightarrow> False)"

lemma nodesUpTo_nodeCmd:
  assumes "nodesUpTo n d" "n < 18446744073709551615" "\<not> joinsCluster (NodeC c)"
  shows "nodesUpTo (Suc n) (fst (applyNodeCmd env cfg c d))"
proof -
  have m: "MaxNodeID d < 18446744073709551615" and inv: "nodesInv d" and le: "MaxNodeID d \<le> n"
    using assms(1,2) by (simp_all add: nodesUpTo_def)
  have e: "nodesUpTo n (d\<lparr>ExpandShardsEnable := b\<rparr>)" "nodesInv (d\<lparr>ExpandShardsEnable := b\<rparr>)" for b
    using assms(1) nodesUpTo_same [of "d\<lparr>ExpandShardsEnable := b\<rparr>" d n] by (simp_all add: nodesUpTo_def)
  show ?thesis
  proof (cases c)
    case (CreateMetaNodeCommand http rpc tcp r)
    obtain d' x where c': "CreateMetaNode http rpc tcp d = (d', x)" by (metis surj_pair)
    have "nodesUpTo (Suc n) d'" using CreateMetaNode_nodesInv [OF inv m c'] le by (simp add: nodesUpTo_def)
    moreover from this have "nodesUpTo (Suc n) (d'\<lparr>ClusterID := r\<rparr>)" by (subst nodesUpTo_same [of _ d']) simp_all
    ultimately show ?thesis using c' CreateMetaNodeCommand by (simp add: ApplyCreateMetaNode_def split: option.split)
  next
    case (CreateDataNodeCommand http tcp role az)
    let ?d = "d\<lparr>ExpandShardsEnable := cfg_ExpandShardsEnable cfg\<rparr>"
    obtain d' x where c': "CreateDataNode env http tcp role az ?d = (d', x)" by (metis surj_pair)
    have "nodesUpTo (Suc n) d'" using CreateDataNode_nodesInv [OF e(2) _ c'] m le by (simp add: nodesUpTo_def)
    then show ?thesis
      using c' CreateDataNodeCommand nodesUpTo_reconnect(1) [OF nodesUpTo_Suc [OF e(1)]] nodesUpTo_Suc [OF e(1)]
      by (simp add: applyCreateDataNodeCommand_def ApplyCreateDataNode_def Let_def split: option.split sum.split)
  next
    case (CreateSqlNodeCommand http g)
    let ?d = "d\<lparr>ExpandShardsEnable := cfg_ExpandShardsEnable cfg\<rparr>"
    obtain d' x where c': "CreateSqlNode http g ?d = (d', x)" by (metis surj_pair)
    have "nodesUpTo (Suc n) d'" using CreateSqlNode_nodesInv [OF e(2) _ c'] m le by (simp add: nodesUpTo_def)
    then show ?thesis
      using c' CreateSqlNodeCommand nodesUpTo_reconnect(2) [OF nodesUpTo_Suc [OF assms(1)]]
      by (simp add: applyCreateSqlNodeCommand_def reconnectSqlNode_def split: option.split sum.split)
  next
    case (MarkTakeoverCommand b)
    then show ?thesis using nodesUpTo_Suc [OF assms(1)] nodesUpTo_same [of "MarkTakeover b d" d "Suc n"] by (simp add: MarkTakeover_def)
  next
    case (MarkBalancerCommand b)
    then show ?thesis using nodesUpTo_Suc [OF assms(1)] nodesUpTo_same [of "MarkBalancer b d" d "Suc n"] by (simp add: MarkBalancer_def)
  next
    case (DeleteMetaNodeCommand i)
    then show ?thesis
      using DeleteMetaNode_nodesInv [OF inv, of i] le by (auto simp: nodesUpTo_def ApplyDeleteMetaNode_def DeleteMetaNode_def Let_def)
  next
    case (UpdateNodeStatusCommand i st lt g)
    then show ?thesis using UpdateNodeStatus_nodesInv [OF inv, of env i st lt g] MaxNodeID_UpdateNodeStatus [of env i st lt g d] le
      by (simp add: nodesUpTo_def ApplyUpdateNodeStatus_def)
  next
    case (UpdateSqlNodeStatusCommand i st lt g)
    then show ?thesis
      using UpdateSqlNodeStatus_nodesInv [OF inv, of i st lt] le by (auto simp: nodesUpTo_def UpdateSqlNodeStatus_def split: option.split)
  next
    case (SetNodeSegregateStatusCommand st ids)
    then show ?thesis using SetSegregateNodeStatus_nodesInv [OF inv, of st ids] le
      by (auto simp: nodesUpTo_def ApplySetNodeSegregateStatus_def discardErr_def SetSegregateNodeStatus_def split: sum.split)
  next
    case (RemoveNodeCommand ids)
    then show ?thesis using RemoveNode_nodesInv [OF inv, of ids] le by (simp add: nodesUpTo_def ApplyRemoveNode_def RemoveNode_def)
  next
    case (UpdateNodeTmpIndexCommand role idx i)
    then show ?thesis using UpdateNodeTmpIndex_nodesInv [OF inv, of role idx i] le
      by (auto simp: nodesUpTo_def UpdateNodeTmpIndex_def SetSqlNodeIndex_def SetDataNodeIndex_def split: prod.split)
  qed (use assms nodesUpTo_Suc [OF assms(1)] in \<open>simp_all add: ApplyDeleteDataNode_def DeleteDataNode_def joinsCluster_def\<close>)
qed


section \<open>The names of the continuous queries\<close>

text \<open>The names in the catalogue, in the order in which \<open>restoreCQNames\<close> meets them.\<close>

definition cqListOf :: "(string, DatabaseInfo) gomap \<Rightarrow> string list" where
  "cqListOf m = concat (map (\<lambda>(_, db). map fst (db_ContinuousQueries db)) m)"

definition cqInSync :: "'c Data \<Rightarrow> CqStore \<Rightarrow> bool" where
  "cqInSync d c \<longleftrightarrow> mwf (Databases d) \<and> mset (cqNames c) = mset (cqListOf (Databases d)) \<and> cqStoreInv c \<and> leasesExact c"

lemma mset_cqListOf: "mset (cqListOf m) = \<Sum>\<^sub># (image_mset (\<lambda>(_, ns). mset ns) (cqOf m))"
  by (induction m) (auto simp: cqListOf_def cqOf_def)

lemma mwf_cqOf: "cqOf m' = cqOf m \<Longrightarrow> mwf m' = mwf m"
proof -
  have "image_mset fst (cqOf m) = mset (map fst m)" for m
    by (induction m) (auto simp: cqOf_def)
  moreover assume "cqOf m' = cqOf m"
  ultimately show ?thesis unfolding mwf_def by (metis mset_eq_imp_distinct_iff)
qed

lemma cqInSync_cong: "cqOf (Databases d') = cqOf (Databases d) \<Longrightarrow> cqInSync d' c = cqInSync d c"
  using mwf_cqOf [of "Databases d'" "Databases d"] by (simp add: cqInSync_def mset_cqListOf)

lemma mwf_split:
  assumes "mwf m" "map_of m k = Some v"
  obtains a b where "m = a @ (k, v) # b" "AList.delete k m = a @ b" "mmodify k f m = a @ (k, f v) # b"
proof -
  obtain a b where m: "m = a @ (k, v) # b" using assms(2) by (meson map_of_SomeD split_list)
  then have k: "k \<notin> fst ` set a" "k \<notin> fst ` set b" using assms(1) by (auto simp: mwf_def)
  then have "filter (\<lambda>(k', _). k \<noteq> k') a = a" "filter (\<lambda>(k', _). k \<noteq> k') b = b"
    by (force intro!: filter_True)+
  moreover have "mmodify k f ((k, v) # b) = (k, f v) # b"
    using mmodify_absent [OF k(2), of f] by (simp add: mmodify_def)
  ultimately show ?thesis using that [OF m] k by (simp add: m AList.delete_eq mmodify_append mmodify_absent)
qed

lemma cqList_delete:
  assumes "mwf m" "map_of m k = Some di"
  shows "mset (cqListOf m) = mset (map fst (db_ContinuousQueries di)) + mset (cqListOf (AList.delete k m))"
  by (rule mwf_split [OF assms, of "\<lambda>di. di"]) (simp add: cqListOf_def)

lemma cqList_modify:
  assumes "mwf m" "map_of m k = Some di"
  shows "mset (cqListOf (mmodify k f m)) = mset (map fst (db_ContinuousQueries (f di))) + mset (cqListOf (AList.delete k m))"
  by (rule mwf_split [OF assms, of f]) (simp add: cqListOf_def)


lemma distinct_cqNames: "cqInSync d c \<Longrightarrow> distinct (cqListOf (Databases d))"
  using mset_eq_imp_distinct_iff [of "cqNames c" "cqListOf (Databases d)"] by (simp add: cqInSync_def cqStoreInv_def)

lemma distinct_database_cqs:
  assumes "cqInSync d c" "map_of (Databases d) k = Some di"
  shows "distinct (map fst (db_ContinuousQueries di))" "set (map fst (db_ContinuousQueries di)) \<subseteq> set (cqNames c)"
proof -
  let ?ns = "map fst (db_ContinuousQueries di)" and ?r = "cqListOf (AList.delete k (Databases d))"
  have m: "mset (cqNames c) = mset (?ns @ ?r)" "distinct (cqNames c)"
    using assms(1) cqList_delete [OF _ assms(2)] by (simp_all add: cqInSync_def cqStoreInv_def)
  then have "distinct (?ns @ ?r)" using mset_eq_imp_distinct_iff by blast
  then show "distinct ?ns" by simp
  show "set ?ns \<subseteq> set (cqNames c)" using m(1) mset_eq_setD by fastforce
qed

lemma dropCQName_member:
  assumes "cqStoreInv c" "x \<in> set (cqNames c)"
  shows "dropCQName x c = c\<lparr>cqNames := remove1 x (cqNames c)\<rparr>" "cqStoreInv (dropCQName x c)"
  using assms removeAt_member [of "cqNames c" x] by (simp_all add: dropCQName_def cqStoreInv_def sorted_remove1)

lemma dropCQNames:
  assumes "cqStoreInv c" "distinct xs" "set xs \<subseteq> set (cqNames c)"
  shows "cqStoreInv (fold dropCQName xs c) \<and> mset (cqNames (fold dropCQName xs c)) = mset (cqNames c) - mset xs"
  using assms
proof (induction xs arbitrary: c)
  case (Cons x xs)
  have d: "dropCQName x c = c\<lparr>cqNames := remove1 x (cqNames c)\<rparr>" "cqStoreInv (dropCQName x c)"
    using Cons.prems dropCQName_member [of c x] by auto
  have "set xs \<subseteq> set (remove1 x (cqNames c))" using Cons.prems by (auto simp: cqStoreInv_def)
  then show ?case using Cons.IH [OF d(2)] Cons.prems d(1) by (simp add: diff_diff_add_mset [symmetric])
qed simp

lemma cqInSync_DropDatabase:
  assumes "cqInSync (fsm_data s) (fsm_cq s)" "applyDropDatabaseCommand name s = (s', e)"
  shows "cqInSync (fsm_data s') (fsm_cq s')"
proof (cases "data_Database name (fsm_data s)")
  case (Some dbi)
  let ?m = "Databases (fsm_data s)" and ?ns = "map fst (db_ContinuousQueries dbi)"
  have dbi: "map_of ?m name = Some dbi" using Some by (simp add: data_Database_def)
  have w: "mwf ?m" and c: "cqStoreInv (fsm_cq s)" "mset (cqNames (fsm_cq s)) = mset (cqListOf ?m)" "leasesExact (fsm_cq s)"
    using assms(1) by (simp_all add: cqInSync_def)
  note l = cqList_delete [OF w dbi]
  show ?thesis
  proof (cases "db_ContinuousQueries dbi = []")
    case True
    then have "s' = s\<lparr>fsm_data := DropDatabase name (fsm_data s)\<rparr>"
      using assms(2) Some by (simp add: applyDropDatabaseCommand_def)
    then show ?thesis using w c l True by (simp add: cqInSync_def DropDatabase_def)
  next
    case False
    note f = dropCQNames [OF c(1) distinct_database_cqs [OF assms(1) dbi]]
    obtain c' where c': "scheduleCQsWithoutLock (fold dropCQName ?ns (fsm_cq s)) = (c', None)" "cqStoreInv c'" "leasesExact c'"
        "cqNames c' = cqNames (fold dropCQName ?ns (fsm_cq s))"
      using schedule_exact f by blast
    have "s' = s\<lparr>fsm_cq := c', fsm_data := DropDatabase name ((fsm_data s)\<lparr>MaxCQChangeID := u64 (MaxCQChangeID (fsm_data s) + 1)\<rparr>)\<rparr>"
      using assms(2) Some False c'(1) by (simp add: applyDropDatabaseCommand_def)
    moreover have "mset (cqNames c') = mset (cqListOf (AList.delete name ?m))" using f c'(4) c(2) l by simp
    ultimately show ?thesis using w c' by (simp add: cqInSync_def DropDatabase_def)
  qed
qed (use assms in \<open>simp add: applyDropDatabaseCommand_def\<close>)


lemma CreateContinuousQuery_names:
  assumes "CreateContinuousQuery db n q d = (d', e)" "mwf (Databases d)"
  shows "mwf (Databases d') \<and> (mset (cqListOf (Databases d')) = mset (cqListOf (Databases d)) \<and> (e = None \<longrightarrow> n \<in> set (cqListOf (Databases d)))
    \<or> n \<notin> set (cqListOf (Databases d)) \<and> mset (cqListOf (Databases d')) = add_mset n (mset (cqListOf (Databases d))) \<and> e = None)"
proof (cases "data_GetDatabase db d")
  case (Inr dbi)
  have dbi: "map_of (Databases d) db = Some dbi" using Inr by (auto simp: data_GetDatabase_def data_Database_def split: option.splits if_splits)
  have mem: "n \<in> set (cqListOf (Databases d)) \<longleftrightarrow> (\<exists>(_, di) \<in> set (Databases d). map_of (db_ContinuousQueries di) n \<noteq> None)"
    by (force simp: cqListOf_def map_of_eq_None_iff)
  show ?thesis
  proof (cases "map_of (db_ContinuousQueries dbi) n = None \<and> n \<notin> set (cqListOf (Databases d))")
    case True
    let ?f = "\<lambda>di. di\<lparr>db_ContinuousQueries := AList.update n \<lparr>cq_Name = n, cq_Query = q, cq_LastRunTime = 0\<rparr> (db_ContinuousQueries di)\<rparr>"
    have "d' = (putDB db ?f d)\<lparr>MaxCQChangeID := u64 (MaxCQChangeID (putDB db ?f d) + 1)\<rparr>" "e = None"
      using assms(1) Inr True mem by (auto simp: CreateContinuousQuery_def CreateContinuousQueryBase_def)
    moreover have "map fst (db_ContinuousQueries (?f dbi)) = map fst (db_ContinuousQueries dbi) @ [n]"
      using True by (simp add: update_new map_of_eq_None_iff)
    ultimately show ?thesis
      using True assms(2) cqList_modify [OF assms(2) dbi, of ?f] cqList_delete [OF assms(2) dbi] by (simp add: putDB_def)
  next
    case False
    have "map_of (db_ContinuousQueries dbi) n \<noteq> None \<Longrightarrow> n \<in> set (cqListOf (Databases d))"
      unfolding mem using map_of_SomeD [OF dbi] by blast
    then have "d' = d" "n \<in> set (cqListOf (Databases d))"
      using assms(1) Inr False mem by (auto simp: CreateContinuousQuery_def CreateContinuousQueryBase_def split: option.splits if_splits)
    then show ?thesis using assms(2) by simp
  qed
qed (use assms in \<open>auto simp: CreateContinuousQuery_def CreateContinuousQueryBase_def\<close>)

lemma cqInSync_CreateCQ:
  assumes "cqInSync (fsm_data s) (fsm_cq s)" "applyCreateContinuousQueryCommand db n q s = (s', e)"
  shows "cqInSync (fsm_data s') (fsm_cq s')"
proof -
  obtain d x where d: "CreateContinuousQuery db n q (fsm_data s) = (d, x)" by (metis surj_pair)
  have w: "mwf (Databases (fsm_data s))" and c: "cqStoreInv (fsm_cq s)" "leasesExact (fsm_cq s)"
    and m: "mset (cqNames (fsm_cq s)) = mset (cqListOf (Databases (fsm_data s)))"
    using assms(1) by (simp_all add: cqInSync_def)
  note N = CreateContinuousQuery_names [OF d w]
  show ?thesis
  proof (cases x)
    case None
    obtain c' where c': "handleCQCreated n (fsm_cq s) = (c', None)" "cqStoreInv c'" "leasesExact c'"
        "set (cqNames c') = insert n (set (cqNames (fsm_cq s)))"
      using handleCQCreated_inv [OF c, of n] by blast
    have s': "s' = s\<lparr>fsm_data := d, fsm_cq := c'\<rparr>" using assms(2) d None c'(1) by (simp add: applyCreateContinuousQueryCommand_def)
    have dist: "distinct (cqNames c')" "distinct (cqNames (fsm_cq s))" using c c' by (simp_all add: cqStoreInv_def)
    have same: "set (cqNames (fsm_cq s)) = set (cqListOf (Databases (fsm_data s)))" using m mset_eq_setD by blast
    have "mset (cqNames c') = mset (cqListOf (Databases d))"
    proof (cases "n \<in> set (cqNames (fsm_cq s))")
      case True
      then have "mset (cqNames c') = mset (cqNames (fsm_cq s))"
        using c'(4) dist by (subst set_eq_iff_mset_eq_distinct [symmetric]) auto
      then show ?thesis using True N same m by auto
    next
      case False
      then have "mset (cqNames c') = mset (n # cqNames (fsm_cq s))"
        using c'(4) dist by (subst set_eq_iff_mset_eq_distinct [symmetric]) auto
      then show ?thesis using False N same m None by auto
    qed
    then show ?thesis using s' c' N by (simp add: cqInSync_def)
  next
    case (Some y)
    then have "s' = s\<lparr>fsm_data := d\<rparr>" using assms(2) d by (simp add: applyCreateContinuousQueryCommand_def)
    then show ?thesis using N c m Some by (auto simp: cqInSync_def)
  qed
qed

lemma cqInSync_DropCQ:
  assumes "cqInSync (fsm_data s) (fsm_cq s)" "applyDropContinuousQueryCommand n db s = (s', e)"
  shows "cqInSync (fsm_data s') (fsm_cq s')"
proof (cases "\<exists>dbi. data_GetDatabase db (fsm_data s) = Inr dbi \<and> map_of (db_ContinuousQueries dbi) n \<noteq> None")
  case True
  let ?d = "fsm_data s" and ?f = "\<lambda>di. di\<lparr>db_ContinuousQueries := AList.delete n (db_ContinuousQueries di)\<rparr>"
  obtain dbi where i: "data_GetDatabase db ?d = Inr dbi" "map_of (db_ContinuousQueries dbi) n \<noteq> None" using True by blast
  have dbi: "map_of (Databases ?d) db = Some dbi" using i(1) by (auto simp: data_GetDatabase_def data_Database_def split: option.splits if_splits)
  have w: "mwf (Databases ?d)" and c: "cqStoreInv (fsm_cq s)" and m: "mset (cqNames (fsm_cq s)) = mset (cqListOf (Databases ?d))"
    using assms(1) by (simp_all add: cqInSync_def)
  note dist = distinct_database_cqs [OF assms(1) dbi]
  have mem: "n \<in> set (map fst (db_ContinuousQueries dbi))" using i(2) by (simp add: map_of_eq_None_iff)
  obtain c' where c': "handleCQDropped n (fsm_cq s) = (c', None)" "cqStoreInv c'" "leasesExact c'"
      "set (cqNames c') = set (cqNames (fsm_cq s)) - {n}"
    using handleCQDropped_inv [OF c, of n] dist(2) mem by blast
  have s': "s' = s\<lparr>fsm_data := (putDB db ?f ?d)\<lparr>MaxCQChangeID := u64 (MaxCQChangeID (putDB db ?f ?d) + 1)\<rparr>, fsm_cq := c'\<rparr>"
    using assms(2) i c'(1) by (simp add: applyDropContinuousQueryCommand_def DropContinuousQuery_def DropContinuousQueryBase_def)
  have names: "map fst (db_ContinuousQueries (?f dbi)) = remove1 n (map fst (db_ContinuousQueries dbi))"
    using dist(1) by (simp add: delete_keys distinct_remove1_removeAll removeAll_filter_not_eq)
  have "mset (cqNames c') = mset (remove1 n (cqNames (fsm_cq s)))"
    using c'(2,4) c by (subst set_eq_iff_mset_eq_distinct [symmetric]) (auto simp: cqStoreInv_def)
  also have "\<dots> = mset (cqListOf (mmodify db ?f (Databases ?d)))"
    using cqList_modify [OF w dbi, of ?f] cqList_delete [OF w dbi] m mem unfolding names by simp
  finally show ?thesis using s' c' w by (simp add: cqInSync_def putDB_def)
next
  case False
  then have "s' = s"
    using assms(2) by (cases "data_GetDatabase db (fsm_data s)")
      (auto simp: applyDropContinuousQueryCommand_def DropContinuousQuery_def DropContinuousQueryBase_def)
  then show ?thesis using assms(1) by simp
qed

end
