(* ===== verification/MetaFSMRun.thy ===== *)
theory MetaFSMRun
  imports MetaFSMInv
begin

text \<open>
  Runs of the meta service: log entries are applied, SQL nodes send heartbeats and the leader looks for late nodes,
  in any order. The main results are that every run keeps the invariant of the store and that the names of the
  continuous queries that the store maintains step by step are the ones a restart would compute from the snapshot.
\<close>

section \<open>The catalogue\<close>

definition catalogInv :: "nat \<Rightarrow> Cmd Data \<Rightarrow> CqStore \<Rightarrow> bool" where
  "catalogInv n d c \<longleftrightarrow> nodesUpTo n d \<and> usersInv d \<and> queryIDsUpTo n d \<and> cqInSync d c"

lemma queryIDsUpTo_Suc: "queryIDsUpTo n d \<Longrightarrow> queryIDsUpTo (Suc n) d"
  by (simp add: queryIDsUpTo_def)

lemma queryIDsUpTo_same: "QueryIDInit d' = QueryIDInit d \<Longrightarrow> queryIDsUpTo n d' = queryIDsUpTo n d"
  by (simp add: queryIDsUpTo_def queryIDsInv_def)

lemma catalogInv_Suc: "catalogInv n d c \<Longrightarrow> catalogInv (Suc n) d c"
  by (simp add: catalogInv_def nodesUpTo_Suc queryIDsUpTo_Suc)

lemma catalogInv_nonNodes:
  assumes "catalogInv n d c" "nonNodes d' = nonNodes d" "nodesUpTo n d'"
  shows "catalogInv n d' c"
proof -
  have "Users d' = Users d" "AdminUserExists d' = AdminUserExists d" "QueryIDInit d' = QueryIDInit d"
    "cqOf (Databases d') = cqOf (Databases d)"
    using assms(2) by (simp_all add: nonNodes_def)
  then show ?thesis
    using assms(1,3) queryIDsUpTo_same [of d' d n] cqInSync_cong [of d' d c] by (auto simp: catalogInv_def intro: usersInv_same)
qed

lemma catalogInv_same:
  assumes "catalogInv n d c" "bystander d' = bystander d"
  shows "catalogInv n d' c"
proof (rule catalogInv_nonNodes [OF assms(1)])
  show "nonNodes d' = nonNodes d" using assms(2) by (simp add: bystander_def nonNodes_def)
  show "nodesUpTo n d'" using assms nodesUpTo_bystander [OF assms(2)] by (simp add: catalogInv_def)
qed

lemma catalogInv_bystander: "catalogInv n d c \<Longrightarrow> bystander d' = bystander d \<Longrightarrow> catalogInv (Suc n) d' c"
  by (rule catalogInv_same [OF catalogInv_Suc])

lemma onData_sel [simp]:
  "fsm_data (fst (onData f s)) = fst (f (fsm_data s))" "fsm_cq (fst (onData f s)) = fsm_cq s" "snd (onData f s) = snd (f (fsm_data s))"
  by (simp_all add: onData_def split: prod.split)

lemma onData_catalogInv:
  assumes "catalogInv n (fsm_data s) (fsm_cq s)" "bystander (fst (f (fsm_data s))) = bystander (fsm_data s)"
  shows "catalogInv (Suc n) (fsm_data (fst (onData f s))) (fsm_cq (fst (onData f s)))"
  using catalogInv_bystander [OF assms] by simp

definition owners :: "'c Data \<Rightarrow> NodeInfo list \<times> DataNode list \<times> DataNode list \<times> nat \<times> UserInfo list \<times> bool \<times> (string, nat) gomap" where
  "owners d = (MetaNodes d, DataNodes d, SqlNodes d, MaxNodeID d, Users d, AdminUserExists d, QueryIDInit d)"

lemma catalogInv_owners:
  assumes "catalogInv n d c" "owners d' = owners d" "cqInSync d' c'"
  shows "catalogInv (Suc n) d' c'"
proof -
  have "nodesUpTo n d' = nodesUpTo n d" by (rule nodesUpTo_same) (use assms(2) in \<open>simp_all add: owners_def\<close>)
  moreover have "queryIDsUpTo n d' = queryIDsUpTo n d" by (rule queryIDsUpTo_same) (use assms(2) in \<open>simp add: owners_def\<close>)
  moreover have "usersInv d'" by (rule usersInv_same [of d]) (use assms in \<open>simp_all add: owners_def catalogInv_def\<close>)
  ultimately show ?thesis using assms(1,3) by (simp add: catalogInv_def nodesUpTo_Suc queryIDsUpTo_Suc)
qed

lemma CreateDatabase_adds:
  "\<exists>di. fst (CreateDatabase db rpo ski tag n opts d) = d
     \<or> map_of (Databases d) db = None \<and> db_ContinuousQueries di = []
       \<and> fst (CreateDatabase db rpo ski tag n opts d) = d\<lparr>Databases := Databases d @ [(db, di)]\<rparr>"
proof (cases "CheckCanCreateDatabase db d")
  case None
  then have new: "map_of (Databases d) db = None"
    by (auto simp: CheckCanCreateDatabase_def data_Database_def split: option.splits if_splits)
  have up: "AList.update db di (Databases d) = Databases d @ [(db, di)]" for di by (rule update_new [OF new])
  have s: "db_Name (SetRetentionPolicy rp b (NewDatabase db)) = db"
    "db_ContinuousQueries (SetRetentionPolicy rp b (NewDatabase db)) = []" for rp b
    by (simp_all add: SetRetentionPolicy_def NewDatabase_def)
  have z: "db_Name (NewDatabase db) = db" "db_ContinuousQueries (NewDatabase db) = []" by (simp_all add: NewDatabase_def)
  show ?thesis
  proof (cases rpo)
    case None
    then show ?thesis
      using \<open>CheckCanCreateDatabase db d = None\<close> new
      by (auto simp: CreateDatabase_def SetDatabase_def Let_def up z intro!: exI)
  next
    case (Some rp)
    obtain r e where r: "CheckCanCreateRetentionPolicy (NewDatabase db) rpo True = (r, e)" by (metis surj_pair)
    show ?thesis
      using \<open>CheckCanCreateDatabase db d = None\<close> new r Some
      by (cases e) (auto simp: CreateDatabase_def SetDatabase_def Let_def up s intro!: exI)
  qed
qed (simp add: CreateDatabase_def)

lemma catalogInv_CreateDatabase:
  assumes "catalogInv n d c"
  shows "catalogInv (Suc n) (fst (CreateDatabase db rpo ski tag k opts d)) c"
proof -
  have new: "catalogInv (Suc n) (d\<lparr>Databases := Databases d @ [(db, di)]\<rparr>) c"
    if "map_of (Databases d) db = None" "db_ContinuousQueries di = []" for di
  proof -
    have "cqInSync (d\<lparr>Databases := Databases d @ [(db, di)]\<rparr>) c"
      using assms that by (simp add: catalogInv_def cqInSync_def mwf_def cqListOf_def map_of_eq_None_iff)
    then show ?thesis by (rule catalogInv_owners [OF assms, rotated]) (simp add: owners_def)
  qed
  have "catalogInv (Suc n) d c" using catalogInv_bystander [OF assms refl] .
  then show ?thesis using CreateDatabase_adds [of db rpo ski tag k opts d] new by metis
qed

lemma usersInv_userCmd: "usersInv d \<Longrightarrow> usersInv (fst (applyUserCmd c d))"
  by (cases c)
    (auto simp: ApplyCreateUser_def ApplyDropUser_def ApplyUpdateUser_def ApplySetPrivilege_def ApplySetAdminPrivilege_def
      intro: CreateUser_usersInv DropUser_usersInv UpdateUser_usersInv SetPrivilege_usersInv SetAdminPrivilege_usersInv prod.collapse [symmetric])

lemma userCmd_frame:
  "Databases (fst (applyUserCmd c d)) = Databases d" "QueryIDInit (fst (applyUserCmd c d)) = QueryIDInit d"
  "nodesUpTo n (fst (applyUserCmd c d)) = nodesUpTo n d"
proof -
  let ?f = "\<lambda>d'. Databases d' = Databases d \<and> QueryIDInit d' = QueryIDInit d \<and> MetaNodes d' = MetaNodes d
    \<and> DataNodes d' = DataNodes d \<and> SqlNodes d' = SqlNodes d \<and> MaxNodeID d' = MaxNodeID d"
  have "?f (fst (applyUserCmd c d))"
    by (cases c)
      (auto simp: ApplyCreateUser_def ApplyDropUser_def ApplyUpdateUser_def ApplySetPrivilege_def ApplySetAdminPrivilege_def
        CreateUser_def DropUser_def UpdateUser_def SetPrivilege_def SetAdminPrivilege_def Let_def split: option.split sum.split)
  then show "Databases (fst (applyUserCmd c d)) = Databases d" "QueryIDInit (fst (applyUserCmd c d)) = QueryIDInit d"
    "nodesUpTo n (fst (applyUserCmd c d)) = nodesUpTo n d"
    using nodesUpTo_same [of "fst (applyUserCmd c d)" d n] by simp_all
qed

lemma catalogInv_userCmd: "catalogInv n d c \<Longrightarrow> catalogInv (Suc n) (fst (applyUserCmd u d)) c"
  using queryIDsUpTo_same [OF userCmd_frame(2), of "Suc n" u d] cqInSync_cong [of "fst (applyUserCmd u d)" d c]
  by (simp add: catalogInv_def usersInv_userCmd userCmd_frame nodesUpTo_Suc queryIDsUpTo_Suc)

lemma catalogInv_DropDatabase:
  assumes "catalogInv n (fsm_data s) (fsm_cq s)"
  shows "catalogInv (Suc n) (fsm_data (fst (applyDropDatabaseCommand db s))) (fsm_cq (fst (applyDropDatabaseCommand db s)))"
proof -
  let ?s = "fst (applyDropDatabaseCommand db s)"
  have "cqInSync (fsm_data ?s) (fsm_cq ?s)"
    using assms cqInSync_DropDatabase [of s db ?s] by (simp add: catalogInv_def) (metis prod.collapse)
  moreover have "nodesUpTo n (fsm_data ?s) = nodesUpTo n (fsm_data s)"
    by (rule nodesUpTo_same) (auto simp: applyDropDatabaseCommand_def DropDatabase_def split: option.split prod.split)
  moreover have "queryIDsUpTo n (fsm_data ?s) = queryIDsUpTo n (fsm_data s)"
    by (rule queryIDsUpTo_same) (auto simp: applyDropDatabaseCommand_def DropDatabase_def split: option.split prod.split)
  moreover have "usersInv (fsm_data ?s)"
  proof -
    have u: "usersInv (fsm_data s)" using assms by (simp add: catalogInv_def)
    then have "usersInv (DropDatabase db ((fsm_data s)\<lparr>MaxCQChangeID := k\<rparr>))" for k
      by (intro DropDatabase_usersInv) (auto intro: usersInv_same)
    then show ?thesis
      using u DropDatabase_usersInv [OF u] by (auto simp: applyDropDatabaseCommand_def split: option.split prod.split)
  qed
  ultimately show ?thesis using assms by (simp add: catalogInv_def nodesUpTo_Suc queryIDsUpTo_Suc)
qed


lemma owners_cqCmds:
  "owners (fsm_data (fst (applyCreateContinuousQueryCommand db cq q s))) = owners (fsm_data s)"
  "owners (fsm_data (fst (applyDropContinuousQueryCommand cq db s))) = owners (fsm_data s)"
proof -
  have p: "owners (putDB db f d) = owners d" "owners (d\<lparr>MaxCQChangeID := k\<rparr>) = owners d" for f k and d :: "Cmd Data"
    by (simp_all add: owners_def putDB_def)
  have "owners (fst (CreateContinuousQueryBase db cq q d)) = owners d" "owners (fst (DropContinuousQueryBase cq db d)) = owners d"
    for d :: "Cmd Data"
    by (simp_all add: CreateContinuousQueryBase_def DropContinuousQueryBase_def p split: sum.split option.split)
  then have "owners (fst (CreateContinuousQuery db cq q d)) = owners d" "owners (fst (DropContinuousQuery cq db d)) = owners d"
    for d :: "Cmd Data"
    by (simp_all add: CreateContinuousQuery_def DropContinuousQuery_def p case_prod_unfold split: bool.split option.split)
  then show "owners (fsm_data (fst (applyCreateContinuousQueryCommand db cq q s))) = owners (fsm_data s)"
    "owners (fsm_data (fst (applyDropContinuousQueryCommand cq db s))) = owners (fsm_data s)"
    by (simp_all add: applyCreateContinuousQueryCommand_def applyDropContinuousQueryCommand_def case_prod_unfold split: option.split)
qed

lemma catalogInv_cqCmds:
  assumes "catalogInv n (fsm_data s) (fsm_cq s)"
  shows "catalogInv (Suc n) (fsm_data (fst (applyCreateContinuousQueryCommand db cq q s)))
      (fsm_cq (fst (applyCreateContinuousQueryCommand db cq q s)))"
    "catalogInv (Suc n) (fsm_data (fst (applyDropContinuousQueryCommand cq db s)))
      (fsm_cq (fst (applyDropContinuousQueryCommand cq db s)))"
proof -
  have c: "cqInSync (fsm_data s) (fsm_cq s)" using assms by (simp add: catalogInv_def)
  show "catalogInv (Suc n) (fsm_data (fst (applyCreateContinuousQueryCommand db cq q s)))
      (fsm_cq (fst (applyCreateContinuousQueryCommand db cq q s)))"
    by (rule catalogInv_owners [OF assms owners_cqCmds(1) cqInSync_CreateCQ [OF c prod.collapse [symmetric]]])
  show "catalogInv (Suc n) (fsm_data (fst (applyDropContinuousQueryCommand cq db s)))
      (fsm_cq (fst (applyDropContinuousQueryCommand cq db s)))"
    by (rule catalogInv_owners [OF assms owners_cqCmds(2) cqInSync_DropCQ [OF c prod.collapse [symmetric]]])
qed

lemma catalogInv_register:
  assumes "catalogInv n d c" "n < 184467440737"
  shows "catalogInv (Suc n) (fst (RegisterQueryIDOffset host d)) c"
proof -
  let ?d = "fst (RegisterQueryIDOffset host d)"
  have "queryIDsUpTo (Suc n) ?d" using assms queryIDs.exec_inv [of n d host] by (simp add: catalogInv_def)
  moreover have "nodesUpTo n ?d = nodesUpTo n d"
    by (rule nodesUpTo_same) (auto simp: RegisterQueryIDOffset_def split: option.split)
  moreover have "cqInSync ?d c = cqInSync d c"
    by (rule cqInSync_cong) (auto simp: RegisterQueryIDOffset_def split: option.split)
  moreover have "usersInv d \<Longrightarrow> usersInv ?d"
    by (erule usersInv_same) (auto simp: RegisterQueryIDOffset_def split: option.split)
  ultimately show ?thesis using assms(1) by (simp add: catalogInv_def nodesUpTo_Suc)
qed

lemma executeCmd_catalogInv:
  assumes "catalogInv n (fsm_data s) (fsm_cq s)" "n < 184467440737" "\<not> joinsCluster c"
  shows "catalogInv (Suc n) (fsm_data (fst (executeCmd env cfg now c s))) (fsm_cq (fst (executeCmd env cfg now c s)))"
proof (cases c)
  case (DatabaseC x)
  then show ?thesis
    using catalogInv_DropDatabase [OF assms(1)] catalogInv_CreateDatabase [OF assms(1)]
    by (cases x)
      (simp_all add: catalogInv_bystander [OF assms(1)] applyCreateDatabaseCommand_def bystanders
        ApplyMarkDatabaseDelete_def ApplyCreateRetentionPolicy_def ApplyDropRetentionPolicy_def ApplyMarkRetentionPolicyDelete_def
        ApplySetDefaultRetentionPolicy_def ApplyUpdateRetentionPolicy_def ApplyCreateSubscription_def ApplyDropSubscription_def)
next
  case (GroupC x)
  then show ?thesis using catalogInv_bystander [OF assms(1) bystander_groupCmd] by simp
next
  case (MstC x)
  then show ?thesis using catalogInv_bystander [OF assms(1) bystander_mstCmd] by simp
next
  case (UserC x)
  then show ?thesis using catalogInv_userCmd [OF assms(1)] by simp
next
  case (NodeC x)
  have "nodesUpTo (Suc n) (fst (applyNodeCmd env cfg x (fsm_data s)))"
    using assms NodeC by (intro nodesUpTo_nodeCmd) (auto simp: catalogInv_def)
  then show ?thesis using catalogInv_nonNodes [OF catalogInv_Suc [OF assms(1)] nonNodes_nodeCmd] NodeC by simp
next
  case (PtC x)
  then show ?thesis using catalogInv_bystander [OF assms(1) bystander_ptCmd] by simp
next
  case (QueryC x)
  then show ?thesis
    using catalogInv_cqCmds [OF assms(1)] catalogInv_register [OF assms(1,2)]
    by (cases x)
      (simp_all add: catalogInv_bystander [OF assms(1)] bystanders ApplyCreateStream_def ApplyDropStream_def
        ApplyRegisterQueryIDOffset_def ApplyContinuousQueryReport_def applyNotifyCQLeaseChangedCommand_def)
qed


section \<open>The operation log\<close>

text \<open>No command reads or changes the operation log, the term or the index: executing it commutes with replacing them.\<close>

definition relog :: "(nat, 'c Op) gomap option \<Rightarrow> nat \<Rightarrow> nat \<Rightarrow> nat \<Rightarrow> 'c Data \<Rightarrow> 'c Data" where
  "relog m lo hi c d = d\<lparr>OpsMap := m, OpsMapMinIndex := lo, OpsMapMaxIndex := hi, OpsToMarshalIndex := c\<rparr>"

interpretation relogged: store_overlay "relog m lo hi c" "\<lambda>i. i" for m lo hi c
  by unfold_locales (simp_all add: relog_def reindex_same)

lemma relog_eq: "x = relog m lo hi c y \<Longrightarrow> OpsMap x = m \<and> OpsMapMinIndex x = lo \<and> OpsMapMaxIndex x = hi \<and> OpsToMarshalIndex x = c"
  by (simp add: relog_def)

lemma stamp_eq: "x = stamp t i y \<Longrightarrow> Term x = t \<and> Index x = i"
  by (simp add: stamp_def)

definition logPart :: "'c Data \<Rightarrow> (nat, 'c Op) gomap option \<times> nat \<times> nat \<times> nat \<times> nat \<times> nat" where
  "logPart d = (OpsMap d, OpsMapMinIndex d, OpsMapMaxIndex d, OpsToMarshalIndex d, Term d, Index d)"

lemma onStore_fixed:
  assumes "executeCmd env cfg now c (onStore h s) = relay (onStore h) (executeCmd env cfg now c s)" "onStore h s = s"
  shows "fsm_data (fst (executeCmd env cfg now c s)) = h (fsm_data (fst (executeCmd env cfg now c s)))"
proof -
  have "executeCmd env cfg now c s = relay (onStore h) (executeCmd env cfg now c s)" using assms by simp
  then have "fst (executeCmd env cfg now c s) = onStore h (fst (executeCmd env cfg now c s))" by (metis relay_def fst_conv)
  then show ?thesis by (metis onStore_simps(1))
qed

lemma executeCmd_logPart: "logPart (fsm_data (fst (executeCmd env cfg now c s))) = logPart (fsm_data s)"
proof -
  let ?d = "fsm_data s" and ?r = "fst (executeCmd env cfg now c s)"
  have "fsm_data ?r = relog (OpsMap ?d) (OpsMapMinIndex ?d) (OpsMapMaxIndex ?d) (OpsToMarshalIndex ?d) (fsm_data ?r)"
    by (rule onStore_fixed [OF relogged.executeCmd_h]) (simp add: onStore_def relog_def)
  note relog_eq [OF this]
  moreover have "fsm_data ?r = stamp (Term ?d) (Index ?d) (fsm_data ?r)"
    by (rule onStore_fixed [OF stamped_store.executeCmd_h]) (simp add: onStore_def stamp_def)
  note stamp_eq [OF this]
  ultimately show ?thesis by (simp add: logPart_def)
qed


section \<open>Runs of the meta service\<close>

text \<open>
  What happens to the store: a log entry is applied; an SQL node sends a heartbeat; the leader looks for late SQL
  nodes, reading a cached catalogue; the operation log is trimmed (\<open>ClearOpsMap\<close>); its encodings are refreshed
  (\<open>UpdateCacheDataV2\<close>). \<open>pm\<close> is the encoder of commands.
\<close>

datatype MetaEvent =
    LogApplied LogEntry
  | SqlHeartbeat bool time string
  | HeartbeatCheck bool time "Cmd Data"
  | ClearOpsMap
  | UpdateCacheDataV2

fun metaStep :: "Env \<Rightarrow> FsmConfig \<Rightarrow> (Cmd Command \<Rightarrow> string option) \<Rightarrow> MetaEvent \<Rightarrow> Store \<Rightarrow> Store" where
  "metaStep env cfg pm (LogApplied l) s = fst (Apply env cfg l s)"
| "metaStep env cfg pm (SqlHeartbeat isLeader now host) s =
     s\<lparr>fsm_cq := fst (handlerSql2MetaHeartbeat isLeader now host (fsm_cq s))\<rparr>"
| "metaStep env cfg pm (HeartbeatCheck isLeader now cacheData) s =
     s\<lparr>fsm_cq := fst (checkSQLNodesHeartbeat isLeader now cacheData (fsm_cq s))\<rparr>"
| "metaStep env cfg pm ClearOpsMap s =
     s\<lparr>fsm_data := fst (ClearOpsMapV2 (GetMinAliveNodeTmpIndex (fsm_data s)) (fsm_data s))\<rparr>"
| "metaStep env cfg pm UpdateCacheDataV2 s =
     s\<lparr>fsm_data := fst (the (UpdateOpsMapCacheBytes pm (fsm_data s)))\<rparr>"

text \<open>Raft applies entries in the order of their index.\<close>

fun metaAllowed :: "Store \<Rightarrow> MetaEvent \<Rightarrow> bool" where
  "metaAllowed s (LogApplied l) \<longleftrightarrow>
     Index (fsm_data s) < log_Index l \<and> log_Index l < maxU64 \<and> \<not> joinsCluster (log_Cmd l)"
| "metaAllowed s _ \<longleftrightarrow> True"

definition fsmInv :: "(Cmd Command \<Rightarrow> string option) \<Rightarrow> nat \<Rightarrow> Store \<Rightarrow> bool" where
  "fsmInv pm n s \<longleftrightarrow> catalogInv n (fsm_data s) (fsm_cq s) \<and> opsInv pm (fsm_data s)
     \<and> OpsMapMaxIndex (fsm_data s) \<le> Index (fsm_data s)"

lemma opsInv_logPart:
  assumes "OpsMap d' = OpsMap d" "OpsMapMinIndex d' = OpsMapMinIndex d" "OpsMapMaxIndex d' = OpsMapMaxIndex d"
    "OpsToMarshalIndex d' = OpsToMarshalIndex d"
  shows "opsInv pm d' = opsInv pm d"
  unfolding opsInv_def assms by (rule refl)

lemma bystander_relog: "bystander (relog m lo hi c d) = bystander d" "bystander (stamp t i d) = bystander d"
  by (simp_all add: relog_def stamp_def bystander_def)

text \<open>Two states that differ in the operation log only.\<close>

abbreviation unlogged :: "'c Data \<Rightarrow> 'c Data" where
  "unlogged \<equiv> relog None 0 0 0"

lemma unlogged_upd [simp]:
  "unlogged (OpsMap_update f d) = unlogged d" "unlogged (OpsMapMinIndex_update g d) = unlogged d"
  "unlogged (OpsMapMaxIndex_update g d) = unlogged d" "unlogged (OpsToMarshalIndex_update g d) = unlogged d"
  by (simp_all add: relog_def)

lemma unlogged_keeps: "unlogged d' = unlogged d \<Longrightarrow> bystander d' = bystander d \<and> Index d' = Index d"
proof -
  assume u: "unlogged d' = unlogged d"
  have "Index d' = Index d" using arg_cong [OF u, of Index] by (simp add: relog_def)
  then show ?thesis using arg_cong [OF u, of bystander] by (simp add: bystander_relog)
qed

lemma unlogged_ops:
  "unlogged (fst (AddCmdAsOpToOpMap cmd i d)) = unlogged d" "unlogged (fst (ClearOpsMapV2 n d)) = unlogged d"
  "UpdateOpsMapCacheBytes pm d = Some (d', e) \<Longrightarrow> unlogged d' = unlogged d"
proof -
  show "unlogged (fst (AddCmdAsOpToOpMap cmd i d)) = unlogged d"
    by (cases "OpsMap d") (simp_all add: AddCmdAsOpToOpMap_def Let_def)
  show "unlogged (fst (ClearOpsMapV2 n d)) = unlogged d"
    by (simp add: ClearOpsMapV2_def split: option.split)
  show "UpdateOpsMapCacheBytes pm d = Some (d', e) \<Longrightarrow> unlogged d' = unlogged d"
    by (auto simp: UpdateOpsMapCacheBytes_def split: option.splits if_splits prod.splits)
qed

lemma opsMax_ops:
  "OpsMapMaxIndex (fst (AddCmdAsOpToOpMap cmd i d)) \<le> max i (OpsMapMaxIndex d)"
  "OpsMapMaxIndex (fst (ClearOpsMapV2 n d)) \<le> OpsMapMaxIndex d"
  "UpdateOpsMapCacheBytes pm d = Some (d', e) \<Longrightarrow> OpsMapMaxIndex d' = OpsMapMaxIndex d"
proof -
  show "OpsMapMaxIndex (fst (AddCmdAsOpToOpMap cmd i d)) \<le> max i (OpsMapMaxIndex d)"
    by (cases "OpsMap d") (simp_all add: AddCmdAsOpToOpMap_def Let_def)
  show "OpsMapMaxIndex (fst (ClearOpsMapV2 n d)) \<le> OpsMapMaxIndex d"
    by (simp add: ClearOpsMapV2_def split: option.split)
  show "UpdateOpsMapCacheBytes pm d = Some (d', e) \<Longrightarrow> OpsMapMaxIndex d' = OpsMapMaxIndex d"
    by (auto simp: UpdateOpsMapCacheBytes_def split: option.splits if_splits prod.splits)
qed

lemma Apply_fsmInv:
  assumes "fsmInv pm n s" "metaAllowed s (LogApplied l)" "n < 184467440737"
  shows "fsmInv pm (Suc n) (fst (Apply env cfg l s))" "OpsMapMaxIndex (fsm_data s) < log_Index l"
proof -
  obtain s1 e where x: "executeCmd env cfg (log_Now l) (log_Cmd l) s = (s1, e)" by (metis surj_pair)
  have c: "catalogInv (Suc n) (fsm_data s1) (fsm_cq s1)"
    using executeCmd_catalogInv [of n s "log_Cmd l" env cfg "log_Now l"] assms x by (simp add: fsmInv_def)
  have lp: "logPart (fsm_data s1) = logPart (fsm_data s)" using executeCmd_logPart [of env cfg "log_Now l" "log_Cmd l" s] x by simp
  have o: "opsInv pm (fsm_data s1)" and le: "OpsMapMaxIndex (fsm_data s1) \<le> Index (fsm_data s1)"
    using assms(1) lp opsInv_logPart [of "fsm_data s1" "fsm_data s" pm] by (simp_all add: fsmInv_def logPart_def)
  show less: "OpsMapMaxIndex (fsm_data s) < log_Index l" using assms(1,2) by (simp add: fsmInv_def)
  let ?d2 = "stamp (log_Term l) (log_Index l) (fsm_data s1)"
  have 2: "opsInv pm ?d2" using o by (subst opsInv_logPart [of _ "fsm_data s1"]) (simp_all add: stamp_def)
  have m2: "OpsMapMaxIndex ?d2 < log_Index l" using less lp by (simp add: stamp_def logPart_def)
  have c2: "catalogInv (Suc n) ?d2 (fsm_cq s1)" by (rule catalogInv_same [OF c]) (rule bystander_relog)
  show "fsmInv pm (Suc n) (fst (Apply env cfg l s))"
  proof (cases e)
    case None
    let ?cmd = "Command (cmdType (recordedCmd cfg (log_Cmd l))) (recordedCmd cfg (log_Cmd l))"
    let ?d3 = "fst (AddCmdAsOpToOpMap ?cmd (log_Index l) ?d2)"
    note u = unlogged_keeps [OF unlogged_ops(1), of ?cmd "log_Index l" ?d2]
    have "opsInv pm ?d3" using Add_inv [OF 2 _ m2 _ prod.collapse [symmetric], of ?cmd] assms(2) m2 by simp
    moreover have "OpsMapMaxIndex ?d3 \<le> Index ?d3"
      using opsMax_ops(1) [of ?cmd "log_Index l" ?d2] m2 u by (simp add: stamp_def)
    ultimately show ?thesis
      using None x catalogInv_same [OF c2, of ?d3] u by (simp add: Apply_def recordOp_def fsmInv_def Let_def)
  next
    case (Some y)
    have "OpsMapMaxIndex ?d2 \<le> Index ?d2" using m2 by (simp add: stamp_def)
    then show ?thesis using Some x c c2 o 2 le by (simp add: Apply_def fsmInv_def Let_def)
  qed
qed


lemma offlineLoop_inv:
  assumes "cqStoreInv c" "leasesExact c"
  shows "cqStoreInv (fst (offlineLoop fuel now c)) \<and> leasesExact (fst (offlineLoop fuel now c))
    \<and> cqNames (fst (offlineLoop fuel now c)) = cqNames c"
  using assms
proof (induction fuel arbitrary: c)
  case (Suc fuel)
  show ?case
  proof (cases "heartbeats c")
    case (Cons p hbs)
    obtain h t where p: "p = (h, t)" by fastforce
    have "h \<in> set (sqlHosts c)" using Suc.prems(1) Cons p by (force simp: cqStoreInv_def)
    then obtain c1 where "handlerSQLNodeOffline h c = (c1, None)" "cqStoreInv c1" "leasesExact c1" "cqNames c1 = cqNames c"
      using handlerSQLNodeOffline_inv [OF Suc.prems(1)] by blast
    then show ?thesis using Suc.IH [of c1] Suc.prems Cons p by simp
  qed (use Suc.prems in simp)
qed simp

lemma cqInSync_store:
  assumes "cqInSync d c" "cqStoreInv c'" "leasesExact c'" "cqNames c' = cqNames c"
  shows "cqInSync d c'"
  using assms by (simp add: cqInSync_def)

lemma cqInSync_events:
  assumes "cqInSync d c"
  shows "cqInSync d (fst (handlerSql2MetaHeartbeat isLeader now host c))"
    "cqInSync d (fst (checkSQLNodesHeartbeat isLeader now cache c))"
proof -
  have c: "cqStoreInv c" "leasesExact c" using assms by (simp_all add: cqInSync_def)
  show "cqInSync d (fst (handlerSql2MetaHeartbeat isLeader now host c))"
  proof (cases isLeader)
    case True
    then show ?thesis using handlerSql2MetaHeartbeat_inv [OF c, of now host] cqInSync_store [OF assms] by auto
  qed (use assms in \<open>simp add: handlerSql2MetaHeartbeat_def\<close>)
  show "cqInSync d (fst (checkSQLNodesHeartbeat isLeader now cache c))"
    using offlineLoop_inv [OF c, of "length (heartbeats c)" now] assms
    by (auto simp: checkSQLNodesHeartbeat_def intro: cqInSync_store [OF assms])
qed

lemma metaStep_fsmInv:
  assumes "fsmInv pm n s" "metaAllowed s ev" "n < 184467440737"
  shows "fsmInv pm (Suc n) (metaStep env cfg pm ev s)"
proof (cases ev)
  case (LogApplied l)
  then show ?thesis using Apply_fsmInv(1) [OF assms(1) _ assms(3)] assms(2) by simp
next
  case (SqlHeartbeat b now h)
  then show ?thesis using assms(1) cqInSync_events(1) [of "fsm_data s" "fsm_cq s" b now h] catalogInv_Suc [of n "fsm_data s" "fsm_cq s"]
    by (simp add: fsmInv_def catalogInv_def)
next
  case (HeartbeatCheck b now cache)
  then show ?thesis using assms(1) cqInSync_events(2) [of "fsm_data s" "fsm_cq s" b now cache] catalogInv_Suc [of n "fsm_data s" "fsm_cq s"]
    by (simp add: fsmInv_def catalogInv_def)
next
  case ClearOpsMap
  let ?n = "GetMinAliveNodeTmpIndex (fsm_data s)"
  let ?d = "fst (ClearOpsMapV2 ?n (fsm_data s))"
  note u = unlogged_keeps [OF unlogged_ops(2), of ?n "fsm_data s"]
  have "opsInv pm ?d" using Clear_inv [OF _ prod.collapse [symmetric], of pm "fsm_data s" ?n] assms(1) by (simp add: fsmInv_def)
  then show ?thesis
    using ClearOpsMap assms(1) u opsMax_ops(2) [of ?n "fsm_data s"] catalogInv_bystander [of n "fsm_data s" "fsm_cq s" ?d]
    by (simp add: fsmInv_def)
next
  case UpdateCacheDataV2
  obtain d e where d: "UpdateOpsMapCacheBytes pm (fsm_data s) = Some (d, e)" "opsInv pm d"
    using Update_inv [of pm "fsm_data s"] assms(1) by (auto simp: fsmInv_def)
  note u = unlogged_keeps [OF unlogged_ops(3) [OF d(1)]]
  show ?thesis
    using UpdateCacheDataV2 assms(1) d u opsMax_ops(3) [OF d(1)] catalogInv_bystander [of n "fsm_data s" "fsm_cq s" d]
    by (simp add: fsmInv_def)
qed

interpretation service: invariant_system "metaStep env cfg pm" "fsmInv pm" metaAllowed 184467440737 for env cfg pm
  by unfold_locales (rule metaStep_fsmInv)

lemma NewStore_inv: "fsmInv pm 0 (NewStore cfg)"
  by (simp add: fsmInv_def catalogInv_def nodesUpTo_def nodesInv_def allKeys_def keysOk_def nodeKeys_def usersInv_def queryIDsUpTo_def
      queryIDsInv_def cqInSync_def cqStoreInv_def leasesExact_def cqListOf_def opsInv_def opsMapOk_def mwf_def HasAdminUser_def
      NewStore_def zeroData_def Let_def)


fun entriesOf :: "MetaEvent list \<Rightarrow> LogEntry list" where
  "entriesOf [] = []"
| "entriesOf (LogApplied l # evs) = l # entriesOf evs"
| "entriesOf (_ # evs) = entriesOf evs"

definition orderedLog :: "nat \<Rightarrow> MetaEvent list \<Rightarrow> bool" where
  "orderedLog i evs \<longleftrightarrow> sorted_wrt (<) (i # map log_Index (entriesOf evs))
     \<and> list_all (\<lambda>l. log_Index l < maxU64 \<and> \<not> joinsCluster (log_Cmd l)) (entriesOf evs)"

lemma Apply_Index: "Index (fsm_data (fst (Apply env cfg l s))) \<in> {Index (fsm_data s), log_Index l}"
proof -
  have "Index (fsm_data (fst (executeCmd env cfg (log_Now l) (log_Cmd l) s))) = Index (fsm_data s)"
    using executeCmd_logPart [of env cfg "log_Now l" "log_Cmd l" s] by (simp add: logPart_def)
  moreover have "Index (fst (AddCmdAsOpToOpMap c i d)) = Index d" for c i and d :: "Cmd Data"
    using unlogged_keeps [OF unlogged_ops(1)] by blast
  ultimately show ?thesis by (auto simp: Apply_def recordOp_def stamp_def Let_def split: prod.splits)
qed

lemma metaStep_Index:
  "case ev of LogApplied l \<Rightarrow> Index (fsm_data (metaStep env cfg pm ev s)) \<le> max (Index (fsm_data s)) (log_Index l)
     | UpdateCacheDataV2 \<Rightarrow> opsInv pm (fsm_data s) \<longrightarrow> Index (fsm_data (metaStep env cfg pm ev s)) = Index (fsm_data s)
     | _ \<Rightarrow> Index (fsm_data (metaStep env cfg pm ev s)) = Index (fsm_data s)"
proof (cases ev)
  case (LogApplied l)
  then show ?thesis using Apply_Index [of env cfg l s] by auto
next
  case ClearOpsMap
  then show ?thesis using unlogged_keeps [OF unlogged_ops(2), of "GetMinAliveNodeTmpIndex (fsm_data s)" "fsm_data s"] by simp
next
  case UpdateCacheDataV2
  then show ?thesis using Update_inv [of pm "fsm_data s"] unlogged_keeps [OF unlogged_ops(3), of pm "fsm_data s"] by fastforce
qed simp_all

lemma orderedLog_allowed:
  "fsmInv pm n s \<Longrightarrow> orderedLog i evs \<Longrightarrow> Index (fsm_data s) \<le> i \<Longrightarrow> n + length evs \<le> 184467440737 \<Longrightarrow>
     allowed (metaStep env cfg pm) metaAllowed evs s"
proof (induction evs arbitrary: s n i)
  case (Cons ev evs)
  let ?s = "metaStep env cfg pm ev s"
  have ok: "metaAllowed s ev" using Cons.prems by (cases ev) (auto simp: orderedLog_def)
  then have inv: "fsmInv pm (Suc n) ?s" using Cons.prems by (intro metaStep_fsmInv) auto
  obtain j where j: "orderedLog j evs" "Index (fsm_data ?s) \<le> j"
  proof (cases ev)
    case (LogApplied l)
    then have "orderedLog (log_Index l) evs" "Index (fsm_data s) < log_Index l" using Cons.prems by (auto simp: orderedLog_def)
    then show ?thesis using that metaStep_Index [of env cfg pm ev s] LogApplied by auto
  qed (use that [of i] Cons.prems metaStep_Index [of env cfg pm ev s] in \<open>auto simp: orderedLog_def fsmInv_def\<close>)
  then show ?case using ok Cons.IH [OF inv j] Cons.prems(4) by simp
qed simp

lemma run_fsmInv:
  assumes "orderedLog 1 evs" "length evs \<le> 184467440737"
  shows "fsmInv pm (length evs) (fold (metaStep env cfg pm) evs (NewStore cfg))"
proof -
  have "Index (fsm_data (NewStore cfg)) \<le> 1" by (simp add: NewStore_def zeroData_def Let_def)
  then show ?thesis
    using service.run_inv [OF NewStore_inv orderedLog_allowed [OF NewStore_inv assms(1)]] assms(2) by fastforce
qed



definition exampleRun :: "MetaEvent list" where
  "exampleRun =
     [LogApplied \<lparr>log_Term = 1, log_Index = 2, log_IsCommand = True,
        log_Cmd = DatabaseC (CreateDatabaseCommand ''db'' None 1 None False None), log_Now = 0\<rparr>,
      SqlHeartbeat True 5 ''sql1'',
      LogApplied \<lparr>log_Term = 1, log_Index = 4, log_IsCommand = True,
        log_Cmd = QueryC (CreateContinuousQueryCommand ''db'' ''cq'' ''q''), log_Now = 0\<rparr>,
      ClearOpsMap,
      LogApplied \<lparr>log_Term = 2, log_Index = 5, log_IsCommand = True,
        log_Cmd = NodeC (CreateDataNodeCommand ''h'' ''t'' [] []), log_Now = 0\<rparr>]"

lemma exampleRun_ok: "orderedLog 1 exampleRun" "length exampleRun \<le> 184467440737"
  by (simp_all add: exampleRun_def orderedLog_def joinsCluster_def)



end
