(* ===== verification/MetaClient.thy ===== *)
theory MetaClient
  imports MetaFSMRun
begin

text \<open>
  The copy of the state that SQL and storage nodes keep (\<open>lib/metaclient/meta_client.go\<close>): a node asks the meta
  service for the commands it misses and applies them with its own table of handlers. The main result is that the
  copy follows the server: after the recorded commands have been applied it agrees with the server on
  everything a client uses. Another theorem shows where it does
  not: switching take-over on the server is never sent to the clients.
\<close>

section \<open>The handlers of the client\<close>

text \<open>Some handlers report every error as \<open>ApplyFuncErr\<close>.\<close>

definition wrapErr :: "'c Data \<times> err option \<Rightarrow> 'c Data \<times> err option" where
  "wrapErr r = (case r of (d, None) \<Rightarrow> (d, None) | (d, Some e) \<Rightarrow> (d, Some (if isPanic (Some e) then e else Errno ''ApplyFuncErr'')))"

definition noHandler :: err where
  "noHandler = Panic ''cannot apply command''"

fun clientDatabaseCmd :: "bool \<Rightarrow> DatabaseCmd \<Rightarrow> Cmd Data \<Rightarrow> Cmd Data \<times> err option" where
  "clientDatabaseCmd auto (CreateDatabaseCommand name rpi repN ski tag opts) d =
     wrapErr (CreateDatabase name (databasePolicy auto rpi (repNum repN)) ski tag (repNum repN) opts d)"
| "clientDatabaseCmd auto (DropDatabaseCommand name) d =
     (case data_Database name d of None \<Rightarrow> (d, None) | Some _ \<Rightarrow> (DropDatabase name d, None))"
| "clientDatabaseCmd auto (MarkDatabaseDeleteCommand name) d = wrapErr (ApplyMarkDatabaseDelete name d)"
| "clientDatabaseCmd auto (CreateRetentionPolicyCommand db pb def) d = wrapErr (ApplyCreateRetentionPolicy db pb def d)"
| "clientDatabaseCmd auto (DropRetentionPolicyCommand db name) d = wrapErr (ApplyDropRetentionPolicy db name d)"
| "clientDatabaseCmd auto (MarkRetentionPolicyDeleteCommand db name) d = ApplyMarkRetentionPolicyDelete db name d"
| "clientDatabaseCmd auto (SetDefaultRetentionPolicyCommand db name) d = ApplySetDefaultRetentionPolicy db name d"
| "clientDatabaseCmd auto (UpdateRetentionPolicyCommand db name v def) d = ApplyUpdateRetentionPolicy db name v def d"
| "clientDatabaseCmd auto (CreateSubscriptionCommand db rp name mode dests) d = ApplyCreateSubscription db rp name mode dests d"
| "clientDatabaseCmd auto (DropSubscriptionCommand db rp name) d = ApplyDropSubscription db rp name d"

definition clientExpandGroups :: "Env \<Rightarrow> Cmd Data \<Rightarrow> Cmd Data \<times> err option" where
  "clientExpandGroups env d = discardErr (applyExpandGroupsCommand env d)"

fun clientGroupCmd :: "Env \<Rightarrow> time \<Rightarrow> GroupCmd \<Rightarrow> Cmd Data \<Rightarrow> Cmd Data \<times> err option" where
  "clientGroupCmd env now (CreateShardGroupCommand db rp ts tier et v) d = wrapErr (ApplyCreateShardGroup env db rp ts tier et v d)"
| "clientGroupCmd env now ExpandGroupsCommand d = clientExpandGroups env d"
| "clientGroupCmd env now c d = applyGroupCmd env now c d"

fun clientMstCmd :: "Env \<Rightarrow> MstCmd \<Rightarrow> Cmd Data \<Rightarrow> Cmd Data \<times> err option" where
  "clientMstCmd env (CreateMeasurementCommand db rp m ski n ir et cs fs opts) d =
     wrapErr (ApplyCreateMeasurement env db rp m ski n ir et cs fs opts d)"
| "clientMstCmd env (UpdateSchemaCommand db rp m fs) d = wrapErr (ApplyUpdateSchema env db rp m fs d)"
| "clientMstCmd env c d = applyMstCmd env c d"

definition clientCreateSqlNode :: "string \<Rightarrow> string \<Rightarrow> Cmd Data \<Rightarrow> Cmd Data \<times> err option" where
  "clientCreateSqlNode httpAddr gossipAddr data =
     (case SqlNodeByHttpHost httpAddr data of
        Some _ \<Rightarrow> (reconnectSqlNode httpAddr data, None)
      | None \<Rightarrow>
          (case CreateSqlNode httpAddr gossipAddr data of
             (d, Inl e) \<Rightarrow> (d, Some e)
           | (d, Inr _) \<Rightarrow> (d, None)))"

fun clientNodeCmd :: "Env \<Rightarrow> NodeCmd \<Rightarrow> Cmd Data \<Rightarrow> Cmd Data \<times> err option" where
  "clientNodeCmd env (CreateMetaNodeCommand http rpc tcp rand) d = ApplyCreateMetaNode http rpc tcp rand d"
| "clientNodeCmd env (DeleteMetaNodeCommand i) d = ApplyDeleteMetaNode i d"
| "clientNodeCmd env (SetMetaNodeCommand http rpc tcp rand) d = ApplySetMetaNode http rpc tcp rand d"
| "clientNodeCmd env (CreateDataNodeCommand http tcp role az) d = ApplyCreateDataNode env http tcp role az d"
| "clientNodeCmd env (CreateSqlNodeCommand http gossip) d = clientCreateSqlNode http gossip d"
| "clientNodeCmd env (DeleteDataNodeCommand i) d = ApplyDeleteDataNode i d"
| "clientNodeCmd env (UpdateNodeStatusCommand i st lt gossip) d = ApplyUpdateNodeStatus env i st lt gossip d"
| "clientNodeCmd env (UpdateSqlNodeStatusCommand i st lt gossip) d = UpdateSqlNodeStatus i st lt d"
| "clientNodeCmd env (SetNodeSegregateStatusCommand st ids) d = ApplySetNodeSegregateStatus st ids d"
| "clientNodeCmd env (RemoveNodeCommand ids) d = ApplyRemoveNode ids d"
| "clientNodeCmd env _ d = (d, Some noHandler)"

fun clientPtCmd :: "Env \<Rightarrow> PtCmd \<Rightarrow> Cmd Data \<Rightarrow> Cmd Data \<times> err option" where
  "clientPtCmd env (CreateDbPtViewCommand db n) d = wrapErr (ApplyCreateDbPtViewCommand env db n d)"
| "clientPtCmd env (UpdatePtInfoCommand db pt owner st) d = ApplyUpdatePtInfo env db pt owner st d"
| "clientPtCmd env (UpdatePtVersionCommand db pt) d = ApplyUpdatePtVersion db pt d"
| "clientPtCmd env (UpdateReplicationCommand db rg master peers) d = ApplyUpdateReplication db rg master peers d"
| "clientPtCmd env _ d = (d, Some noHandler)"

fun clientQueryCmd :: "QueryCmd \<Rightarrow> Cmd Data \<Rightarrow> Cmd Data \<times> err option" where
  "clientQueryCmd (CreateStreamCommand info) d = ApplyCreateStream info d"
| "clientQueryCmd (DropStreamCommand name) d = ApplyDropStream name d"
| "clientQueryCmd (RegisterQueryIDOffsetCommand host) d = ApplyRegisterQueryIDOffset host d"
| "clientQueryCmd (CreateContinuousQueryCommand db name query) d =
     (case CreateContinuousQueryBase db name query d of (d', _, e) \<Rightarrow> (d', e))"
| "clientQueryCmd (ContinuousQueryReportCommand states) d = ApplyContinuousQueryReport states d"
| "clientQueryCmd (DropContinuousQueryCommand name db) d =
     (case DropContinuousQueryBase name db d of (d', _, e) \<Rightarrow> (d', e))"
| "clientQueryCmd NotifyCQLeaseChangedCommand d = (d, Some noHandler)"

text \<open>The client's table \<open>applyFunc\<close>; a command without a handler panics. \<open>auto\<close> is the option
  \<open>RetentionAutoCreate\<close> of the client.\<close>

fun clientCmd :: "Env \<Rightarrow> bool \<Rightarrow> time \<Rightarrow> Cmd \<Rightarrow> Cmd Data \<Rightarrow> Cmd Data \<times> err option" where
  "clientCmd env auto now (DatabaseC c) d = clientDatabaseCmd auto c d"
| "clientCmd env auto now (GroupC c) d = clientGroupCmd env now c d"
| "clientCmd env auto now (MstC c) d = clientMstCmd env c d"
| "clientCmd env auto now (UserC c) d = applyUserCmd c d"
| "clientCmd env auto now (NodeC c) d = clientNodeCmd env c d"
| "clientCmd env auto now (PtC c) d = clientPtCmd env c d"
| "clientCmd env auto now (QueryC c) d = clientQueryCmd c d"

section \<open>Fetching and applying operations\<close>

text \<open>
  The answer of the meta service to a node at index \<open>OldIndex\<close>: nothing when the node is not behind, the
  operations it misses, or the whole state. The encoding of the whole state is not modelled, nor the index of
  the node, which the service proposes as a command of its own. The outer option is \<open>None\<close> if \<open>GetOps\<close> did not
  return. Storing the index of an answer without operations, which \<open>getDataOps\<close> does, is what
  \<open>applyDataOps\<close> does for an empty list.
\<close>

datatype Snapshot = Nothing | Delta (snap_ops: "string list") (snap_index: nat) (snap_cq: nat) | Full nat

definition getSnapshotV2 :: "(Cmd Command \<Rightarrow> string option) \<Rightarrow> nat \<Rightarrow> Cmd Data \<Rightarrow> Snapshot option" where
  "getSnapshotV2 pm oldIndex data =
     (if oldIndex = Index data then Some Nothing
      else if oldIndex > Index data then Some Nothing
      else case GetOps pm oldIndex data of
        None \<Rightarrow> None
      | Some (ops, state) \<Rightarrow>
          if ops \<noteq> [] then Some (Delta ops (Index data) (MaxCQChangeID data))
          else if state = AllClear then Some (Full (Index data))
          else Some (Delta [] (Index data) (MaxCQChangeID data)))"

fun dataOpsLoop ::
  "(string \<Rightarrow> Cmd option) \<Rightarrow> (Cmd \<Rightarrow> Cmd Data \<Rightarrow> Cmd Data \<times> err option) \<Rightarrow> string list \<Rightarrow> Cmd Data \<Rightarrow> Cmd Data \<times> err option" where
  "dataOpsLoop um hnd [] d = (d, None)"
| "dataOpsLoop um hnd (op # ops) d =
     (case um op of
        None \<Rightarrow> (d, Some (Errorf ''proto.Unmarshal''))
      | Some opcmd \<Rightarrow>
          (case hnd opcmd d of
             (d', None) \<Rightarrow> dataOpsLoop um hnd ops d'
           | (d', Some e) \<Rightarrow>
               if e = Errno ''ApplyFuncErr'' then dataOpsLoop um hnd ops d' else (d', Some e)))"

definition applyDataOps ::
  "(string \<Rightarrow> Cmd option) \<Rightarrow> Env \<Rightarrow> bool \<Rightarrow> time \<Rightarrow> string list \<Rightarrow> nat \<Rightarrow> nat \<Rightarrow> Cmd Data \<Rightarrow> Cmd Data \<times> err option" where
  "applyDataOps um env auto now ops index maxCQ d =
     dataOpsLoop um (clientCmd env auto now) ops (d\<lparr>Index := index, MaxCQChangeID := maxCQ\<rparr>)"


section \<open>What the handlers ignore\<close>

lemma wrapErr_None [simp]: "wrapErr r = (d, None) \<longleftrightarrow> r = (d, None)" "wrapErr (d, None) = (d, None)"
  by (auto simp: wrapErr_def split: prod.splits option.splits)

lemma wrapErr_relay: "wrapErr (relay h r) = relay h (wrapErr r)"
  by (cases r; cases "snd r") (simp_all add: wrapErr_def)

text \<open>The handlers commute with every overlay of a client's state. A client knows of no migration events.\<close>

locale client_store = client_overlay h ix for h :: "Cmd Data \<Rightarrow> Cmd Data" and ix
begin

lemma mark_client:
  fixes d :: "Cmd Data"
  assumes "MigrateEvents d = []"
  shows "ApplyMarkDatabaseDelete db (h d) = relay h (ApplyMarkDatabaseDelete db d)"
    "ApplyMarkRetentionPolicyDelete db rp (h d) = relay h (ApplyMarkRetentionPolicyDelete db rp d)"
    "ApplyMarkMeasurementDelete db rp m (h d) = relay h (ApplyMarkMeasurementDelete db rp m d)"
proof -
  have n: "checkMigrateConflict db d = None" for db using assms by (simp add: checkMigrateConflict_def)
  have "MigrateEvents (fst (data_Measurement db rp m d)) = []"
    using assms by (auto simp: data_Measurement_def putMst_def putRP_def putDB_def split: sum.split option.split)
  then have n': "checkMigrateConflict db' (fst (data_Measurement db rp m d)) = None" for db' by (simp add: checkMigrateConflict_def)
  show "ApplyMarkDatabaseDelete db (h d) = relay h (ApplyMarkDatabaseDelete db d)"
    "ApplyMarkRetentionPolicyDelete db rp (h d) = relay h (ApplyMarkRetentionPolicyDelete db rp d)"
    unfolding ApplyMarkDatabaseDelete_def MarkDatabaseDelete_def ApplyMarkRetentionPolicyDelete_def
      MarkRetentionPolicyDelete_def Let_def CheckStreamExist_h checkMigrateConflict_quiet n put_h db_lookups hs relay_cases
    by (rule refl)+
  show "ApplyMarkMeasurementDelete db rp m (h d) = relay h (ApplyMarkMeasurementDelete db rp m d)"
    using n' by (cases "data_Measurement db rp m d"; cases "snd (data_Measurement db rp m d)")
      (simp_all add: ApplyMarkMeasurementDelete_def MarkMeasurementDelete_def overlaid split: option.split)
qed

lemma clientCreateSqlNode_h: "clientCreateSqlNode host g (h d) = relay h (clientCreateSqlNode host g d)"
  by (cases "SqlNodeByHttpHost host d"; cases "CreateSqlNode host g d"; cases "snd (CreateSqlNode host g d)")
    (simp_all add: clientCreateSqlNode_def node_ops_h reconnectSqlNode_h)

lemma clientExpandGroups_h: "clientExpandGroups env (h d) = relay h (clientExpandGroups env d)"
  by (simp add: clientExpandGroups_def ExpandGroupsCommand_h discardErr_relay)

lemma clientCQ_h:
  "clientQueryCmd (CreateContinuousQueryCommand db n q) (h d) = relay h (clientQueryCmd (CreateContinuousQueryCommand db n q) d)"
  "clientQueryCmd (DropContinuousQueryCommand n db) (h d) = relay h (clientQueryCmd (DropContinuousQueryCommand n db) d)"
  by (simp_all add: overlaid split: prod.split)

lemma clientDropDatabase_h:
  "clientDatabaseCmd a (DropDatabaseCommand db) (h d) = relay h (clientDatabaseCmd a (DropDatabaseCommand db) d)"
  by (simp add: db_lookups database_ops_h split: option.split)

lemmas client_ops_h = wrapErr_relay apply_ops_h apply_more_h apply_meta_h ApplyCreateDbPtViewCommand_h ApplyCreateDataNode_h
  UpdateSqlNodeStatus_h clientCreateSqlNode_h clientExpandGroups_h CreateDatabase_h

lemma clientCmd_h:
  assumes "MigrateEvents d = []"
  shows "clientCmd env auto now c (h d) = relay h (clientCmd env auto now c d)"
proof (cases c)
  case (DatabaseC x)
  then show ?thesis using clientDropDatabase_h by (cases x) (simp_all add: client_ops_h mark_client [OF assms] del: clientDatabaseCmd.simps(2))
next
  case (GroupC x)
  then show ?thesis by (cases x) (simp_all add: client_ops_h)
next
  case (MstC x)
  then show ?thesis by (cases x) (simp_all add: client_ops_h mark_client [OF assms])
next
  case (UserC x)
  then show ?thesis by (cases x) (simp_all add: client_ops_h)
next
  case (NodeC x)
  then show ?thesis by (cases x) (simp_all add: client_ops_h)
next
  case (PtC x)
  then show ?thesis by (cases x) (simp_all add: client_ops_h)
next
  case (QueryC x)
  then show ?thesis using clientCQ_h by (cases x) (simp_all add: client_ops_h del: clientQueryCmd.simps(4,6))
qed

end

definition calm :: "Cmd Data \<Rightarrow> Cmd Data" where
  "calm d = d\<lparr>MigrateEvents := []\<rparr>"

interpretation viewed_client: client_store clientView "\<lambda>_. 0"
  by unfold_locales

interpretation calm_client: client_store calm "\<lambda>i. i"
  by unfold_locales (simp_all add: calm_def reindex_same)


section \<open>One command on the server and on the client\<close>

text \<open>The automatic policy survives its trip through the recorded command.\<close>

definition plainPolicy :: "RetentionPolicyInfo \<Rightarrow> bool" where
  "plainPolicy rp \<longleftrightarrow> 0 \<le> rp_ReplicaN rp \<and> rp_ReplicaN rp < 2 ^ 32 \<and> rp_IndexGroups rp = [] \<and> rp_Measurements rp = []
     \<and> rp_MstVersions rp = [] \<and> rp_ShardGroups rp = [] \<and> rp_Subscriptions rp = [] \<and> rp_DownSamplePolicyInfo rp = None
     \<and> \<not> rp_MarkDeleted rp"

interpretation policy_message: marshalling policyMsg rpOfMsg plainPolicy
proof
  fix rp :: RetentionPolicyInfo
  assume "plainPolicy rp"
  then show "rpOfMsg (policyMsg rp) = rp"
    by (cases rp) (simp add: plainPolicy_def rpOfMsg_def policyMsg_def NewRetentionPolicyInfo_def)
qed

text \<open>The replica number is a 32 bit field of the message.\<close>

definition wireCmd :: "Cmd \<Rightarrow> bool" where
  "wireCmd c = (case c of DatabaseC (CreateDatabaseCommand _ _ repN _ _ _) \<Rightarrow> repN < 2 ^ 32 | _ \<Rightarrow> True)"

lemma databasePolicy_recorded:
  assumes "n < 2 ^ 32" "UseIncSyncData cfg"
  shows "clientCmd env (RetentionAutoCreate cfg) now (recordedCmd cfg (DatabaseC (CreateDatabaseCommand db rpi n ski tag opts))) d
    = wrapErr (applyCreateDatabaseCommand cfg db rpi n ski tag opts d)"
proof -
  let ?auto = "(NewRetentionPolicyInfo ''autogen'')\<lparr>rp_ReplicaN := int (repNum n), rp_Duration := 0, rp_WarmDuration := 0\<rparr>"
  have "plainPolicy ?auto" using assms(1) by (simp add: plainPolicy_def NewRetentionPolicyInfo_def repNum_def)
  then have "rpOfMsg (policyMsg ?auto) = ?auto" by (rule policy_message.roundtrip)
  then show ?thesis
    using assms(2) by (cases rpi) (simp_all add: recordedCmd_def databasePolicy_def applyCreateDatabaseCommand_def)
qed

lemma recordedCmd_same: "(\<And>db n ski tag opts. c \<noteq> DatabaseC (CreateDatabaseCommand db None n ski tag opts)) \<Longrightarrow> recordedCmd cfg c = c"
  by (auto simp: recordedCmd_def split: Cmd.split DatabaseCmd.split option.split)

lemma cmdType_recorded: "cmdType (recordedCmd cfg c) = cmdType c"
  by (auto simp: recordedCmd_def split: Cmd.split DatabaseCmd.split option.split)

lemma clientView_calm [simp]: "clientView (calm d) = clientView d"
  by (simp add: clientView_def calm_def)

lemma clientView_CQ [simp]: "clientView (d\<lparr>MaxCQChangeID := k\<rparr>) = clientView d"
  by (simp add: clientView_def)

lemma onData_success: "onData f s = (s', None) \<longleftrightarrow> f (fsm_data s) = (fsm_data s', None) \<and> fsm_cq s' = fsm_cq s"
  by (cases s; cases s'; cases "f (fsm_data s)") (auto simp: onData_def)

lemma server_DropDatabase:
  assumes "applyDropDatabaseCommand db s = (s', None)"
  shows "\<exists>d. clientDatabaseCmd auto (DropDatabaseCommand db) (fsm_data s) = (d, None) \<and> clientView d = clientView (fsm_data s')"
proof (cases "data_Database db (fsm_data s)")
  case (Some dbi)
  have "clientView (DropDatabase db (d\<lparr>MaxCQChangeID := k\<rparr>)) = clientView (DropDatabase db d)" for k and d :: "Cmd Data"
    by (simp add: DropDatabase_def clientView_def)
  then have "clientView (fsm_data s') = clientView (DropDatabase db (fsm_data s))"
    using assms Some by (auto simp: applyDropDatabaseCommand_def split: if_splits prod.splits option.splits)
  then show ?thesis using Some by simp
qed (use assms in \<open>simp add: applyDropDatabaseCommand_def\<close>)

lemma server_CQ:
  "applyCreateContinuousQueryCommand db n q s = (s', None) \<Longrightarrow>
     \<exists>d. clientQueryCmd (CreateContinuousQueryCommand db n q) (fsm_data s) = (d, None) \<and> clientView d = clientView (fsm_data s')"
  "applyDropContinuousQueryCommand n db s = (s', None) \<Longrightarrow>
     \<exists>d. clientQueryCmd (DropContinuousQueryCommand n db) (fsm_data s) = (d, None) \<and> clientView d = clientView (fsm_data s')"
proof -
  assume a: "applyCreateContinuousQueryCommand db n q s = (s', None)"
  obtain d b e where d: "CreateContinuousQueryBase db n q (fsm_data s) = (d, b, e)" by (metis prod_cases3)
  have "b \<Longrightarrow> e = None" using d by (auto simp: CreateContinuousQueryBase_def split: sum.splits option.splits if_splits)
  then show "\<exists>d. clientQueryCmd (CreateContinuousQueryCommand db n q) (fsm_data s) = (d, None) \<and> clientView d = clientView (fsm_data s')"
    using a d by (cases b) (auto simp: applyCreateContinuousQueryCommand_def CreateContinuousQuery_def split: prod.splits option.splits)
next
  assume a: "applyDropContinuousQueryCommand n db s = (s', None)"
  obtain d b e where d: "DropContinuousQueryBase n db (fsm_data s) = (d, b, e)" by (metis prod_cases3)
  then show "\<exists>d. clientQueryCmd (DropContinuousQueryCommand n db) (fsm_data s) = (d, None) \<and> clientView d = clientView (fsm_data s')"
    using a by (cases e; cases b) (auto simp: applyDropContinuousQueryCommand_def DropContinuousQuery_def split: prod.splits option.splits)
qed


lemma server_client_step:
  assumes "executeCmd env cfg now c s = (s', None)" "cmdType c \<in> set commandUseForClient" "UseIncSyncData cfg" "wireCmd c"
    and "ExpandShardsEnable (fsm_data s) = cfg_ExpandShardsEnable cfg"
  shows "\<exists>d. clientCmd env (RetentionAutoCreate cfg) now (recordedCmd cfg c) (calm (fsm_data s)) = (d, None)
    \<and> clientView d = clientView (fsm_data s')"
proof -
  have e: "(fsm_data s)\<lparr>ExpandShardsEnable := cfg_ExpandShardsEnable cfg\<rparr> = fsm_data s" using assms(5) by simp
  have sq: "applyCreateSqlNodeCommand cfg host g (fsm_data s) = clientCreateSqlNode host g (fsm_data s)" for host g
    unfolding applyCreateSqlNodeCommand_def clientCreateSqlNode_def e by (rule refl)
  have ok: "\<exists>d. relay calm r = (d, None) \<and> clientView d = clientView (fsm_data s')" if "r = (fsm_data s', None)" for r
    using that by simp
  have ok': "\<exists>d. relay calm r = (d, None) \<and> clientView d = clientView (fsm_data s')"
    if "\<exists>d. r = (d, None) \<and> clientView d = clientView (fsm_data s')" for r
    using that by auto
  note h = calm_client.client_ops_h onData_success discardErr_def
  show ?thesis
  proof (cases c)
    case (DatabaseC x)
    show ?thesis
    proof (cases x)
      case (CreateDatabaseCommand db rpi n ski tag opts)
      have "n < 2 ^ 32" using assms(4) DatabaseC CreateDatabaseCommand by (simp add: wireCmd_def)
      then show ?thesis
        using assms(1,3) DatabaseC CreateDatabaseCommand calm_client.CreateDatabaseCommand_h [of cfg db rpi n ski tag opts "fsm_data s"]
        by (simp add: databasePolicy_recorded wrapErr_relay onData_success)
    next
      case (DropDatabaseCommand db)
      then show ?thesis
        using assms(1) DatabaseC ok' [OF server_DropDatabase [of db s s' "RetentionAutoCreate cfg"]]
          calm_client.clientDropDatabase_h [of "RetentionAutoCreate cfg" db "fsm_data s"]
        by (simp add: recordedCmd_def del: clientDatabaseCmd.simps)
    next
      case (MarkDatabaseDeleteCommand db)
      then show ?thesis using assms(1) DatabaseC calm_client.mark_quiet(1) [of db "fsm_data s" "fsm_data s'"]
        by (simp add: recordedCmd_def onData_success)
    next
      case (MarkRetentionPolicyDeleteCommand db rp)
      then show ?thesis using assms(1) DatabaseC calm_client.mark_quiet(2) [of db rp "fsm_data s" "fsm_data s'"]
        by (simp add: recordedCmd_def onData_success)
    qed (use assms(1) DatabaseC in \<open>simp_all add: recordedCmd_def h ok\<close>)
  next
    case (GroupC x)
    then show ?thesis using assms(1)
      by (cases x) (simp_all add: recordedCmd_def h ok clientExpandGroups_def calm_client.ExpandGroupsCommand_h)
  next
    case (MstC x)
    then show ?thesis using assms(1) calm_client.mark_quiet(3) [of _ _ _ "fsm_data s" "fsm_data s'"]
      by (cases x) (simp_all add: recordedCmd_def h ok)
  next
    case (UserC x)
    then show ?thesis using assms(1) by (cases x) (simp_all add: recordedCmd_def h ok)
  next
    case (NodeC x)
    then show ?thesis using assms(1,2)
      by (cases x) (simp_all add: recordedCmd_def h ok applyCreateDataNodeCommand_def e sq commandUseForClient_def)
  next
    case (PtC x)
    then show ?thesis using assms(1,2) by (cases x) (simp_all add: recordedCmd_def h ok commandUseForClient_def)
  next
    case (QueryC x)
    then show ?thesis
      using assms(1,2) ok' [OF server_CQ(1)] ok' [OF server_CQ(2)] calm_client.clientCQ_h
      by (cases x) (simp_all add: recordedCmd_def h ok commandUseForClient_def del: clientQueryCmd.simps(4,6))
  qed
qed


text \<open>Deleting a group stores the time at which the command is applied.\<close>

definition clocked :: "Cmd \<Rightarrow> bool" where
  "clocked c = (case c of GroupC (DeleteShardGroupCommand _ _ _ _ _) \<Rightarrow> True | GroupC (DeleteIndexGroupCommand _ _ _) \<Rightarrow> True | _ \<Rightarrow> False)"

lemma clientCmd_now: "\<not> clocked c \<Longrightarrow> clientCmd env auto now c d = clientCmd env auto now' c d"
proof (cases c)
  case (GroupC x)
  moreover assume "\<not> clocked c"
  ultimately show ?thesis by (cases x) (simp_all add: clocked_def)
qed simp_all

lemma clocked_recorded: "clocked (recordedCmd cfg c) = clocked c"
  by (auto simp: recordedCmd_def clocked_def split: Cmd.split DatabaseCmd.split option.split)

definition agrees :: "Cmd Data \<Rightarrow> Cmd Data \<Rightarrow> bool" where
  "agrees c d \<longleftrightarrow> clientView c = clientView d \<and> MigrateEvents c = []"

lemma client_step:
  assumes "executeCmd env cfg now c s = (s', None)" "cmdType c \<in> set commandUseForClient" "UseIncSyncData cfg" "wireCmd c"
    and "ExpandShardsEnable (fsm_data s) = cfg_ExpandShardsEnable cfg" "\<not> clocked c" "agrees cl (fsm_data s)"
  shows "\<exists>cl'. clientCmd env (RetentionAutoCreate cfg) now' (recordedCmd cfg c) cl = (cl', None) \<and> agrees cl' (fsm_data s')"
proof -
  let ?f = "clientCmd env (RetentionAutoCreate cfg) now' (recordedCmd cfg c)"
  obtain d where d: "?f (calm (fsm_data s)) = (d, None)" "clientView d = clientView (fsm_data s')"
    using server_client_step [OF assms(1-5)] clientCmd_now [of "recordedCmd cfg c" env _ now _ now'] assms(6) clocked_recorded by metis
  have "?f (clientView (calm (fsm_data s))) = relay clientView (?f (calm (fsm_data s)))"
    by (rule viewed_client.clientCmd_h) (simp add: calm_def)
  then have "?f (clientView cl) = (clientView d, None)" using d assms(7) by (simp add: agrees_def)
  moreover have "?f (clientView cl) = relay clientView (?f cl)"
    using assms(7) by (intro viewed_client.clientCmd_h) (simp add: agrees_def)
  ultimately obtain cl' where cl': "?f cl = (cl', None)" "clientView cl' = clientView d" by (cases "?f cl") auto
  have "calm cl = cl" using assms(7) by (simp add: calm_def agrees_def)
  then have "?f cl = relay calm (?f cl)" using calm_client.clientCmd_h [of cl] assms(7) by (metis agrees_def)
  then have "MigrateEvents cl' = []" using cl'(1) by (simp add: calm_def) (metis Data.select_convs(15) Data.surjective Data.update_convs(15))
  then show ?thesis using cl' d(2) by (simp add: agrees_def)
qed

text \<open>A command that is not sent to the clients changes nothing they use, except that it may switch take-over.\<close>

definition keepsTakeover :: "Cmd \<Rightarrow> Cmd Data \<Rightarrow> bool" where
  "keepsTakeover c d = (case c of NodeC (MarkTakeoverCommand b) \<Rightarrow> b = TakeOverEnabled d | _ \<Rightarrow> True)"

lemma clientView_index: "clientView (fst (UpdateNodeTmpIndex role i n d)) = clientView d"
proof -
  have "map (reindex (\<lambda>_. 0)) (fst (setIndexLoop n i ns)) = map (reindex (\<lambda>_. 0)) ns" for ns
    by (induction ns) (auto simp: reindex_def split: prod.split)
  then show ?thesis by (simp add: UpdateNodeTmpIndex_def SetSqlNodeIndex_def SetDataNodeIndex_def clientView_def split_beta)
qed

lemma clientView_events:
  "clientView (fst (CreateMigrateEvent b e d)) = clientView d" "clientView (fst (UpdateMigrateEvent e d)) = clientView d"
  "clientView (fst (RemoveEventInfo i d)) = clientView d"
  by (simp_all add: CreateMigrateEvent_def UpdateMigrateEvent_def RemoveEventInfo_def clientView_def split: option.split)

lemma clientView_marks: "clientView (MarkBalancer b d) = clientView d" "clientView (MarkTakeover (TakeOverEnabled d) d) = clientView d"
  by (simp_all add: MarkBalancer_def MarkTakeover_def clientView_def)

lemma server_only_step:
  assumes "cmdType c \<notin> set commandUseForClient" "keepsTakeover c (fsm_data s)"
  shows "clientView (fsm_data (fst (executeCmd env cfg now c s))) = clientView (fsm_data s)"
proof (cases c)
  case (DatabaseC x)
  then show ?thesis using assms(1) by (cases x) (simp_all add: commandUseForClient_def)
next
  case (GroupC x)
  then show ?thesis using assms(1) by (cases x) (simp_all add: commandUseForClient_def)
next
  case (MstC x)
  then show ?thesis using assms(1) by (cases x) (simp_all add: commandUseForClient_def)
next
  case (UserC x)
  then show ?thesis using assms(1) by (cases x) (simp_all add: commandUseForClient_def)
next
  case (NodeC x)
  then show ?thesis using assms
    by (cases x) (simp_all add: commandUseForClient_def clientView_index keepsTakeover_def clientView_marks)
next
  case (PtC x)
  then show ?thesis using assms(1) by (cases x) (simp_all add: commandUseForClient_def clientView_events)
next
  case (QueryC x)
  then show ?thesis using assms(1)
    by (cases x) (simp_all add: commandUseForClient_def applyNotifyCQLeaseChangedCommand_def)
qed



section \<open>The client follows the server\<close>

text \<open>Applying a command changes neither the position of the copy nor its last change of the queries.\<close>

definition posted :: "nat \<Rightarrow> nat \<Rightarrow> Cmd Data \<Rightarrow> Cmd Data" where
  "posted i m d = d\<lparr>MigrateEvents := [], Index := i, MaxCQChangeID := m\<rparr>"

interpretation posted_client: client_store "posted i m" "\<lambda>i. i" for i m
  by unfold_locales (simp_all add: posted_def reindex_same)

lemma posted_eq: "d = posted i m d' \<Longrightarrow> Index d = i \<and> MaxCQChangeID d = m"
  by (simp add: posted_def)

lemma clientCmd_position:
  assumes "MigrateEvents d = []" "clientCmd env auto now c d = (d', e)"
  shows "Index d' = Index d \<and> MaxCQChangeID d' = MaxCQChangeID d"
proof -
  have "posted (Index d) (MaxCQChangeID d) d = d" using assms(1) by (simp add: posted_def)
  then have "clientCmd env auto now c d = relay (posted (Index d) (MaxCQChangeID d)) (clientCmd env auto now c d)"
    using posted_client.clientCmd_h [OF assms(1)] by metis
  then show ?thesis using assms(2) by (intro posted_eq) simp
qed

text \<open>The log entries the result covers, in the state they are applied in: their index is new, they do not end the
  process, the command came over the wire, is not clocked and does not switch take-over; if it fails it changed
  nothing the clients use; and it can be encoded.\<close>

definition followable :: "Env \<Rightarrow> FsmConfig \<Rightarrow> (Cmd Command \<Rightarrow> string option) \<Rightarrow> Store \<Rightarrow> LogEntry \<Rightarrow> bool" where
  "followable env cfg pm s l \<longleftrightarrow>
     (case Apply env cfg l s of (s', e) \<Rightarrow>
        Index (fsm_data s) < log_Index l \<and> log_Index l < maxU64 \<and> \<not> isPanic e
        \<and> wireCmd (log_Cmd l) \<and> \<not> clocked (log_Cmd l) \<and> keepsTakeover (log_Cmd l) (fsm_data s)
        \<and> ExpandShardsEnable (fsm_data s) = cfg_ExpandShardsEnable cfg
        \<and> (e \<noteq> None \<longrightarrow> clientView (fsm_data s') = clientView (fsm_data s))
        \<and> pm (Command (cmdType (recordedCmd cfg (log_Cmd l))) (recordedCmd cfg (log_Cmd l))) \<noteq> None)"

definition opsBelow :: "Cmd Data \<Rightarrow> bool" where
  "opsBelow d \<longleftrightarrow> list_all (\<lambda>p. fst p \<le> Index d) (opsLog d)"

text \<open>The commands a run records.\<close>

definition newOp :: "Env \<Rightarrow> FsmConfig \<Rightarrow> Store \<Rightarrow> LogEntry \<Rightarrow> (nat \<times> Cmd) list" where
  "newOp env cfg s l =
     (if snd (executeCmd env cfg (log_Now l) (log_Cmd l) s) = None \<and> cmdType (log_Cmd l) \<in> set commandUseForClient
      then [(log_Index l, recordedCmd cfg (log_Cmd l))] else [])"

fun newOps :: "Env \<Rightarrow> FsmConfig \<Rightarrow> LogEntry list \<Rightarrow> Store \<Rightarrow> (nat \<times> Cmd) list" where
  "newOps env cfg [] s = []"
| "newOps env cfg (l # ls) s = newOp env cfg s l @ newOps env cfg ls (fst (Apply env cfg l s))"

abbreviation asOp :: "nat \<times> Cmd \<Rightarrow> nat \<times> Cmd Command" where
  "asOp p \<equiv> (fst p, Command (cmdType (snd p)) (snd p))"

lemma clientView_unlogged: "unlogged d' = unlogged d \<Longrightarrow> clientView d' = clientView d"
proof -
  assume u: "unlogged d' = unlogged d"
  have "clientView d = clientView (unlogged d)" for d :: "'a Data" by (simp add: clientView_def relog_def)
  then show ?thesis using u by metis
qed

lemma clientView_stamp: "clientView (stamp t i d) = clientView d"
  by (simp add: clientView_def stamp_def)

lemma opsReady_same: "logPart d' = logPart d \<Longrightarrow> opsReady pm d' = opsReady pm d" "logPart d' = logPart d \<Longrightarrow> opsLog d' = opsLog d"
  using opsInv_logPart [of d' d pm] by (auto simp: logPart_def opsReady_def opsLog_def)

lemma Apply_follow:
  assumes "followable env cfg pm s l" "opsReady pm (fsm_data s)" "opsBelow (fsm_data s)"
  defines "s' \<equiv> fst (Apply env cfg l s)" and "x \<equiv> executeCmd env cfg (log_Now l) (log_Cmd l) s"
  shows "opsReady pm (fsm_data s')" "opsBelow (fsm_data s')" "Index (fsm_data s') = log_Index l"
    "opsLog (fsm_data s') = opsLog (fsm_data s) @ map asOp (newOp env cfg s l)"
    "clientView (fsm_data s') = clientView (fsm_data (fst x))"
proof -
  obtain s1 e where x: "executeCmd env cfg (log_Now l) (log_Cmd l) s = (s1, e)" by (metis surj_pair)
  let ?d2 = "stamp (log_Term l) (log_Index l) (fsm_data s1)"
  let ?r = "recordedCmd cfg (log_Cmd l)"
  let ?d3 = "fst (AddCmdAsOpToOpMap (Command (cmdType ?r) ?r) (log_Index l) ?d2)"
  have lp: "logPart (fsm_data s1) = logPart (fsm_data s)" using executeCmd_logPart [of env cfg "log_Now l" "log_Cmd l" s] x by simp
  have o2: "opsLog ?d2 = opsLog (fsm_data s)" using opsReady_same(2) [OF lp] by (simp add: opsLog_def stamp_def)
  have "opsReady pm (fsm_data s1)" using opsReady_same(1) [OF lp] assms(2) by simp
  then have r2: "opsReady pm ?d2"
    using opsInv_logPart [of ?d2 "fsm_data s1" pm] by (simp add: opsReady_def opsLog_def stamp_def)
  have f: "Index (fsm_data s) < log_Index l" "log_Index l < maxU64" "pm (Command (cmdType ?r) ?r) \<noteq> None" "\<not> isPanic (snd (Apply env cfg l s))"
    using assms(1) by (auto simp: followable_def split: prod.splits)
  have np: "\<not> isPanic e" using f(4) x by (auto simp: Apply_def)
  have below: "\<forall>p \<in> set (opsLog ?d2). fst p < log_Index l" using assms(3) f(1) o2 by (auto simp: opsBelow_def list_all_iff)
  have a: "opsReady pm ?d3 \<and> opsLog ?d3 = opsLog ?d2 @ (if cmdType ?r \<in> set commandUseForClient then [(log_Index l, Command (cmdType ?r) ?r)] else [])"
    using opsl_add [OF r2 _ below, of "Command (cmdType ?r) ?r"] f by (simp add: opsValid_def)
  note u = unlogged_keeps [OF unlogged_ops(1), of "Command (cmdType ?r) ?r" "log_Index l" ?d2]
  have v3: "clientView ?d3 = clientView (fsm_data s1)"
    using clientView_unlogged [OF unlogged_ops(1), of "Command (cmdType ?r) ?r" "log_Index l" ?d2] clientView_stamp by metis
  have i3: "Index ?d3 = log_Index l" using u by (simp add: stamp_def)
  have s': "fsm_data s' = (if e = None then ?d3 else ?d2)"
    using np x by (simp add: s'_def Apply_def recordOp_def Let_def)
  show "opsReady pm (fsm_data s')" using s' a r2 by simp
  show "Index (fsm_data s') = log_Index l" using s' i3 by (simp add: stamp_def)
  then show "opsBelow (fsm_data s')" using s' below a by (auto simp: opsBelow_def list_all_iff less_imp_le)
  show "opsLog (fsm_data s') = opsLog (fsm_data s) @ map asOp (newOp env cfg s l)"
    using s' a o2 x by (simp add: newOp_def cmdType_recorded)
  show "clientView (fsm_data s') = clientView (fsm_data (fst x))"
    using s' v3 x by (simp add: x_def clientView_stamp)
qed


abbreviation serve :: "Env \<Rightarrow> FsmConfig \<Rightarrow> LogEntry \<Rightarrow> Store \<Rightarrow> Store" where
  "serve env cfg l s \<equiv> fst (Apply env cfg l s)"

lemma serve_log:
  assumes "allowed (serve env cfg) (followable env cfg pm) ls s" "opsReady pm (fsm_data s)" "opsBelow (fsm_data s)"
  shows "opsReady pm (fsm_data (fold (serve env cfg) ls s))
    \<and> opsLog (fsm_data (fold (serve env cfg) ls s)) = opsLog (fsm_data s) @ map asOp (newOps env cfg ls s)
    \<and> Index (fsm_data s) \<le> Index (fsm_data (fold (serve env cfg) ls s))
    \<and> (ls \<noteq> [] \<longrightarrow> Index (fsm_data s) < Index (fsm_data (fold (serve env cfg) ls s)))
    \<and> (\<forall>p \<in> set (newOps env cfg ls s). Index (fsm_data s) < fst p)"
  using assms
proof (induction ls arbitrary: s)
  case (Cons l ls)
  have l: "followable env cfg pm s l" using Cons.prems(1) by simp
  have less: "Index (fsm_data s) < log_Index l" using l by (simp add: followable_def split: prod.splits)
  note a = Apply_follow [OF l Cons.prems(2,3)]
  have "\<forall>p \<in> set (newOp env cfg s l). Index (fsm_data s) < fst p" using less by (simp add: newOp_def)
  then show ?case using Cons.IH [of "serve env cfg l s"] Cons.prems(1) a less by auto
qed simp

lemma serve_step:
  assumes "followable env cfg pm s l" "opsReady pm (fsm_data s)" "opsBelow (fsm_data s)" "UseIncSyncData cfg" "agrees cl (fsm_data s)"
    and "\<forall>c b. pm (Command (cmdType c) c) = Some b \<longrightarrow> um b = Some c"
  shows "\<exists>cl'. dataOpsLoop um (clientCmd env (RetentionAutoCreate cfg) now) (map (\<lambda>p. the (pm (snd (asOp p)))) (newOp env cfg s l) @ ops) cl
       = dataOpsLoop um (clientCmd env (RetentionAutoCreate cfg) now) ops cl'
     \<and> agrees cl' (fsm_data (serve env cfg l s)) \<and> Index cl' = Index cl \<and> MaxCQChangeID cl' = MaxCQChangeID cl"
proof -
  obtain s1 e where x: "executeCmd env cfg (log_Now l) (log_Cmd l) s = (s1, e)" by (metis surj_pair)
  let ?r = "recordedCmd cfg (log_Cmd l)"
  have f: "pm (Command (cmdType ?r) ?r) \<noteq> None" "\<not> isPanic (snd (Apply env cfg l s))" "wireCmd (log_Cmd l)" "\<not> clocked (log_Cmd l)"
    "keepsTakeover (log_Cmd l) (fsm_data s)" "ExpandShardsEnable (fsm_data s) = cfg_ExpandShardsEnable cfg"
    "snd (Apply env cfg l s) \<noteq> None \<longrightarrow> clientView (fsm_data (serve env cfg l s)) = clientView (fsm_data s)"
    using assms(1) by (auto simp: followable_def split: prod.splits)
  have v: "clientView (fsm_data (serve env cfg l s)) = clientView (fsm_data s1)" using Apply_follow(5) [OF assms(1-3)] x by simp
  show ?thesis
  proof (cases "e = None \<and> cmdType (log_Cmd l) \<in> set commandUseForClient")
    case True
    obtain cl' where cl': "clientCmd env (RetentionAutoCreate cfg) now ?r cl = (cl', None)" "agrees cl' (fsm_data s1)"
      using client_step [of env cfg "log_Now l" "log_Cmd l" s s1 cl now] x True assms(4,5) f by blast
    have "newOp env cfg s l = [(log_Index l, ?r)]" using True x by (simp add: newOp_def)
    moreover have "um (the (pm (Command (cmdType ?r) ?r))) = Some ?r" using f(1) assms(6) by auto
    moreover have "agrees cl' (fsm_data (serve env cfg l s))" using cl'(2) v by (simp add: agrees_def)
    moreover have "Index cl' = Index cl \<and> MaxCQChangeID cl' = MaxCQChangeID cl"
      using clientCmd_position [OF _ cl'(1)] assms(5) by (simp add: agrees_def)
    ultimately show ?thesis using cl'(1) by auto
  next
    case False
    then have "newOp env cfg s l = []" using x by (simp add: newOp_def)
    moreover have "clientView (fsm_data (serve env cfg l s)) = clientView (fsm_data s)"
    proof (cases e)
      case None
      then show ?thesis using False v x server_only_step [of "log_Cmd l" s env cfg "log_Now l"] f(5) by simp
    next
      case (Some y)
      then have "snd (Apply env cfg l s) \<noteq> None" using x by (auto simp: Apply_def Let_def)
      then show ?thesis using f(7) by blast
    qed
    ultimately show ?thesis using assms(5) by (auto simp: agrees_def)
  qed
qed

lemma serve_client:
  assumes "allowed (serve env cfg) (followable env cfg pm) ls s" "opsReady pm (fsm_data s)" "opsBelow (fsm_data s)"
    and "agrees cl (fsm_data s)" "UseIncSyncData cfg" "\<forall>c b. pm (Command (cmdType c) c) = Some b \<longrightarrow> um b = Some c"
  shows "\<exists>cl'. dataOpsLoop um (clientCmd env (RetentionAutoCreate cfg) now) (map (\<lambda>p. the (pm (snd (asOp p)))) (newOps env cfg ls s)) cl = (cl', None)
     \<and> agrees cl' (fsm_data (fold (serve env cfg) ls s)) \<and> Index cl' = Index cl \<and> MaxCQChangeID cl' = MaxCQChangeID cl"
  using assms(1-4)
proof (induction ls arbitrary: s cl)
  case (Cons l ls)
  have l: "followable env cfg pm s l" using Cons.prems(1) by simp
  note a = Apply_follow [OF l Cons.prems(2,3)]
  let ?h = "dataOpsLoop um (clientCmd env (RetentionAutoCreate cfg) now)"
  let ?e = "map (\<lambda>p. the (pm (snd (asOp p))))"
  obtain cl1 where cl1: "?h (?e (newOps env cfg (l # ls) s)) cl = ?h (?e (newOps env cfg ls (serve env cfg l s))) cl1"
    "agrees cl1 (fsm_data (serve env cfg l s))" "Index cl1 = Index cl" "MaxCQChangeID cl1 = MaxCQChangeID cl"
    using serve_step [OF l Cons.prems(2,3) assms(5) Cons.prems(4) assms(6), of now "?e (newOps env cfg ls (serve env cfg l s))"] by auto
  have "allowed (serve env cfg) (followable env cfg pm) ls (serve env cfg l s)" using Cons.prems(1) by simp
  from Cons.IH [OF this a(1,2) cl1(2)] show ?case using cl1 by auto
qed simp

text \<open>C2: A node's copy of the state follows the server. Let the copy agree with the server on everything a
  client uses, at the same index, and let the server apply any sequence of followable log entries. When the node
  then asks for what it misses, the server always answers. If it sends the commands of its log, the node applies all of them without
  an error, and afterwards its copy agrees with the server again, at the server's index and with the server's last
  change of the continuous queries. If it sends nothing, the copy still agrees; and it asks for a reload of
  everything only if the log was empty when the node last asked.\<close>

theorem client_follows_server:
  assumes "\<forall>c b. pm (Command (cmdType c) c) = Some b \<longrightarrow> um b = Some c" "UseIncSyncData cfg"
    and "opsReady pm (fsm_data s)" "opsBelow (fsm_data s)"
    and "agrees cl (fsm_data s)" "Index cl = Index (fsm_data s)"
    and "allowed (serve env cfg) (followable env cfg pm) ls s" "s' = fold (serve env cfg) ls s"
  shows "case getSnapshotV2 pm (Index cl) (fsm_data s') of
      None \<Rightarrow> False
    | Some Nothing \<Rightarrow> agrees cl (fsm_data s') \<and> Index cl = Index (fsm_data s')
    | Some (Full i) \<Rightarrow> opsLog (fsm_data s) = [] \<and> i = Index (fsm_data s')
    | Some (Delta ops i m) \<Rightarrow>
        (\<exists>cl'. applyDataOps um env (RetentionAutoCreate cfg) now ops i m cl = (cl', None) \<and> agrees cl' (fsm_data s')
          \<and> Index cl' = Index (fsm_data s') \<and> MaxCQChangeID cl' = MaxCQChangeID (fsm_data s'))"
proof (cases "ls = []")
  case True
  then show ?thesis using assms by (simp add: getSnapshotV2_def)
next
  case False
  let ?n = "newOps env cfg ls s"
  note g = serve_log [OF assms(7,3,4), folded assms(8)]
  have less: "\<not> Index (fsm_data s') \<le> Index cl" using g False assms(6) by simp
  have old: "filter (\<lambda>p. Index cl < fst p) (opsLog (fsm_data s)) = []"
    using assms(4,6) by (auto simp: opsBelow_def list_all_iff filter_empty_conv)
  have new: "filter (\<lambda>p. Index cl < fst p) (map asOp ?n) = map asOp ?n" using g assms(6) by (auto simp: filter_id_conv)
  let ?ops = "map (\<lambda>p. the (pm (snd (asOp p)))) ?n"
  let ?full = "opsLog (fsm_data s') \<noteq> [] \<and> Index cl < fst (hd (opsLog (fsm_data s')))"
  have get: "GetOps pm (Index cl) (fsm_data s') = Some (if ?full then ([], AllClear) else (?ops, NoClear))"
    using opsl_GetOps [of pm "fsm_data s'" "Index cl"] g old new by (simp add: comp_def)
  have full: "?full \<Longrightarrow> opsLog (fsm_data s) = []"
    using g assms(4,6) by (cases "opsLog (fsm_data s)") (auto simp: opsBelow_def)
  let ?cl = "cl\<lparr>Index := Index (fsm_data s'), MaxCQChangeID := MaxCQChangeID (fsm_data s')\<rparr>"
  have "agrees ?cl (fsm_data s)" using assms(5) by (simp add: agrees_def clientView_def)
  from serve_client [OF assms(7,3,4) this assms(2,1), of now]
  have "\<exists>cl'. applyDataOps um env (RetentionAutoCreate cfg) now ?ops (Index (fsm_data s')) (MaxCQChangeID (fsm_data s')) cl = (cl', None)
      \<and> agrees cl' (fsm_data s') \<and> Index cl' = Index (fsm_data s') \<and> MaxCQChangeID cl' = MaxCQChangeID (fsm_data s')"
    by (auto simp: applyDataOps_def assms(8))
  moreover have "getSnapshotV2 pm (Index cl) (fsm_data s') =
      Some (if ?full then Full (Index (fsm_data s')) else Delta ?ops (Index (fsm_data s')) (MaxCQChangeID (fsm_data s')))"
    using less get by (auto simp: getSnapshotV2_def)
  ultimately show ?thesis using full by simp
qed


definition followCfg :: FsmConfig where
  "followCfg = exampleCfg\<lparr>cfg_ExpandShardsEnable := False\<rparr>"

definition createUser :: "nat \<Rightarrow> string \<Rightarrow> bool \<Rightarrow> LogEntry" where
  "createUser i name admin =
     \<lparr>log_Term = 1, log_Index = i, log_IsCommand = True, log_Cmd = UserC (CreateUserCommand name ''h'' admin False), log_Now = 0\<rparr>"

definition exampleMarshal :: "Cmd Command \<Rightarrow> string option" where
  "exampleMarshal c =
     (if cmd_payload c = UserC (CreateUserCommand ''root'' ''h'' True False) then Some ''a''
      else if cmd_payload c = UserC (CreateUserCommand ''u'' ''h'' True False) then Some ''b''
      else if cmd_payload c = UserC (CreateUserCommand ''w'' ''h'' False False) then Some ''c''
      else None)"

definition exampleUnmarshal :: "string \<Rightarrow> Cmd option" where
  "exampleUnmarshal b =
     (if b = ''a'' then Some (UserC (CreateUserCommand ''root'' ''h'' True False))
      else if b = ''b'' then Some (UserC (CreateUserCommand ''u'' ''h'' True False))
      else if b = ''c'' then Some (UserC (CreateUserCommand ''w'' ''h'' False False))
      else None)"

lemma exampleMarshal_decodes: "\<forall>c b. exampleMarshal (Command (cmdType c) c) = Some b \<longrightarrow> exampleUnmarshal b = Some c"
  by (simp add: exampleMarshal_def exampleUnmarshal_def)

definition followStore :: Store where
  "followStore = serve exampleEnv followCfg (createUser 2 ''root'' True) (NewStore followCfg)"

lemmas follow_defs = followCfg_def createUser_def followStore_def Apply_def onData_def recordOp_def recordedCmd_def ApplyCreateUser_def
  CreateUser_def GetUser_def HasAdminUser_def NewStore_def exampleCfg_def zeroData_def AddCmdAsOpToOpMap_def commandUseForClient_def stamp_def

lemma followLog_ok:
  "allowed (serve exampleEnv followCfg) (followable exampleEnv followCfg exampleMarshal)
     [createUser 3 ''u'' True, createUser 4 ''w'' False] followStore"
  by (simp add: follow_defs followable_def exampleMarshal_def wireCmd_def clocked_def keepsTakeover_def clientView_def Let_def)

lemma followStore_ok: "opsReady exampleMarshal (fsm_data followStore)" "opsBelow (fsm_data followStore)"
    "opsLog (fsm_data followStore) = [(2, Command 13 (UserC (CreateUserCommand ''root'' ''h'' True False)))]"
  by (simp_all add: follow_defs opsReady_def opsBelow_def opsInv_def opsMapOk_single cacheOk_def opsOf_def lastKey_def opsLog_def
      exampleMarshal_def Let_def)


text \<open>A first administrator has been created and sent; of the next two commands one is refused and one is sent.\<close>

theorem client_follows_server_witness:
  "let s' = fold (serve exampleEnv followCfg) [createUser 3 ''u'' True, createUser 4 ''w'' False] followStore;
       cl = calm (fsm_data followStore)
   in getSnapshotV2 exampleMarshal (Index cl) (fsm_data s') = Some (Delta [''c''] 4 0)
    \<and> (\<exists>cl'. applyDataOps exampleUnmarshal exampleEnv True 7 [''c''] 4 0 cl = (cl', None) \<and> agrees cl' (fsm_data s') \<and> Index cl' = 4)"
proof -
  define s' where "s' = fold (serve exampleEnv followCfg) [createUser 3 ''u'' True, createUser 4 ''w'' False] followStore"
  define cl where "cl = calm (fsm_data followStore)"
  have a: "agrees cl (fsm_data followStore)" "Index cl = Index (fsm_data followStore)"
    by (simp_all add: cl_def agrees_def calm_def clientView_def)
  have u: "UseIncSyncData followCfg" "RetentionAutoCreate followCfg" by (simp_all add: followCfg_def exampleCfg_def)
  have i: "Index cl = 2" "Index (fsm_data s') = 4" "MaxCQChangeID (fsm_data s') = 0"
    by (simp_all add: s'_def cl_def calm_def follow_defs Let_def)
  have l: "opsLog (fsm_data s') = [(2, Command 13 (UserC (CreateUserCommand ''root'' ''h'' True False))),
      (4, Command 13 (UserC (CreateUserCommand ''w'' ''h'' False False)))]"
    using serve_log [OF followLog_ok followStore_ok(1,2)] followStore_ok(3)
    by (simp add: s'_def newOp_def follow_defs Let_def)
  have "opsReady exampleMarshal (fsm_data s')" using serve_log [OF followLog_ok followStore_ok(1,2), folded s'_def] by blast
  from opsl_GetOps [OF this, of 2] have "GetOps exampleMarshal 2 (fsm_data s') = Some ([''c''], NoClear)"
    by (simp add: l exampleMarshal_def)
  then have g: "getSnapshotV2 exampleMarshal (Index cl) (fsm_data s') = Some (Delta [''c''] 4 0)"
    by (simp add: getSnapshotV2_def i)
  show ?thesis
    using client_follows_server [OF exampleMarshal_decodes u(1) followStore_ok(1,2) a followLog_ok s'_def, of 7] g u(2) i
    unfolding s'_def [symmetric] cl_def [symmetric] Let_def by auto
qed


text \<open>C36: Switching take-over never reaches the clients: the command succeeds on the server, nothing is added to
  the log they read, and the copy of a client that agreed with the server before does not agree afterwards.\<close>

theorem takeover_not_sent:
  assumes "log_Cmd l = NodeC (MarkTakeoverCommand b)" "b \<noteq> TakeOverEnabled (fsm_data s)" "agrees cl (fsm_data s)"
  shows "case Apply env cfg l s of (s', e) \<Rightarrow>
     e = None \<and> opsLog (fsm_data s') = opsLog (fsm_data s) \<and> \<not> agrees cl (fsm_data s')"
proof -
  have "Apply env cfg l s = (s\<lparr>fsm_data := stamp (log_Term l) (log_Index l) (MarkTakeover b (fsm_data s))\<rparr>, None)"
    using assms(1) by (cases "OpsMap (fsm_data s)")
      (simp_all add: Apply_def recordOp_def recordedCmd_def onData_def AddCmdAsOpToOpMap_def commandUseForClient_def MarkTakeover_def stamp_def Let_def)
  moreover have "TakeOverEnabled (clientView d) = TakeOverEnabled d" for d :: "Cmd Data" by (simp add: clientView_def)
  then have "TakeOverEnabled cl = TakeOverEnabled (fsm_data s)" using assms(3) by (metis agrees_def)
  moreover have "agrees cl d \<Longrightarrow> TakeOverEnabled d = TakeOverEnabled cl" for d
    using \<open>\<And>d. TakeOverEnabled (clientView d) = TakeOverEnabled d\<close> by (metis agrees_def)
  ultimately show ?thesis using assms(2) by (fastforce simp: MarkTakeover_def stamp_def opsLog_def)
qed

theorem takeover_not_sent_witness:
  "let s = NewStore exampleCfg; cl = calm (fsm_data s);
       l = \<lparr>log_Term = 1, log_Index = 2, log_IsCommand = True, log_Cmd = NodeC (MarkTakeoverCommand (\<not> TakeOverEnabled (fsm_data s))), log_Now = 0\<rparr>
   in agrees cl (fsm_data s) \<and> snd (Apply exampleEnv exampleCfg l s) = None \<and> \<not> agrees cl (fsm_data (fst (Apply exampleEnv exampleCfg l s)))"
proof -
  let ?s = "NewStore exampleCfg"
  have a: "agrees (calm (fsm_data ?s)) (fsm_data ?s)" by (simp add: agrees_def calm_def clientView_def)
  show ?thesis
    using takeover_not_sent [of "\<lparr>log_Term = 1, log_Index = 2, log_IsCommand = True,
      log_Cmd = NodeC (MarkTakeoverCommand (\<not> TakeOverEnabled (fsm_data ?s))), log_Now = 0\<rparr>", OF _ _ a, of _ exampleEnv exampleCfg] a
    by (auto simp: Let_def split_beta)
qed

end
