(* ===== verification/Spec2Isabelle.thy ===== *)
theory Spec2Isabelle
  imports MetaClient
begin

text \<open>
  A verification development for openGemini, a distributed time-series database. It covers the meta service: the
  replicated state machine that describes the cluster (databases, retention policies, measurements, shard groups,
  partitions, replica groups, nodes, users, streams, continuous queries) and hands this description to the SQL
  and storage nodes.

  \<^bold>\<open>How the parts interact.\<close> A request to the meta service becomes a command in a Raft log. \<open>storeFSM.Apply\<close>
  or \<open>storeFSM.ApplyBatch\<close> (\<open>app/ts-meta/meta/store_fsm.go\<close>) executes it on the struct \<open>Data\<close> through the
  functions of \<open>apply_func_base.go\<close>, which call the operations of \<open>data.go\<close> and its neighbours in
  \<open>lib/util/lifted/influx/meta\<close>. Successful commands are appended to an incremental operation log from which the
  nodes update their own copy of the state. Beside the log, the leader leases continuous queries to SQL nodes and
  watches their heartbeats (\<open>app/ts-meta/meta/continuous_query.go\<close>).

  \<^bold>\<open>Theories and the code they model.\<close>
    \<^item> Prelude: Go arithmetic (\<open>u64\<close>, \<open>u32\<close> for wrap-around), times and durations as integers of nanoseconds,
      errors and panics as values, maps as association lists, \<open>sort.Search\<close>, loops that stop at an error
      (\<open>loopE\<close>, \<open>walkE\<close>, \<open>mapE\<close>), and the locale of machines that keep an invariant.
    \<^item> MetaTypes: the structs of the state as records, with the field names of the source and a prefix per struct.
    \<^item> MetaOps: the operation log of \<open>data.go\<close> (\<open>AddCmdAsOpToOpMap\<close>, \<open>ClearOpsMapV2\<close>,
      \<open>UpdateOpsMapCacheBytes\<close>, \<open>GetOps\<close>).
    \<^item> MetaRP: retention policy checks, time range queries, versioned measurement names (\<open>retentionpolicy.go\<close>,
      \<open>shardinfo.go\<close>, \<open>measurement.go\<close>).
    \<^item> MetaPt: partition views, replica groups, their health and elections (\<open>data.go\<close>, \<open>replication.go\<close>).
    \<^item> MetaShards and MetaPrune: creating, splitting, expanding, deleting and pruning shard and index groups.
    \<^item> MetaNodes: registration, status and removal of nodes.
    \<^item> MetaDDL, MetaMst: databases, policies, subscriptions, streams, users, query ids, migration events;
      measurements, schemas and shard keys.
    \<^item> MetaCQ: the leases of continuous queries, heartbeats and the lock protocol of \<open>continuous_query.go\<close>.
    \<^item> MetaApply: \<open>apply_func_base.go\<close>.
    \<^item> MetaFSM: the commands, the table \<open>applyFunc\<close>, \<open>executeCmd\<close>, \<open>Apply\<close> and \<open>ApplyBatch\<close>.
    \<^item> MetaOverlay: the proof that every operation commutes with replacing the parts of the state it does not read.
    \<^item> MetaFSMInv and MetaFSMRun: what each command leaves alone, the invariant of the store, and runs of the service.
    \<^item> MetaClient: the answer of the service to a node that is behind (\<open>getSnapshotV2\<close> in \<open>store.go\<close>) and the copy of
      the state in \<open>lib/metaclient/meta_client.go\<close> with its handlers and \<open>applyDataOps\<close>.

  Operations that change the state take it as their last argument and return the new state with an optional error,
  because the Go code mutates \<open>Data\<close> in place and often before it fails; a panic is an error of its own kind that ends
  the loop it occurs in. Iteration over a Go map follows the order of the association list; where the result
  depends on that order a theorem says so. Lookups that Go performs on missing entries are the explicit branches
  \<open>index_panic\<close> and \<open>nil_panic\<close>.

  \<^bold>\<open>What the lemmas show.\<close>
    \<^item> Operation log: the log stays a chain, a client that asks for an index receives exactly the commands it
      misses or a request to reload, and trimming keeps exactly the commands from its bound on.
    \<^item> Shards: a created group is found by its timestamp, a split routes each key to exactly one new shard,
      an expansion gives each group a shard per partition, pruning removes exactly what has been deleted.
    \<^item> Partitions and nodes: new nodes complete the views of all databases, replica groups partition the
      partitions, the health of a group is a majority, stale status reports are refused.
    \<^item> Catalogue: policies and measurements are found after their creation, schemas only grow, a database marked
      deleted is frozen.
    \<^item> State machine: a batch equals one-by-one application; every run keeps the invariant of the store; the
      continuous query names kept step by step are those a restart computes.
    \<^item> Client: applying what the server answers makes the copy agree with the server on everything a client uses;
      switching take-over is the command after which it does not.
    \<^item> Defects that modelling showed are closed theorems about concrete states, for example an operation log
      trimmed empty that hides commands from a client, or a heartbeat that blocks the state machine for ever.

  \<^bold>\<open>Bounds and fuel.\<close> Counters are natural numbers reduced modulo \<open>2 ^ 64\<close> where the code increments them.
  Runs are bounded by \<open>184467440737\<close> events, the number of query id ranges that fit into 64 bits; node ids need one
  number per event and stay below that bound. \<open>offlineLoop\<close> gets as much fuel as there are heartbeats, and each
  round removes one. The loops over the operation log that may not end on an ill-formed map are partial functions;
  the theorems on them show that they return.

  \<^bold>\<open>Interfaces.\<close> The protobuf encoder of commands is a parameter of the operation log (\<open>pm\<close>); cluster
  configuration read from other packages is the record \<open>Env\<close>. The locale \<open>command_log\<close> states what a client relies
  on from the log, \<open>invariant_system\<close> what a replayed log keeps, \<open>overlay\<close> and its extensions that operations ignore
  parts of the state, \<open>marshalling\<close> that a message carries what is read back from it; each is interpreted on the
  definitions of the model. The client theorem assumes of the encoder and the decoder (\<open>um\<close>) that decoding gives
  back the encoded command, and of the log entries what \<open>followable\<close> says: two commands that store the local
  clock, commands that fail half-way and the switch of take-over are excluded.

  \<^bold>\<open>Not modelled.\<close> Raft itself, snapshots on disk, the protobuf conversions of the structs, \<open>SetDataCommand\<close> and
  \<open>InsertFilesCommand\<close> (which need those conversions and SQLite), the balancing and migration processes around the
  events, the network requests of the client and its
  other caches, the SQL front end with its generated parser, the query executor, the storage engine and
  the coordinator: they are dominated by I/O, goroutines or generated code.
\<close>

end
